theory Spec2Isabelle
  imports Main "HOL-Library.Multiset"
begin

section \<open>Python errors and the error monad\<close>

text \<open>
  Every exception the orchestrator \<^verbatim>\<open>seq2seq.py\<close> can raise by itself is a value:
  a dictionary lookup of a missing key, an index or a \<^verbatim>\<open>pop\<close> out of range, a
  numpy shape mismatch, a read of a local variable no branch has bound.
  \<open>LayerError\<close> stands for whatever a primitive of the module \<^verbatim>\<open>layers\<close> raises.
\<close>

datatype error = KeyError | IndexError | ValueError | UnboundLocalError | LayerError

definition bindE :: "error + 'x \<Rightarrow> ('x \<Rightarrow> error + 'y) \<Rightarrow> error + 'y" where
  "bindE r f = (case r of Inl e \<Rightarrow> Inl e | Inr x \<Rightarrow> f x)"

section \<open>Parameter tensors\<close>

text \<open>
  A numpy array held in the parameter dictionary: its shape and its entries in
  row-major order. The entry type \<open>'a\<close> is left open (it stands for the floating-point
  type chosen by \<^verbatim>\<open>dtype\<close>); only \<open>0\<close> and \<open>+\<close> are used by the orchestrator.
\<close>

datatype 'a ndarray = NDArray (shape: "nat list") (elems: "'a list")

definition zeros :: "nat list \<Rightarrow> 'a::zero ndarray" where
  "zeros dims = NDArray dims (replicate (prod_list dims) 0)"

definition astype :: "('a \<Rightarrow> 'a) \<Rightarrow> 'a ndarray \<Rightarrow> 'a ndarray" where
  "astype dt a = NDArray (shape a) (map dt (elems a))"

text \<open>
  \<^verbatim>\<open>np.random\<close> is a global generator: drawing a sample changes its state. The state
  \<open>'g\<close> is passed explicitly; \<open>gauss\<close> draws one standard normal sample and
  \<open>div_sqrt x n\<close> is \<^verbatim>\<open>x / np.sqrt(n)\<close>.
\<close>

record ('a, 'g) numerics =
  gauss :: "'g \<Rightarrow> 'a \<times> 'g"
  div_sqrt :: "'a \<Rightarrow> nat \<Rightarrow> 'a"

fun draws :: "('g \<Rightarrow> 'a \<times> 'g) \<Rightarrow> nat \<Rightarrow> 'g \<Rightarrow> 'a list \<times> 'g" where
  "draws f 0 g = ([], g)"
| "draws f (Suc n) g =
     (case f g of (x, g') \<Rightarrow> (case draws f n g' of (xs, g'') \<Rightarrow> (x # xs, g'')))"

text \<open>\<^verbatim>\<open>np.random.randn(*dims) / np.sqrt(fan)\<close>\<close>

definition randn_scaled ::
  "('a, 'g) numerics \<Rightarrow> nat list \<Rightarrow> nat \<Rightarrow> 'g \<Rightarrow> 'a ndarray \<times> 'g" where
  "randn_scaled nm dims fan g =
     (case draws (gauss nm) (prod_list dims) g of
        (xs, g') \<Rightarrow> (NDArray dims (map (\<lambda>x. div_sqrt nm x fan) xs), g'))"

section \<open>Parameter names\<close>

text \<open>The \<^verbatim>\<open>%d\<close> conversion of a non-negative integer.\<close>

definition digit_char :: "nat \<Rightarrow> char" where
  "digit_char d = ''0123456789'' ! d"

fun show_nat :: "nat \<Rightarrow> string" where
  "show_nat n = (if n < 10 then [digit_char n] else show_nat (n div 10) @ [digit_char (n mod 10)])"

declare show_nat.simps [simp del]

text \<open>\<^verbatim>\<open>"Wx_%d_enc" % i\<close> is \<open>pname ''Wx'' i ''enc''\<close>.\<close>

definition pname :: "string \<Rightarrow> nat \<Rightarrow> string \<Rightarrow> string" where
  "pname p i s = p @ ''_'' @ show_nat i @ ''_'' @ s"

section \<open>The model object and its construction\<close>

record 'a hparams =
  src_seq_len :: nat
  src_vocab_size :: nat
  src_embed_dim :: nat
  trg_seq_len :: nat
  trg_vocab_size :: nat
  trg_embed_dim :: nat
  hidden_dim :: nat
  null_idx :: int
  start_idx :: int
  end_idx :: int
  attention :: bool
  n_layers :: int
  cell_type :: string
  dtype :: "'a \<Rightarrow> 'a"

record 'a seq2seq = "'a hparams" +
  params :: "string \<rightharpoonup> 'a ndarray"

definition mk_seq2seq :: "'a hparams \<Rightarrow> (string \<rightharpoonup> 'a ndarray) \<Rightarrow> 'a seq2seq" where
  "mk_seq2seq a ps = hparams.extend a (seq2seq.fields ps)"

text \<open>\<^verbatim>\<open>{"lstm": 4, "rnn": 1}[cell_type]\<close>\<close>

definition cell_dim_mul :: "string \<Rightarrow> error + nat" where
  "cell_dim_mul ct =
     (case map_of [(''lstm'', 4), (''rnn'', 1)] ct of None \<Rightarrow> Inl KeyError | Some d \<Rightarrow> Inr d)"

text \<open>One iteration of the loop \<^verbatim>\<open>for i in range(n_layers)\<close> of \<^verbatim>\<open>__init__\<close>.\<close>

definition init_layer ::
  "('a::zero, 'g) numerics \<Rightarrow> nat \<Rightarrow> nat \<Rightarrow> nat \<Rightarrow>
   (string \<rightharpoonup> 'a ndarray) \<times> 'g \<Rightarrow> (string \<rightharpoonup> 'a ndarray) \<times> 'g" where
  "init_layer nm H dm i st =
     (case st of (ps, g) \<Rightarrow>
      case randn_scaled nm [H, dm * H] H g of (wx_e, g1) \<Rightarrow>
      case randn_scaled nm [H, dm * H] H g1 of (wh_e, g2) \<Rightarrow>
      case randn_scaled nm [H, dm * H] H g2 of (wx_d, g3) \<Rightarrow>
      case randn_scaled nm [H, dm * H] H g3 of (wh_d, g4) \<Rightarrow>
        (ps(pname ''Wx'' i ''enc'' \<mapsto> wx_e,
            pname ''Wh'' i ''enc'' \<mapsto> wh_e,
            pname ''b'' i ''enc'' \<mapsto> zeros [dm * H],
            pname ''Wx'' i ''dec'' \<mapsto> wx_d,
            pname ''Wh'' i ''dec'' \<mapsto> wh_d,
            pname ''b'' i ''dec'' \<mapsto> zeros [dm * H]), g4))"

text \<open>
  \<^verbatim>\<open>Seq2Seq.__init__\<close>. The two embedding matrices are drawn before the cell type is
  looked up, so the generator has advanced when the lookup raises. \<^verbatim>\<open>range(n_layers)\<close>
  is empty for \<open>n_layers \<le> 0\<close>.
\<close>

definition init ::
  "('a::zero, 'g) numerics \<Rightarrow> 'a hparams \<Rightarrow> 'g \<Rightarrow> (error + 'a seq2seq) \<times> 'g" where
  "init nm a g =
     (case randn_scaled nm [src_vocab_size a, src_embed_dim a] (src_vocab_size a) g of (w_ee, g1) \<Rightarrow>
      case randn_scaled nm [trg_vocab_size a, trg_embed_dim a] (trg_vocab_size a) g1 of (w_ed, g2) \<Rightarrow>
      case cell_dim_mul (cell_type a) of
        Inl e \<Rightarrow> (Inl e, g2)
      | Inr dm \<Rightarrow>
         (let H = hidden_dim a in
          case fold (init_layer nm H dm) [0 ..< nat (n_layers a)]
                 (Map.empty(''W_embed_enc'' \<mapsto> w_ee, ''W_embed_dec'' \<mapsto> w_ed), g2) of (ps, g3) \<Rightarrow>
          case randn_scaled nm [src_embed_dim a, dm * H] (src_embed_dim a) g3 of (wx0_e, g4) \<Rightarrow>
          case randn_scaled nm [trg_embed_dim a, dm * H] (trg_embed_dim a) g4 of (wx0_d, g5) \<Rightarrow>
          (let om = (if attention a then 2 else 1) in
           case randn_scaled nm [om * H, trg_vocab_size a] (om * H) g5 of (w_out, g6) \<Rightarrow>
           (let ps' = ps(''Wx_0_enc'' \<mapsto> wx0_e, ''Wx_0_dec'' \<mapsto> wx0_d,
                         ''W_out_dec'' \<mapsto> w_out,
                         ''b_out_dec'' \<mapsto> zeros [trg_vocab_size a])
            in (Inr (mk_seq2seq a (\<lambda>k. map_option (astype (dtype a)) (ps' k))), g6)))))"


section \<open>Activation arrays and the numpy operations of the orchestrator\<close>

text \<open>
  A two-dimensional array of shape \<open>(d0, d1)\<close> and a three-dimensional array of shape
  \<open>(d0, d1, d2)\<close>, as nested rows. The shape is kept beside the rows so that an
  array with an empty axis still has its shape, as in numpy. An array is well formed
  when the rows agree with the shape.
\<close>

datatype 'a arr2 = Arr2 (nrows: nat) (ncols: nat) (cells2: "'a list list")

datatype 'a arr3 = Arr3 (dim0: nat) (dim1: nat) (dim2: nat) (cells3: "'a list list list")

definition wf2 :: "'a arr2 \<Rightarrow> bool" where
  "wf2 a \<longleftrightarrow> length (cells2 a) = nrows a \<and> list_all (\<lambda>r. length r = ncols a) (cells2 a)"

definition wf3 :: "'a arr3 \<Rightarrow> bool" where
  "wf3 a \<longleftrightarrow> length (cells3 a) = dim0 a \<and>
     list_all (\<lambda>m. length m = dim1 a \<and> list_all (\<lambda>r. length r = dim2 a) m) (cells3 a)"

text \<open>\<^verbatim>\<open>np.zeros((n, h))\<close>, \<^verbatim>\<open>np.zeros((n, t, h))\<close>\<close>

definition zeros2 :: "nat \<Rightarrow> nat \<Rightarrow> 'a::zero arr2" where
  "zeros2 n h = Arr2 n h (replicate n (replicate h 0))"

definition zeros3 :: "nat \<Rightarrow> nat \<Rightarrow> nat \<Rightarrow> 'a::zero arr3" where
  "zeros3 n t h = Arr3 n t h (replicate n (replicate t (replicate h 0)))"

text \<open>
  \<^verbatim>\<open>np.ndarray((n, l, h))\<close> allocates without initialising: every entry holds whatever
  was in memory, here the value \<open>u\<close>. A negative dimension raises \<^verbatim>\<open>ValueError\<close>.
\<close>

definition ndarray3 :: "'a \<Rightarrow> nat \<Rightarrow> int \<Rightarrow> nat \<Rightarrow> error + 'a arr3" where
  "ndarray3 u n l h =
     (if l < 0 then Inl ValueError
      else Inr (Arr3 n (nat l) h (replicate n (replicate (nat l) (replicate h u)))))"

definition zeros3_int :: "nat \<Rightarrow> int \<Rightarrow> nat \<Rightarrow> error + 'a::zero arr3" where
  "zeros3_int n l h = (if l < 0 then Inl ValueError else Inr (zeros3 n (nat l) h))"

text \<open>
  Broadcasting a two-dimensional value to the shape \<open>(n, h)\<close>: every axis of the value
  has the target length or length one (then its single entry is repeated).
\<close>

definition broadcast2 :: "nat \<Rightarrow> nat \<Rightarrow> 'a arr2 \<Rightarrow> error + 'a list list" where
  "broadcast2 n h v =
     (if (nrows v = n \<or> nrows v = 1) \<and> (ncols v = h \<or> ncols v = 1)
      then Inr (map (\<lambda>r. if ncols v = h then r else replicate h (hd r))
                  (if nrows v = n then cells2 v else replicate n (hd (cells2 v))))
      else Inl ValueError)"

definition broadcast3 :: "nat \<Rightarrow> nat \<Rightarrow> nat \<Rightarrow> 'a arr3 \<Rightarrow> error + 'a list list list" where
  "broadcast3 n t h v =
     (if (dim0 v = n \<or> dim0 v = 1) \<and> (dim1 v = t \<or> dim1 v = 1) \<and> (dim2 v = h \<or> dim2 v = 1)
      then Inr (map (\<lambda>m. map (\<lambda>r. if dim2 v = h then r else replicate h (hd r))
                            (if dim1 v = t then m else replicate t (hd m)))
                  (if dim0 v = n then cells3 v else replicate n (hd (cells3 v))))
      else Inl ValueError)"

text \<open>\<^verbatim>\<open>a[:, -1, :]\<close>: the last index of an empty axis is out of range.\<close>

definition last_step :: "'a arr3 \<Rightarrow> error + 'a arr2" where
  "last_step a =
     (if dim1 a = 0 then Inl IndexError
      else Inr (Arr2 (dim0 a) (dim2 a) (map last (cells3 a))))"

text \<open>\<^verbatim>\<open>z[:, i, :]\<close> for \<open>i \<ge> 0\<close>\<close>

definition get_layer :: "'a arr3 \<Rightarrow> nat \<Rightarrow> error + 'a arr2" where
  "get_layer z i =
     (if dim1 z \<le> i then Inl IndexError
      else Inr (Arr2 (dim0 z) (dim2 z) (map (\<lambda>m. m ! i) (cells3 z))))"

text \<open>\<^verbatim>\<open>z[:, i, :] = v\<close>\<close>

definition set_layer :: "'a arr3 \<Rightarrow> nat \<Rightarrow> 'a arr2 \<Rightarrow> error + 'a arr3" where
  "set_layer z i v =
     (if dim1 z \<le> i then Inl IndexError
      else bindE (broadcast2 (dim0 z) (dim2 z) v) (\<lambda>rows.
             Inr (Arr3 (dim0 z) (dim1 z) (dim2 z) (map2 (\<lambda>m r. m[i := r]) (cells3 z) rows))))"

text \<open>\<^verbatim>\<open>z[:, i, :] += v\<close>\<close>

definition iadd_layer :: "'a::plus arr3 \<Rightarrow> nat \<Rightarrow> 'a arr2 \<Rightarrow> error + 'a arr3" where
  "iadd_layer z i v =
     (if dim1 z \<le> i then Inl IndexError
      else bindE (broadcast2 (dim0 z) (dim2 z) v) (\<lambda>rows.
             Inr (Arr3 (dim0 z) (dim1 z) (dim2 z)
                    (map2 (\<lambda>m r. m[i := map2 (+) (m ! i) r]) (cells3 z) rows))))"

text \<open>\<^verbatim>\<open>a[:, -1, :] += v\<close>\<close>

definition iadd_last_step :: "'a::plus arr3 \<Rightarrow> 'a arr2 \<Rightarrow> error + 'a arr3" where
  "iadd_last_step a v =
     (if dim1 a = 0 then Inl IndexError
      else bindE (broadcast2 (dim0 a) (dim2 a) v) (\<lambda>rows.
             Inr (Arr3 (dim0 a) (dim1 a) (dim2 a)
                    (map2 (\<lambda>m r. m[dim1 a - 1 := map2 (+) (last m) r]) (cells3 a) rows))))"

text \<open>\<^verbatim>\<open>a += b\<close> on three-dimensional arrays\<close>

definition iadd3 :: "'a::plus arr3 \<Rightarrow> 'a arr3 \<Rightarrow> error + 'a arr3" where
  "iadd3 a b =
     bindE (broadcast3 (dim0 a) (dim1 a) (dim2 a) b) (\<lambda>rows.
       Inr (Arr3 (dim0 a) (dim1 a) (dim2 a) (map2 (map2 (map2 (+))) (cells3 a) rows)))"

text \<open>\<^verbatim>\<open>a[:, :, :k]\<close> and \<^verbatim>\<open>a[:, :, k:]\<close>: slices never raise, they clip.\<close>

definition take_features :: "nat \<Rightarrow> 'a arr3 \<Rightarrow> 'a arr3" where
  "take_features k a = Arr3 (dim0 a) (dim1 a) (min k (dim2 a)) (map (map (take k)) (cells3 a))"

definition drop_features :: "nat \<Rightarrow> 'a arr3 \<Rightarrow> 'a arr3" where
  "drop_features k a = Arr3 (dim0 a) (dim1 a) (dim2 a - k) (map (map (drop k)) (cells3 a))"

text \<open>\<^verbatim>\<open>np.append(a, b, axis=-1)\<close>: all axes but the last must agree.\<close>

definition append_features :: "'a arr3 \<Rightarrow> 'a arr3 \<Rightarrow> error + 'a arr3" where
  "append_features a b =
     (if dim0 a = dim0 b \<and> dim1 a = dim1 b
      then Inr (Arr3 (dim0 a) (dim1 a) (dim2 a + dim2 b) (map2 (map2 (@)) (cells3 a) (cells3 b)))
      else Inl ValueError)"

text \<open>
  \<^verbatim>\<open>a.reshape(n, h)\<close>: the same array when the shape already is \<open>(n, h)\<close>, the entries
  in row-major order cut into \<open>n\<close> rows when the sizes agree, \<^verbatim>\<open>ValueError\<close> otherwise.
\<close>

fun chunks :: "nat \<Rightarrow> nat \<Rightarrow> 'a list \<Rightarrow> 'a list list" where
  "chunks 0 h xs = []"
| "chunks (Suc n) h xs = take h xs # chunks n h (drop h xs)"

definition reshape2 :: "nat \<Rightarrow> nat \<Rightarrow> 'a arr2 \<Rightarrow> error + 'a arr2" where
  "reshape2 n h a =
     (if nrows a = n \<and> ncols a = h then Inr a
      else if nrows a * ncols a = n * h then Inr (Arr2 n h (chunks n h (concat (cells2 a))))
      else Inl ValueError)"

text \<open>\<^verbatim>\<open>trg[:, :-1]\<close>, \<^verbatim>\<open>trg[:, 1:]\<close> and \<^verbatim>\<open>trg_out != null_idx\<close>\<close>

definition drop_last_col :: "'a arr2 \<Rightarrow> 'a arr2" where
  "drop_last_col a = Arr2 (nrows a) (ncols a - 1) (map butlast (cells2 a))"

definition drop_first_col :: "'a arr2 \<Rightarrow> 'a arr2" where
  "drop_first_col a = Arr2 (nrows a) (ncols a - 1) (map tl (cells2 a))"

definition not_equal_to :: "int arr2 \<Rightarrow> int \<Rightarrow> bool arr2" where
  "not_equal_to a x = Arr2 (nrows a) (ncols a) (map (map (\<lambda>y. y \<noteq> x)) (cells2 a))"

text \<open>\<^verbatim>\<open>d[key]\<close> and \<^verbatim>\<open>xs.pop()\<close>\<close>

definition lookup :: "(string \<rightharpoonup> 'v) \<Rightarrow> string \<Rightarrow> error + 'v" where
  "lookup d k = (case d k of None \<Rightarrow> Inl KeyError | Some v \<Rightarrow> Inr v)"

definition pop :: "'x list \<Rightarrow> error + ('x \<times> 'x list)" where
  "pop xs = (if xs = [] then Inl IndexError else Inr (last xs, butlast xs))"

text \<open>\<^verbatim>\<open>a + v\<close> for a two-dimensional \<open>a\<close>, with \<open>v\<close> broadcast to the shape of \<open>a\<close>\<close>

definition add2 :: "'a::plus arr2 \<Rightarrow> 'a arr2 \<Rightarrow> error + 'a arr2" where
  "add2 a v =
     bindE (broadcast2 (nrows a) (ncols a) v) (\<lambda>rows.
       Inr (Arr2 (nrows a) (ncols a) (map2 (map2 (+)) (cells2 a) rows)))"

text \<open>
  Reordering the batch axis: \<^verbatim>\<open>a[p]\<close> for a list \<open>p\<close> of row indices. \<open>p\<close> permutes a
  batch of \<open>n\<close> rows when it lists each of \<open>0, \<dots>, n - 1\<close> once.
\<close>

definition perm_rows :: "nat list \<Rightarrow> 'x list \<Rightarrow> 'x list" where
  "perm_rows p xs = map (\<lambda>i. xs ! i) p"

definition perm2 :: "nat list \<Rightarrow> 'a arr2 \<Rightarrow> 'a arr2" where
  "perm2 p a = Arr2 (nrows a) (ncols a) (perm_rows p (cells2 a))"

definition perm3 :: "nat list \<Rightarrow> 'a arr3 \<Rightarrow> 'a arr3" where
  "perm3 p a = Arr3 (dim0 a) (dim1 a) (dim2 a) (perm_rows p (cells3 a))"

definition is_perm :: "nat list \<Rightarrow> nat \<Rightarrow> bool" where
  "is_perm p n \<longleftrightarrow> mset p = mset [0 ..< n]"

section \<open>The layer primitives\<close>

text \<open>
  \<^verbatim>\<open>seq2seq.py\<close> imports its layer primitives from the module \<^verbatim>\<open>layers\<close>. They are
  taken as parameters: functions of their arguments that return their results or raise.
  \<open>'c\<close> is the type of the caches the forward primitives hand to the backward ones.
  \<open>uninit\<close> is the content of freshly allocated, uninitialised memory.
\<close>

record ('a, 'c) layers =
  word_embedding_forward :: "int arr2 \<Rightarrow> 'a ndarray \<Rightarrow> error + ('a arr3 \<times> 'c)"
  word_embedding_backward :: "'a arr3 \<Rightarrow> 'c \<Rightarrow> error + 'a ndarray"
  recurrent_forward ::
    "'a arr3 \<Rightarrow> 'a arr2 \<Rightarrow> 'a ndarray \<Rightarrow> 'a ndarray \<Rightarrow> 'a ndarray \<Rightarrow> error + ('a arr3 \<times> 'c)"
  recurrent_backward ::
    "'a arr3 \<Rightarrow> 'c \<Rightarrow> error + ('a arr3 \<times> 'a arr2 \<times> 'a ndarray \<times> 'a ndarray \<times> 'a ndarray)"
  lstm_forward ::
    "'a arr3 \<Rightarrow> 'a arr2 \<Rightarrow> 'a ndarray \<Rightarrow> 'a ndarray \<Rightarrow> 'a ndarray \<Rightarrow> error + ('a arr3 \<times> 'c)"
  lstm_backward ::
    "'a arr3 \<Rightarrow> 'c \<Rightarrow> error + ('a arr3 \<times> 'a arr2 \<times> 'a ndarray \<times> 'a ndarray \<times> 'a ndarray)"
  temporal_attention_forward :: "'a arr3 \<Rightarrow> 'a arr3 \<Rightarrow> error + ('a arr3 \<times> 'c)"
  temporal_attention_backward :: "'a arr3 \<Rightarrow> 'c \<Rightarrow> error + ('a arr3 \<times> 'a arr3)"
  temporal_affine_forward :: "'a arr3 \<Rightarrow> 'a ndarray \<Rightarrow> 'a ndarray \<Rightarrow> error + ('a arr3 \<times> 'c)"
  temporal_affine_backward :: "'a arr3 \<Rightarrow> 'c \<Rightarrow> error + ('a arr3 \<times> 'a ndarray \<times> 'a ndarray)"
  temporal_cross_entropy_loss :: "'a arr3 \<Rightarrow> int arr2 \<Rightarrow> bool arr2 \<Rightarrow> error + ('a \<times> 'a arr3)"
  uninit :: 'a

section \<open>The forward pass\<close>

text \<open>The tuple of caches \<^verbatim>\<open>_forward\<close> returns and \<^verbatim>\<open>_backward\<close> unpacks.\<close>

record 'c caches =
  enc_embed_cache :: 'c
  enc_caches :: "'c list"
  dec_embed_cache :: 'c
  dec_caches :: "'c list"
  att_cache :: 'c
  dec_out_cache :: 'c

text \<open>
  The \<^verbatim>\<open>if\<close>/\<^verbatim>\<open>elif\<close> on \<^verbatim>\<open>self.cell_type\<close> in the body of both layer loops of
  \<^verbatim>\<open>_forward\<close>; \<open>side\<close> is \<open>''enc''\<close> or \<open>''dec''\<close>. The arguments are evaluated from
  left to right, so the three parameters are looked up in the order \<^verbatim>\<open>Wx\<close>, \<^verbatim>\<open>Wh\<close>,
  \<^verbatim>\<open>b\<close>. With any other cell type no branch binds \<^verbatim>\<open>cache\<close> and the statement after
  the \<^verbatim>\<open>if\<close> that reads it raises.
\<close>

definition cell_forward ::
  "('a, 'c) layers \<Rightarrow> 'a seq2seq \<Rightarrow> string \<Rightarrow> nat \<Rightarrow> 'a arr3 \<Rightarrow> 'a arr2 \<Rightarrow> error + ('a arr3 \<times> 'c)" where
  "cell_forward ly m side i x h0 =
     (if cell_type m = ''rnn'' then
        bindE (lookup (params m) (pname ''Wx'' i side)) (\<lambda>wx.
        bindE (lookup (params m) (pname ''Wh'' i side)) (\<lambda>wh.
        bindE (lookup (params m) (pname ''b'' i side)) (\<lambda>b.
          recurrent_forward ly x h0 wx wh b)))
      else if cell_type m = ''lstm'' then
        bindE (lookup (params m) (pname ''Wx'' i side)) (\<lambda>wx.
        bindE (lookup (params m) (pname ''Wh'' i side)) (\<lambda>wh.
        bindE (lookup (params m) (pname ''b'' i side)) (\<lambda>b.
          lstm_forward ly x h0 wx wh b)))
      else Inl UnboundLocalError)"

text \<open>
  The encoder loop of \<^verbatim>\<open>_forward\<close> over the remaining layer indices; the loop state is
  \<^verbatim>\<open>(h_enc, enc_caches, z)\<close>.
\<close>

fun enc_loop ::
  "('a, 'c) layers \<Rightarrow> 'a seq2seq \<Rightarrow> 'a arr2 \<Rightarrow> nat list \<Rightarrow>
   'a arr3 \<times> 'c list \<times> 'a arr3 \<Rightarrow> error + ('a arr3 \<times> 'c list \<times> 'a arr3)" where
  "enc_loop ly m h0 [] st = Inr st"
| "enc_loop ly m h0 (i # is) (h_enc, caches, z) =
     bindE (cell_forward ly m ''enc'' i h_enc h0) (\<lambda>(h_enc', cache).
     bindE (last_step h_enc') (\<lambda>v.
     bindE (set_layer z i v) (\<lambda>z'.
       enc_loop ly m h0 is (h_enc', caches @ [cache], z'))))"

text \<open>
  The decoder loop of \<^verbatim>\<open>_forward\<close>; the loop state is \<^verbatim>\<open>(h_dec, dec_caches)\<close>, and
  \<open>n\<close>, \<open>h\<close> are \<^verbatim>\<open>N\<close> and \<^verbatim>\<open>H\<close>.
\<close>

fun dec_loop ::
  "('a, 'c) layers \<Rightarrow> 'a seq2seq \<Rightarrow> nat \<Rightarrow> nat \<Rightarrow> 'a arr3 \<Rightarrow> nat list \<Rightarrow>
   'a arr3 \<times> 'c list \<Rightarrow> error + ('a arr3 \<times> 'c list)" where
  "dec_loop ly m n h z [] st = Inr st"
| "dec_loop ly m n h z (i # is) (h_dec, caches) =
     bindE (get_layer z i) (\<lambda>zi.
     bindE (reshape2 n h zi) (\<lambda>h0.
     bindE (cell_forward ly m ''dec'' i h_dec h0) (\<lambda>(h_dec', cache).
       dec_loop ly m n h z is (h_dec', caches @ [cache]))))"

text \<open>
  \<^verbatim>\<open>Seq2Seq._forward\<close>. A method receives the object \<^verbatim>\<open>self\<close> and may assign to its
  attributes; it is modelled as returning, beside its result, the object as it is after
  the call.
\<close>

definition forward ::
  "('a::zero, 'c) layers \<Rightarrow> 'a seq2seq \<Rightarrow> int arr2 \<Rightarrow> int arr2 \<Rightarrow>
   (error + ('a arr3 \<times> 'c caches)) \<times> 'a seq2seq" where
  "forward ly m src trg =
     (let N = nrows src; H = hidden_dim m in
      (      bindE (lookup (params m) ''W_embed_enc'') (\<lambda>w_ee.
      bindE (word_embedding_forward ly src w_ee) (\<lambda>(src_embeds, enc_embed_c).
      bindE (ndarray3 (uninit ly) N (n_layers m) H) (\<lambda>z.
      bindE (enc_loop ly m (zeros2 N H) [0 ..< nat (n_layers m)] (src_embeds, [], z))
        (\<lambda>(h_enc, enc_cs, z).
      bindE (lookup (params m) ''W_embed_dec'') (\<lambda>w_ed.
      bindE (word_embedding_forward ly trg w_ed) (\<lambda>(trg_embeds, dec_embed_c).
      bindE (dec_loop ly m N H z [0 ..< nat (n_layers m)] (trg_embeds, [])) (\<lambda>(h_dec, dec_cs).
      bindE (temporal_attention_forward ly h_dec h_enc) (\<lambda>(att_out, att_c).
      bindE (if attention m then append_features h_dec att_out else Inr h_dec) (\<lambda>dec_out.
      bindE (lookup (params m) ''W_out_dec'') (\<lambda>w_out.
      bindE (lookup (params m) ''b_out_dec'') (\<lambda>b_out.
      bindE (temporal_affine_forward ly dec_out w_out b_out) (\<lambda>(scores, dec_out_c).
        Inr (scores, \<lparr>enc_embed_cache = enc_embed_c, enc_caches = enc_cs,
                       dec_embed_cache = dec_embed_c, dec_caches = dec_cs,
                       att_cache = att_c, dec_out_cache = dec_out_c\<rparr>))))))))))))),
       m))"

section \<open>The backward pass\<close>

text \<open>
  The \<^verbatim>\<open>if\<close>/\<^verbatim>\<open>elif\<close> on \<^verbatim>\<open>self.cell_type\<close> in both layer loops of \<^verbatim>\<open>_backward\<close>:
  the cache is popped from the end of the list, then the primitive runs. With any other
  cell type no branch binds \<^verbatim>\<open>dWx\<close> and the assignment that reads it raises.
\<close>

definition cell_backward ::
  "('a, 'c) layers \<Rightarrow> 'a seq2seq \<Rightarrow> 'a arr3 \<Rightarrow> 'c list \<Rightarrow>
   error + (('a arr3 \<times> 'a arr2 \<times> 'a ndarray \<times> 'a ndarray \<times> 'a ndarray) \<times> 'c list)" where
  "cell_backward ly m dh caches =
     (if cell_type m = ''rnn'' then
        bindE (pop caches) (\<lambda>(c, rest).
        bindE (recurrent_backward ly dh c) (\<lambda>r. Inr (r, rest)))
      else if cell_type m = ''lstm'' then
        bindE (pop caches) (\<lambda>(c, rest).
        bindE (lstm_backward ly dh c) (\<lambda>r. Inr (r, rest)))
      else Inl UnboundLocalError)"

text \<open>
  The decoder loop of \<^verbatim>\<open>_backward\<close>; the loop state is
  \<^verbatim>\<open>(dh_dec, dec_caches, grads, dz)\<close>.
\<close>

fun dec_back_loop ::
  "('a::plus, 'c) layers \<Rightarrow> 'a seq2seq \<Rightarrow> nat list \<Rightarrow>
   'a arr3 \<times> 'c list \<times> (string \<rightharpoonup> 'a ndarray) \<times> 'a arr3 \<Rightarrow>
   error + ('a arr3 \<times> 'c list \<times> (string \<rightharpoonup> 'a ndarray) \<times> 'a arr3)" where
  "dec_back_loop ly m [] st = Inr st"
| "dec_back_loop ly m (i # is) (dh_dec, caches, grads, dz) =
     bindE (cell_backward ly m dh_dec caches) (\<lambda>((dh_dec', dh0, dWx, dWh, db), caches').
     bindE (iadd_layer dz i dh0) (\<lambda>dz'.
       dec_back_loop ly m is
         (dh_dec', caches',
          grads(pname ''Wx'' i ''dec'' \<mapsto> dWx, pname ''Wh'' i ''dec'' \<mapsto> dWh,
                pname ''b'' i ''dec'' \<mapsto> db),
          dz')))"

text \<open>
  The encoder loop of \<^verbatim>\<open>_backward\<close>; the loop state is \<^verbatim>\<open>(dh_enc, enc_caches, grads)\<close>.
\<close>

fun enc_back_loop ::
  "('a::plus, 'c) layers \<Rightarrow> 'a seq2seq \<Rightarrow> 'a arr3 \<Rightarrow> nat list \<Rightarrow>
   'a arr3 \<times> 'c list \<times> (string \<rightharpoonup> 'a ndarray) \<Rightarrow>
   error + ('a arr3 \<times> 'c list \<times> (string \<rightharpoonup> 'a ndarray))" where
  "enc_back_loop ly m dz [] st = Inr st"
| "enc_back_loop ly m dz (i # is) (dh_enc, caches, grads) =
     bindE (get_layer dz i) (\<lambda>dzi.
     bindE (iadd_last_step dh_enc dzi) (\<lambda>dh_enc1.
     bindE (cell_backward ly m dh_enc1 caches) (\<lambda>((dh_enc', dh0, dWx, dWh, db), caches').
       enc_back_loop ly m dz is
         (dh_enc', caches',
          grads(pname ''Wx'' i ''enc'' \<mapsto> dWx, pname ''Wh'' i ''enc'' \<mapsto> dWh,
                pname ''b'' i ''enc'' \<mapsto> db)))))"

text \<open>
  \<^verbatim>\<open>Seq2Seq._backward\<close>. \<^verbatim>\<open>range(n_layers - 1, -1, -1)\<close> is \<open>rev [0 ..< n_layers]\<close>.
\<close>

definition backward ::
  "('a::{zero,plus}, 'c) layers \<Rightarrow> 'a seq2seq \<Rightarrow> 'a arr3 \<Rightarrow> 'c caches \<Rightarrow>
   (error + (string \<rightharpoonup> 'a ndarray)) \<times> 'a seq2seq" where
  "backward ly m dscores cs =
     (let N = dim0 dscores; T_enc = src_seq_len m; H = hidden_dim m in
      (bindE (temporal_affine_backward ly dscores (dec_out_cache cs)) (\<lambda>(d_dec_out, dW_out, db_out).
      (let grads = Map.empty(''W_out_dec'' \<mapsto> dW_out, ''b_out_dec'' \<mapsto> db_out) in
      bindE (if attention m then
               bindE (temporal_attention_backward ly (drop_features H d_dec_out) (att_cache cs))
                 (\<lambda>(dh_dec_temp, dh_enc).
               bindE (iadd3 (take_features H d_dec_out) dh_dec_temp) (\<lambda>dh_dec.
                 Inr (dh_dec, dh_enc)))
             else Inr (d_dec_out, zeros3 N T_enc H)) (\<lambda>(dh_dec, dh_enc).
      bindE (zeros3_int N (n_layers m) H) (\<lambda>dz.
      bindE (dec_back_loop ly m (rev [0 ..< nat (n_layers m)]) (dh_dec, dec_caches cs, grads, dz))
        (\<lambda>(dh_dec, dec_cs, grads, dz).
      bindE (word_embedding_backward ly dh_dec (dec_embed_cache cs)) (\<lambda>dW_embed_dec.
      bindE (enc_back_loop ly m dz (rev [0 ..< nat (n_layers m)])
               (dh_enc, enc_caches cs, grads(''W_embed_dec'' \<mapsto> dW_embed_dec)))
        (\<lambda>(dh_enc, enc_cs, grads).
      bindE (word_embedding_backward ly dh_enc (enc_embed_cache cs)) (\<lambda>dW_embed_enc.
        Inr (grads(''W_embed_enc'' \<mapsto> dW_embed_enc)))))))))),
       m))"

section \<open>The loss\<close>

text \<open>\<^verbatim>\<open>Seq2Seq.loss\<close>\<close>

definition loss ::
  "('a::{zero,plus}, 'c) layers \<Rightarrow> 'a seq2seq \<Rightarrow> int arr2 \<Rightarrow> int arr2 \<Rightarrow>
   (error + ('a \<times> (string \<rightharpoonup> 'a ndarray))) \<times> 'a seq2seq" where
  "loss ly m src trg =
     (let trg_in = drop_last_col trg; trg_out = drop_first_col trg in
      case forward ly m src trg_in of
        (Inl e, m1) \<Rightarrow> (Inl e, m1)
      | (Inr (scores, cs), m1) \<Rightarrow>
          (let msk = not_equal_to trg_out (null_idx m1) in
           case temporal_cross_entropy_loss ly scores trg_out msk of
             Inl e \<Rightarrow> (Inl e, m1)
           | Inr (l, dscores) \<Rightarrow>
               (case backward ly m1 dscores cs of
                  (Inl e, m2) \<Rightarrow> (Inl e, m2)
                | (Inr grads, m2) \<Rightarrow> (Inr (l, grads), m2))))"

section \<open>The variant without the attention mechanism\<close>

text \<open>
  A second model, written from the words of the specification and not from the source: the
  forward pass, backward pass and loss of a network that never computes attention. The
  forward pass makes no call of \<^verbatim>\<open>temporal_attention_forward\<close>, keeps no attention cache
  and projects the decoder states alone; the backward pass starts the encoder state
  gradient from zeros. It is compared with the source's functions below.
\<close>

record 'c caches_noatt =
  na_enc_embed_cache :: 'c
  na_enc_caches :: "'c list"
  na_dec_embed_cache :: 'c
  na_dec_caches :: "'c list"
  na_dec_out_cache :: 'c

definition drop_att_cache :: "'c caches \<Rightarrow> 'c caches_noatt" where
  "drop_att_cache cs = \<lparr>na_enc_embed_cache = enc_embed_cache cs, na_enc_caches = enc_caches cs,
     na_dec_embed_cache = dec_embed_cache cs, na_dec_caches = dec_caches cs,
     na_dec_out_cache = dec_out_cache cs\<rparr>"

definition forward_noatt ::
  "('a::zero, 'c) layers \<Rightarrow> 'a seq2seq \<Rightarrow> int arr2 \<Rightarrow> int arr2 \<Rightarrow>
   (error + ('a arr3 \<times> 'c caches_noatt)) \<times> 'a seq2seq" where
  "forward_noatt ly m src trg =
     (let N = nrows src; H = hidden_dim m in
      (bindE (lookup (params m) ''W_embed_enc'') (\<lambda>w_ee.
       bindE (word_embedding_forward ly src w_ee) (\<lambda>(src_embeds, enc_embed_c).
       bindE (ndarray3 (uninit ly) N (n_layers m) H) (\<lambda>z.
       bindE (enc_loop ly m (zeros2 N H) [0 ..< nat (n_layers m)] (src_embeds, [], z))
         (\<lambda>(h_enc, enc_cs, z).
       bindE (lookup (params m) ''W_embed_dec'') (\<lambda>w_ed.
       bindE (word_embedding_forward ly trg w_ed) (\<lambda>(trg_embeds, dec_embed_c).
       bindE (dec_loop ly m N H z [0 ..< nat (n_layers m)] (trg_embeds, [])) (\<lambda>(h_dec, dec_cs).
       bindE (lookup (params m) ''W_out_dec'') (\<lambda>w_out.
       bindE (lookup (params m) ''b_out_dec'') (\<lambda>b_out.
       bindE (temporal_affine_forward ly h_dec w_out b_out) (\<lambda>(scores, dec_out_c).
         Inr (scores, \<lparr>na_enc_embed_cache = enc_embed_c, na_enc_caches = enc_cs,
                        na_dec_embed_cache = dec_embed_c, na_dec_caches = dec_cs,
                        na_dec_out_cache = dec_out_c\<rparr>))))))))))),
       m))"

definition backward_noatt ::
  "('a::{zero,plus}, 'c) layers \<Rightarrow> 'a seq2seq \<Rightarrow> 'a arr3 \<Rightarrow> 'c caches_noatt \<Rightarrow>
   (error + (string \<rightharpoonup> 'a ndarray)) \<times> 'a seq2seq" where
  "backward_noatt ly m dscores cs =
     (let N = dim0 dscores; T_enc = src_seq_len m; H = hidden_dim m in
      (bindE (temporal_affine_backward ly dscores (na_dec_out_cache cs)) (\<lambda>(dh_dec, dW_out, db_out).
       (let grads = Map.empty(''W_out_dec'' \<mapsto> dW_out, ''b_out_dec'' \<mapsto> db_out) in
       bindE (zeros3_int N (n_layers m) H) (\<lambda>dz.
       bindE (dec_back_loop ly m (rev [0 ..< nat (n_layers m)]) (dh_dec, na_dec_caches cs, grads, dz))
         (\<lambda>(dh_dec, dec_cs, grads, dz).
       bindE (word_embedding_backward ly dh_dec (na_dec_embed_cache cs)) (\<lambda>dW_embed_dec.
       bindE (enc_back_loop ly m dz (rev [0 ..< nat (n_layers m)])
                (zeros3 N T_enc H, na_enc_caches cs, grads(''W_embed_dec'' \<mapsto> dW_embed_dec)))
         (\<lambda>(dh_enc, enc_cs, grads).
       bindE (word_embedding_backward ly dh_enc (na_enc_embed_cache cs)) (\<lambda>dW_embed_enc.
         Inr (grads(''W_embed_enc'' \<mapsto> dW_embed_enc))))))))),
       m))"

definition loss_noatt ::
  "('a::{zero,plus}, 'c) layers \<Rightarrow> 'a seq2seq \<Rightarrow> int arr2 \<Rightarrow> int arr2 \<Rightarrow>
   (error + ('a \<times> (string \<rightharpoonup> 'a ndarray))) \<times> 'a seq2seq" where
  "loss_noatt ly m src trg =
     (let trg_in = drop_last_col trg; trg_out = drop_first_col trg in
      case forward_noatt ly m src trg_in of
        (Inl e, m1) \<Rightarrow> (Inl e, m1)
      | (Inr (scores, cs), m1) \<Rightarrow>
          (let msk = not_equal_to trg_out (null_idx m1) in
           case temporal_cross_entropy_loss ly scores trg_out msk of
             Inl e \<Rightarrow> (Inl e, m1)
           | Inr (l, dscores) \<Rightarrow>
               (case backward_noatt ly m1 dscores cs of
                  (Inl e, m2) \<Rightarrow> (Inl e, m2)
                | (Inr grads, m2) \<Rightarrow> (Inr (l, grads), m2))))"

section \<open>The three methods on an explicit store\<close>

text \<open>
  A numpy array is a mutable object: a variable holds a reference to it, and an in-place
  operation (\<^verbatim>\<open>a[...] = v\<close>, \<^verbatim>\<open>a += v\<close>) changes the array for every holder of a
  reference. To follow which arrays the three methods write to, they are translated a
  second time with the arrays of numbers kept in a store, a list of cells addressed by
  position. \<^verbatim>\<open>self.params\<close> maps each name to the address of its array, and this
  dictionary is part of the state as well. The other attributes of \<^verbatim>\<open>self\<close> are only
  read; arrays of integers and of booleans (\<^verbatim>\<open>src\<close>, \<^verbatim>\<open>trg\<close>, its slices, the mask)
  and the caches stay values.
\<close>

datatype 'a cell = Cell2 "'a arr2" | Cell3 "'a arr3" | CellN "'a ndarray"

record 'a mem =
  cells :: "'a cell list"
  pdict :: "string \<rightharpoonup> nat"

text \<open>
  A statement or expression of the program: from the state before to a result or a raised
  error, and the state after.
\<close>

type_synonym ('a, 'r) proc = "'a mem \<Rightarrow> (error + 'r) \<times> 'a mem"

definition returnM :: "'r \<Rightarrow> ('a, 'r) proc" where
  "returnM x = (\<lambda>s. (Inr x, s))"

definition liftM :: "error + 'r \<Rightarrow> ('a, 'r) proc" where
  "liftM e = (\<lambda>s. (e, s))"

definition bindM :: "('a, 'r) proc \<Rightarrow> ('r \<Rightarrow> ('a, 'q) proc) \<Rightarrow> ('a, 'q) proc" where
  "bindM f g = (\<lambda>s. case f s of (Inl e, s') \<Rightarrow> (Inl e, s') | (Inr x, s') \<Rightarrow> g x s')"

text \<open>A new array is put at the next free address.\<close>

definition newM :: "'a cell \<Rightarrow> ('a, nat) proc" where
  "newM c = (\<lambda>s. (Inr (length (cells s)), s\<lparr>cells := cells s @ [c]\<rparr>))"

text \<open>
  Reading the array behind a reference. In a run of the program a reference points to an
  array of the number of axes the reader expects; a reference to no cell, or to a cell of
  another kind, makes the reader raise.
\<close>

definition get2M :: "nat \<Rightarrow> ('a, 'a arr2) proc" where
  "get2M r = (\<lambda>s. (if r < length (cells s)
                    then (case cells s ! r of Cell2 a \<Rightarrow> Inr a | _ \<Rightarrow> Inl LayerError)
                    else Inl LayerError, s))"

definition get3M :: "nat \<Rightarrow> ('a, 'a arr3) proc" where
  "get3M r = (\<lambda>s. (if r < length (cells s)
                    then (case cells s ! r of Cell3 a \<Rightarrow> Inr a | _ \<Rightarrow> Inl LayerError)
                    else Inl LayerError, s))"

definition getNM :: "nat \<Rightarrow> ('a, 'a ndarray) proc" where
  "getNM r = (\<lambda>s. (if r < length (cells s)
                    then (case cells s ! r of CellN a \<Rightarrow> Inr a | _ \<Rightarrow> Inl LayerError)
                    else Inl LayerError, s))"

text \<open>Writing to the array behind a reference, and \<^verbatim>\<open>self.params[k]\<close>.\<close>

definition putM :: "nat \<Rightarrow> 'a cell \<Rightarrow> ('a, unit) proc" where
  "putM r c = (\<lambda>s. (Inr (), s\<lparr>cells := (cells s)[r := c]\<rparr>))"

definition paramM :: "string \<Rightarrow> ('a, nat) proc" where
  "paramM k = (\<lambda>s. (lookup (pdict s) k, s))"

text \<open>
  A reference to a three-dimensional array, or to its slice \<^verbatim>\<open>a[:, :, :k]\<close>: the slice
  is a view, it shares the memory of \<open>a\<close>. Reading through the view gives the slice;
  \<^verbatim>\<open>v += b\<close> on the view changes the first \<open>k\<close> features of \<open>a\<close> and leaves the others.
\<close>

datatype ref3 = Whole nat | Prefix nat nat

fun get3V :: "ref3 \<Rightarrow> ('a, 'a arr3) proc" where
  "get3V (Whole r) = get3M r"
| "get3V (Prefix r k) = bindM (get3M r) (\<lambda>a. returnM (take_features k a))"

definition iadd3_prefix :: "nat \<Rightarrow> nat \<Rightarrow> nat \<Rightarrow> ('a::plus, unit) proc" where
  "iadd3_prefix r k r_b =
     bindM (get3M r) (\<lambda>a.
     bindM (get3M r_b) (\<lambda>b.
     bindM (liftM (iadd3 (take_features k a) b)) (\<lambda>v.
     bindM (liftM (append_features v (drop_features k a))) (\<lambda>a'.
       putM r (Cell3 a')))))"

subsection \<open>Calls of the layer primitives\<close>

text \<open>
  Modelled from the spec: the memory behaviour of the layer primitives of the module
  \<^verbatim>\<open>layers\<close>, which is not among the sources. A primitive reads the arrays it is given
  and writes to none of them (``Parameters are read-only during \<^verbatim>\<open>loss\<close>'s
  forward/backward''), and every array it returns is a new one (``Gradients are produced
  fresh each call'', caches ``are created fresh per forward call''). So a call computes
  the results from the values of the arguments and puts each returned array at a new
  address; the six functions below do this for the six shapes of result.
\<close>

definition call_forward :: "error + ('a arr3 \<times> 'c) \<Rightarrow> ('a, nat \<times> 'c) proc" where
  "call_forward res =
     bindM (liftM res) (\<lambda>(y, cache).
     bindM (newM (Cell3 y)) (\<lambda>r_y.
       returnM (r_y, cache)))"

definition call_cell_backward ::
  "error + ('a arr3 \<times> 'a arr2 \<times> 'a ndarray \<times> 'a ndarray \<times> 'a ndarray) \<Rightarrow>
   ('a, nat \<times> nat \<times> nat \<times> nat \<times> nat) proc" where
  "call_cell_backward res =
     bindM (liftM res) (\<lambda>(dx, dh0, dWx, dWh, db).
     bindM (newM (Cell3 dx)) (\<lambda>r_dx.
     bindM (newM (Cell2 dh0)) (\<lambda>r_dh0.
     bindM (newM (CellN dWx)) (\<lambda>r_dWx.
     bindM (newM (CellN dWh)) (\<lambda>r_dWh.
     bindM (newM (CellN db)) (\<lambda>r_db.
       returnM (r_dx, r_dh0, r_dWx, r_dWh, r_db)))))))"

definition call_attention_backward :: "error + ('a arr3 \<times> 'a arr3) \<Rightarrow> ('a, nat \<times> nat) proc" where
  "call_attention_backward res =
     bindM (liftM res) (\<lambda>(dh_dec, dh_enc).
     bindM (newM (Cell3 dh_dec)) (\<lambda>r_dh_dec.
     bindM (newM (Cell3 dh_enc)) (\<lambda>r_dh_enc.
       returnM (r_dh_dec, r_dh_enc))))"

definition call_affine_backward ::
  "error + ('a arr3 \<times> 'a ndarray \<times> 'a ndarray) \<Rightarrow> ('a, nat \<times> nat \<times> nat) proc" where
  "call_affine_backward res =
     bindM (liftM res) (\<lambda>(dx, dW, db).
     bindM (newM (Cell3 dx)) (\<lambda>r_dx.
     bindM (newM (CellN dW)) (\<lambda>r_dW.
     bindM (newM (CellN db)) (\<lambda>r_db.
       returnM (r_dx, r_dW, r_db)))))"

definition call_embedding_backward :: "error + 'a ndarray \<Rightarrow> ('a, nat) proc" where
  "call_embedding_backward res = bindM (liftM res) (\<lambda>dW. newM (CellN dW))"

definition call_loss :: "error + ('a \<times> 'a arr3) \<Rightarrow> ('a, 'a \<times> nat) proc" where
  "call_loss res =
     bindM (liftM res) (\<lambda>(l, dscores).
     bindM (newM (Cell3 dscores)) (\<lambda>r_dscores.
       returnM (l, r_dscores)))"

subsection \<open>The forward pass\<close>

text \<open>
  The \<^verbatim>\<open>if\<close>/\<^verbatim>\<open>elif\<close> on \<^verbatim>\<open>self.cell_type\<close> in both layer loops of \<^verbatim>\<open>_forward\<close>.
  \<open>r_x\<close> refers to the input sequence; \<open>h0\<close> is the initial state as the primitive reads it.
\<close>

definition cell_forward_m ::
  "('a, 'c) layers \<Rightarrow> ('b, 'z) hparams_scheme \<Rightarrow> string \<Rightarrow> nat \<Rightarrow> nat \<Rightarrow> 'a arr2 \<Rightarrow> ('a, nat \<times> 'c) proc" where
  "cell_forward_m ly a side i r_x h0 =
     (if cell_type a = ''rnn'' then
        bindM (paramM (pname ''Wx'' i side)) (\<lambda>r_wx.
        bindM (paramM (pname ''Wh'' i side)) (\<lambda>r_wh.
        bindM (paramM (pname ''b'' i side)) (\<lambda>r_b.
        bindM (get3M r_x) (\<lambda>x.
        bindM (getNM r_wx) (\<lambda>wx.
        bindM (getNM r_wh) (\<lambda>wh.
        bindM (getNM r_b) (\<lambda>b.
          call_forward (recurrent_forward ly x h0 wx wh b))))))))
      else if cell_type a = ''lstm'' then
        bindM (paramM (pname ''Wx'' i side)) (\<lambda>r_wx.
        bindM (paramM (pname ''Wh'' i side)) (\<lambda>r_wh.
        bindM (paramM (pname ''b'' i side)) (\<lambda>r_b.
        bindM (get3M r_x) (\<lambda>x.
        bindM (getNM r_wx) (\<lambda>wx.
        bindM (getNM r_wh) (\<lambda>wh.
        bindM (getNM r_b) (\<lambda>b.
          call_forward (lstm_forward ly x h0 wx wh b))))))))
      else liftM (Inl UnboundLocalError))"

text \<open>
  The encoder loop; \<open>r_h0\<close> and \<open>r_z\<close> refer to \<^verbatim>\<open>h0\<close> and \<^verbatim>\<open>z\<close>, the loop state is
  \<^verbatim>\<open>(h_enc, enc_caches)\<close>. \<^verbatim>\<open>z[:, i, :] = h_enc[:, -1, :]\<close> writes to \<^verbatim>\<open>z\<close>.
\<close>

fun enc_loop_m ::
  "('a, 'c) layers \<Rightarrow> ('b, 'z) hparams_scheme \<Rightarrow> nat \<Rightarrow> nat \<Rightarrow> nat list \<Rightarrow> nat \<times> 'c list \<Rightarrow>
   ('a, nat \<times> 'c list) proc" where
  "enc_loop_m ly a r_h0 r_z [] st = returnM st"
| "enc_loop_m ly a r_h0 r_z (i # is) (r_h_enc, caches) =
     bindM (get2M r_h0) (\<lambda>h0.
     bindM (cell_forward_m ly a ''enc'' i r_h_enc h0) (\<lambda>(r_h_enc', cache).
     bindM (get3M r_h_enc') (\<lambda>h_enc.
     bindM (liftM (last_step h_enc)) (\<lambda>v.
     bindM (get3M r_z) (\<lambda>z.
     bindM (liftM (set_layer z i v)) (\<lambda>z'.
     bindM (putM r_z (Cell3 z')) (\<lambda>_.
       enc_loop_m ly a r_h0 r_z is (r_h_enc', caches @ [cache]))))))))"

text \<open>
  The decoder loop; \<^verbatim>\<open>h0 = z[:, i, :].reshape(N, H)\<close> is a view of \<^verbatim>\<open>z\<close>, which the
  primitive reads.
\<close>

fun dec_loop_m ::
  "('a, 'c) layers \<Rightarrow> ('b, 'z) hparams_scheme \<Rightarrow> nat \<Rightarrow> nat \<Rightarrow> nat \<Rightarrow> nat list \<Rightarrow> nat \<times> 'c list \<Rightarrow>
   ('a, nat \<times> 'c list) proc" where
  "dec_loop_m ly a n h r_z [] st = returnM st"
| "dec_loop_m ly a n h r_z (i # is) (r_h_dec, caches) =
     bindM (get3M r_z) (\<lambda>z.
     bindM (liftM (get_layer z i)) (\<lambda>zi.
     bindM (liftM (reshape2 n h zi)) (\<lambda>h0.
     bindM (cell_forward_m ly a ''dec'' i r_h_dec h0) (\<lambda>(r_h_dec', cache).
       dec_loop_m ly a n h r_z is (r_h_dec', caches @ [cache])))))"

text \<open>\<^verbatim>\<open>Seq2Seq._forward\<close>; the result is a reference to the scores, and the caches.\<close>

definition forward_m ::
  "('a::zero, 'c) layers \<Rightarrow> ('b, 'z) hparams_scheme \<Rightarrow> int arr2 \<Rightarrow> int arr2 \<Rightarrow> ('a, nat \<times> 'c caches) proc" where
  "forward_m ly a src trg =
     (let N = nrows src; H = hidden_dim a in
      bindM (paramM ''W_embed_enc'') (\<lambda>r_w_ee.
      bindM (getNM r_w_ee) (\<lambda>w_ee.
      bindM (call_forward (word_embedding_forward ly src w_ee)) (\<lambda>(r_src_embeds, enc_embed_c).
      bindM (liftM (ndarray3 (uninit ly) N (n_layers a) H)) (\<lambda>z.
      bindM (newM (Cell3 z)) (\<lambda>r_z.
      bindM (newM (Cell2 (zeros2 N H))) (\<lambda>r_h0.
      bindM (enc_loop_m ly a r_h0 r_z [0 ..< nat (n_layers a)] (r_src_embeds, []))
        (\<lambda>(r_h_enc, enc_cs).
      bindM (paramM ''W_embed_dec'') (\<lambda>r_w_ed.
      bindM (getNM r_w_ed) (\<lambda>w_ed.
      bindM (call_forward (word_embedding_forward ly trg w_ed)) (\<lambda>(r_trg_embeds, dec_embed_c).
      bindM (dec_loop_m ly a N H r_z [0 ..< nat (n_layers a)] (r_trg_embeds, []))
        (\<lambda>(r_h_dec, dec_cs).
      bindM (get3M r_h_dec) (\<lambda>h_dec.
      bindM (get3M r_h_enc) (\<lambda>h_enc.
      bindM (call_forward (temporal_attention_forward ly h_dec h_enc)) (\<lambda>(r_att_out, att_c).
      bindM (if attention a then
               bindM (get3M r_h_dec) (\<lambda>h_dec.
               bindM (get3M r_att_out) (\<lambda>att_out.
               bindM (liftM (append_features h_dec att_out)) (\<lambda>dec_out.
                 newM (Cell3 dec_out))))
             else returnM r_h_dec) (\<lambda>r_dec_out.
      bindM (paramM ''W_out_dec'') (\<lambda>r_w_out.
      bindM (paramM ''b_out_dec'') (\<lambda>r_b_out.
      bindM (get3M r_dec_out) (\<lambda>dec_out.
      bindM (getNM r_w_out) (\<lambda>w_out.
      bindM (getNM r_b_out) (\<lambda>b_out.
      bindM (call_forward (temporal_affine_forward ly dec_out w_out b_out))
        (\<lambda>(r_scores, dec_out_c).
        returnM (r_scores, \<lparr>enc_embed_cache = enc_embed_c, enc_caches = enc_cs,
                            dec_embed_cache = dec_embed_c, dec_caches = dec_cs,
                            att_cache = att_c, dec_out_cache = dec_out_c\<rparr>)))))))))))))))))))))))"

subsection \<open>The backward pass\<close>

text \<open>
  The \<^verbatim>\<open>if\<close>/\<^verbatim>\<open>elif\<close> on \<^verbatim>\<open>self.cell_type\<close> in both layer loops of \<^verbatim>\<open>_backward\<close>:
  the cache is popped, then the primitive runs on the gradient behind \<open>dh\<close>.
\<close>

definition cell_backward_m ::
  "('a, 'c) layers \<Rightarrow> ('b, 'z) hparams_scheme \<Rightarrow> ref3 \<Rightarrow> 'c list \<Rightarrow>
   ('a, (nat \<times> nat \<times> nat \<times> nat \<times> nat) \<times> 'c list) proc" where
  "cell_backward_m ly a dh caches =
     (if cell_type a = ''rnn'' then
        bindM (liftM (pop caches)) (\<lambda>(c, rest).
        bindM (get3V dh) (\<lambda>d.
        bindM (call_cell_backward (recurrent_backward ly d c)) (\<lambda>rs.
          returnM (rs, rest))))
      else if cell_type a = ''lstm'' then
        bindM (liftM (pop caches)) (\<lambda>(c, rest).
        bindM (get3V dh) (\<lambda>d.
        bindM (call_cell_backward (lstm_backward ly d c)) (\<lambda>rs.
          returnM (rs, rest))))
      else liftM (Inl UnboundLocalError))"

text \<open>
  The decoder loop of \<^verbatim>\<open>_backward\<close>; \<open>r_dz\<close> refers to \<^verbatim>\<open>dz\<close>, the loop state is
  \<^verbatim>\<open>(dh_dec, dec_caches, grads)\<close>, and \<^verbatim>\<open>grads\<close> maps names to references.
  \<^verbatim>\<open>dz[:, i, :] += dh0\<close> writes to \<^verbatim>\<open>dz\<close>.
\<close>

fun dec_back_loop_m ::
  "('a::plus, 'c) layers \<Rightarrow> ('b, 'z) hparams_scheme \<Rightarrow> nat \<Rightarrow> nat list \<Rightarrow>
   ref3 \<times> 'c list \<times> (string \<rightharpoonup> nat) \<Rightarrow> ('a, ref3 \<times> 'c list \<times> (string \<rightharpoonup> nat)) proc" where
  "dec_back_loop_m ly a r_dz [] st = returnM st"
| "dec_back_loop_m ly a r_dz (i # is) (dh_dec, caches, grads) =
     bindM (cell_backward_m ly a dh_dec caches)
       (\<lambda>((r_dh_dec', r_dh0, r_dWx, r_dWh, r_db), caches').
     bindM (get3M r_dz) (\<lambda>dz.
     bindM (get2M r_dh0) (\<lambda>dh0.
     bindM (liftM (iadd_layer dz i dh0)) (\<lambda>dz'.
     bindM (putM r_dz (Cell3 dz')) (\<lambda>_.
       dec_back_loop_m ly a r_dz is
         (Whole r_dh_dec', caches',
          grads(pname ''Wx'' i ''dec'' \<mapsto> r_dWx, pname ''Wh'' i ''dec'' \<mapsto> r_dWh,
                pname ''b'' i ''dec'' \<mapsto> r_db)))))))"

text \<open>
  The encoder loop of \<^verbatim>\<open>_backward\<close>; the loop state is \<^verbatim>\<open>(dh_enc, enc_caches, grads)\<close>.
  \<^verbatim>\<open>dh_enc[:, -1, :] += dz[:, i, :]\<close> writes to the array \<^verbatim>\<open>dh_enc\<close> refers to.
\<close>

fun enc_back_loop_m ::
  "('a::plus, 'c) layers \<Rightarrow> ('b, 'z) hparams_scheme \<Rightarrow> nat \<Rightarrow> nat list \<Rightarrow>
   nat \<times> 'c list \<times> (string \<rightharpoonup> nat) \<Rightarrow> ('a, nat \<times> 'c list \<times> (string \<rightharpoonup> nat)) proc" where
  "enc_back_loop_m ly a r_dz [] st = returnM st"
| "enc_back_loop_m ly a r_dz (i # is) (r_dh_enc, caches, grads) =
     bindM (get3M r_dz) (\<lambda>dz.
     bindM (liftM (get_layer dz i)) (\<lambda>dzi.
     bindM (get3M r_dh_enc) (\<lambda>dh_enc.
     bindM (liftM (iadd_last_step dh_enc dzi)) (\<lambda>dh_enc1.
     bindM (putM r_dh_enc (Cell3 dh_enc1)) (\<lambda>_.
     bindM (cell_backward_m ly a (Whole r_dh_enc) caches)
       (\<lambda>((r_dh_enc', r_dh0, r_dWx, r_dWh, r_db), caches').
       enc_back_loop_m ly a r_dz is
         (r_dh_enc', caches',
          grads(pname ''Wx'' i ''enc'' \<mapsto> r_dWx, pname ''Wh'' i ''enc'' \<mapsto> r_dWh,
                pname ''b'' i ''enc'' \<mapsto> r_db))))))))"

text \<open>
  \<^verbatim>\<open>Seq2Seq._backward\<close>; \<open>r_dscores\<close> refers to \<^verbatim>\<open>dscores\<close>. With attention
  \<^verbatim>\<open>dh_dec\<close> is a view of \<^verbatim>\<open>d_dec_out\<close>, and \<^verbatim>\<open>dh_dec += dh_dec_temp\<close> writes to
  \<^verbatim>\<open>d_dec_out\<close>.
\<close>

definition backward_m ::
  "('a::{zero,plus}, 'c) layers \<Rightarrow> ('b, 'z) hparams_scheme \<Rightarrow> nat \<Rightarrow> 'c caches \<Rightarrow>
   ('a, string \<rightharpoonup> nat) proc" where
  "backward_m ly a r_dscores cs =
     bindM (get3M r_dscores) (\<lambda>dscores.
     (let N = dim0 dscores; T_enc = src_seq_len a; H = hidden_dim a in
      bindM (call_affine_backward (temporal_affine_backward ly dscores (dec_out_cache cs)))
        (\<lambda>(r_d_dec_out, r_dW_out, r_db_out).
      (let grads = Map.empty(''W_out_dec'' \<mapsto> r_dW_out, ''b_out_dec'' \<mapsto> r_db_out) in
      bindM (if attention a then
               bindM (get3M r_d_dec_out) (\<lambda>d_dec_out.
               bindM (call_attention_backward
                        (temporal_attention_backward ly (drop_features H d_dec_out) (att_cache cs)))
                 (\<lambda>(r_dh_dec_temp, r_dh_enc).
               bindM (iadd3_prefix r_d_dec_out H r_dh_dec_temp) (\<lambda>_.
                 returnM (Prefix r_d_dec_out H, r_dh_enc))))
             else
               bindM (newM (Cell3 (zeros3 N T_enc H))) (\<lambda>r_dh_enc.
                 returnM (Whole r_d_dec_out, r_dh_enc))) (\<lambda>(dh_dec, r_dh_enc).
      bindM (liftM (zeros3_int N (n_layers a) H)) (\<lambda>dz.
      bindM (newM (Cell3 dz)) (\<lambda>r_dz.
      bindM (dec_back_loop_m ly a r_dz (rev [0 ..< nat (n_layers a)])
               (dh_dec, dec_caches cs, grads)) (\<lambda>(dh_dec, dec_cs, grads).
      bindM (get3V dh_dec) (\<lambda>dh_dec_v.
      bindM (call_embedding_backward (word_embedding_backward ly dh_dec_v (dec_embed_cache cs)))
        (\<lambda>r_dW_embed_dec.
      bindM (enc_back_loop_m ly a r_dz (rev [0 ..< nat (n_layers a)])
               (r_dh_enc, enc_caches cs, grads(''W_embed_dec'' \<mapsto> r_dW_embed_dec)))
        (\<lambda>(r_dh_enc, enc_cs, grads).
      bindM (get3M r_dh_enc) (\<lambda>dh_enc_v.
      bindM (call_embedding_backward (word_embedding_backward ly dh_enc_v (enc_embed_cache cs)))
        (\<lambda>r_dW_embed_enc.
        returnM (grads(''W_embed_enc'' \<mapsto> r_dW_embed_enc)))))))))))))))"

subsection \<open>The loss\<close>

text \<open>\<^verbatim>\<open>Seq2Seq.loss\<close>; the result is the loss and the dictionary of the gradients.\<close>

definition loss_m ::
  "('a::{zero,plus}, 'c) layers \<Rightarrow> ('b, 'z) hparams_scheme \<Rightarrow> int arr2 \<Rightarrow> int arr2 \<Rightarrow>
   ('a, 'a \<times> (string \<rightharpoonup> nat)) proc" where
  "loss_m ly a src trg =
     (let trg_in = drop_last_col trg; trg_out = drop_first_col trg in
      bindM (forward_m ly a src trg_in) (\<lambda>(r_scores, cs).
      (let msk = not_equal_to trg_out (null_idx a) in
      bindM (get3M r_scores) (\<lambda>scores.
      bindM (call_loss (temporal_cross_entropy_loss ly scores trg_out msk)) (\<lambda>(l, r_dscores).
      bindM (backward_m ly a r_dscores cs) (\<lambda>grads.
        returnM (l, grads)))))))"

text \<open>
  What a call leaves of the parameters, from the state \<open>s\<close> before to the state \<open>s'\<close>
  after: the dictionary maps the same names to the same references, every array that
  existed before has the content it had, and so has in particular the array of every
  parameter.
\<close>

definition params_kept :: "'a mem \<Rightarrow> 'a mem \<Rightarrow> bool" where
  "params_kept s s' \<longleftrightarrow>
     pdict s' = pdict s \<and>
     take (length (cells s)) (cells s') = cells s \<and>
     (\<forall>k r. pdict s k = Some r \<and> r < length (cells s) \<longrightarrow>
        pdict s' k = Some r \<and> cells s' ! r = cells s ! r)"

text \<open>
  The property of a statement that the proofs carry along: run in a state with at least
  \<open>n\<close> cells, it leaves the dictionary and the first \<open>n\<close> cells as they are, removes
  no cell, and a result it returns satisfies \<open>P\<close>.
\<close>

definition keeps :: "nat \<Rightarrow> ('r \<Rightarrow> bool) \<Rightarrow> ('a, 'r) proc \<Rightarrow> bool" where
  "keeps n P f \<longleftrightarrow>
     (\<forall>s. n \<le> length (cells s) \<longrightarrow>
        pdict (snd (f s)) = pdict s \<and> length (cells s) \<le> length (cells (snd (f s))) \<and>
        take n (cells (snd (f s))) = take n (cells s) \<and>
        (\<forall>x. fst (f s) = Inr x \<longrightarrow> P x))"

section \<open>Auxiliary notions for the statements\<close>

text \<open>The keys written by iteration \<open>i\<close> of the loop of \<^verbatim>\<open>__init__\<close>.\<close>

definition is_W_key :: "nat \<Rightarrow> string \<Rightarrow> bool" where
  "is_W_key i k \<longleftrightarrow> k \<in> {pname ''Wx'' i ''enc'', pname ''Wh'' i ''enc'',
                         pname ''Wx'' i ''dec'', pname ''Wh'' i ''dec''}"

definition is_b_key :: "nat \<Rightarrow> string \<Rightarrow> bool" where
  "is_b_key i k \<longleftrightarrow> k \<in> {pname ''b'' i ''enc'', pname ''b'' i ''dec''}"

text \<open>The shape of every entry of the parameter dictionary after \<^verbatim>\<open>__init__\<close>.\<close>

definition init_shapes :: "'a hparams \<Rightarrow> nat \<Rightarrow> string \<Rightarrow> nat list option" where
  "init_shapes a dm k =
     (if k = ''b_out_dec'' then Some [trg_vocab_size a]
      else if k = ''W_out_dec'' then Some [(if attention a then 2 else 1) * hidden_dim a, trg_vocab_size a]
      else if k = ''Wx_0_dec'' then Some [trg_embed_dim a, dm * hidden_dim a]
      else if k = ''Wx_0_enc'' then Some [src_embed_dim a, dm * hidden_dim a]
      else if \<exists>i<nat (n_layers a). is_W_key i k then Some [hidden_dim a, dm * hidden_dim a]
      else if \<exists>i<nat (n_layers a). is_b_key i k then Some [dm * hidden_dim a]
      else if k = ''W_embed_dec'' then Some [trg_vocab_size a, trg_embed_dim a]
      else if k = ''W_embed_enc'' then Some [src_vocab_size a, src_embed_dim a]
      else None)"

text \<open>
  What the orchestrator relies on from the two recurrent primitives: for an initial state
  of shape \<open>(N, H)\<close> the hidden states they return form a well-formed array of shape
  \<open>(N, T, H)\<close>.
\<close>

definition cells_keep_shape :: "('a, 'c) layers \<Rightarrow> bool" where
  "cells_keep_shape ly \<longleftrightarrow>
     (\<forall>x h0 wx wh b h c. recurrent_forward ly x h0 wx wh b = Inr (h, c) \<longrightarrow>
         wf3 h \<and> dim0 h = nrows h0 \<and> dim2 h = ncols h0) \<and>
     (\<forall>x h0 wx wh b h c. lstm_forward ly x h0 wx wh b = Inr (h, c) \<longrightarrow>
         wf3 h \<and> dim0 h = nrows h0 \<and> dim2 h = ncols h0)"

text \<open>
  What the orchestrator relies on from the backward primitives whose results it updates
  in place: the arrays they return are well formed.
\<close>

definition cells_back_wf :: "('a, 'c) layers \<Rightarrow> bool" where
  "cells_back_wf ly \<longleftrightarrow>
     (\<forall>dh c dx dh0 dWx dWh db.
         recurrent_backward ly dh c = Inr (dx, dh0, dWx, dWh, db) \<longrightarrow> wf3 dx \<and> wf2 dh0) \<and>
     (\<forall>dh c dx dh0 dWx dWh db.
         lstm_backward ly dh c = Inr (dx, dh0, dWx, dWh, db) \<longrightarrow> wf3 dx \<and> wf2 dh0) \<and>
     (\<forall>d c dh_dec dh_enc.
         temporal_attention_backward ly d c = Inr (dh_dec, dh_enc) \<longrightarrow> wf3 dh_enc)"

text \<open>
  Entry by entry, in terms of the rows alone: \<open>v\<close> is the last time step of \<open>a\<close>; every
  entry of an array is zero; \<open>r\<close> is \<open>z + v\<close> with \<open>v\<close> broadcast to the shape of \<open>z\<close> (an
  axis of \<open>v\<close> of length one is read at index 0); \<open>e\<close> is \<open>a\<close> with \<open>v\<close>, broadcast, added
  to its last time step and every other time step unchanged.
\<close>

definition is_last_step :: "'a arr3 \<Rightarrow> 'a arr2 \<Rightarrow> bool" where
  "is_last_step a v \<longleftrightarrow>
     0 < dim1 a \<and> wf2 v \<and> nrows v = dim0 a \<and> ncols v = dim2 a \<and>
     (\<forall>n<dim0 a. \<forall>k<dim2 a. cells2 v ! n ! k = cells3 a ! n ! (dim1 a - 1) ! k)"

definition all_zero2 :: "'a::zero arr2 \<Rightarrow> bool" where
  "all_zero2 v \<longleftrightarrow> wf2 v \<and> (\<forall>n<nrows v. \<forall>k<ncols v. cells2 v ! n ! k = 0)"

definition all_zero3 :: "'a::zero arr3 \<Rightarrow> bool" where
  "all_zero3 a \<longleftrightarrow>
     wf3 a \<and> (\<forall>n<dim0 a. \<forall>t<dim1 a. \<forall>k<dim2 a. cells3 a ! n ! t ! k = 0)"

definition is_zero_plus :: "nat \<Rightarrow> nat \<Rightarrow> 'a::{zero,plus} arr2 \<Rightarrow> 'a arr2 \<Rightarrow> bool" where
  "is_zero_plus n h v r \<longleftrightarrow>
     wf2 r \<and> nrows r = n \<and> ncols r = h \<and>
     (\<forall>i<n. \<forall>k<h. cells2 r ! i ! k =
        0 + cells2 v ! (if nrows v = n then i else 0) ! (if ncols v = h then k else 0))"

definition is_last_step_plus :: "'a::plus arr3 \<Rightarrow> 'a arr2 \<Rightarrow> 'a arr3 \<Rightarrow> bool" where
  "is_last_step_plus a v e \<longleftrightarrow>
     0 < dim1 a \<and> wf3 e \<and> dim0 e = dim0 a \<and> dim1 e = dim1 a \<and> dim2 e = dim2 a \<and>
     (\<forall>n<dim0 a. \<forall>t<dim1 a. \<forall>k<dim2 a. cells3 e ! n ! t ! k =
        (if t = dim1 a - 1
         then cells3 a ! n ! t ! k +
              cells2 v ! (if nrows v = dim0 a then n else 0) ! (if ncols v = dim2 a then k else 0)
         else cells3 a ! n ! t ! k))"

text \<open>
  The form of a run of \<^verbatim>\<open>_forward\<close> over \<open>n\<close> layers, layer by layer, in terms of the
  primitives. \<open>ehs ! i\<close> and \<open>dhs ! i\<close> are the hidden states returned by encoder and
  decoder layer \<open>i\<close>; layer \<open>i\<close> runs on the output of layer \<open>i - 1\<close> (layer 0 on the
  embeddings) with its own three parameters, and its cache is entry \<open>i\<close> of the cache
  list. The encoder layer starts from an all-zero state \<open>h0e\<close> of shape \<open>(N, H)\<close>; the
  decoder layer \<open>i\<close> starts from \<open>h0\<close>, the last time step of \<open>ehs ! i\<close>.
\<close>

definition forward_trace ::
  "('a::zero, 'c) layers \<Rightarrow> 'a seq2seq \<Rightarrow> int arr2 \<Rightarrow> 'c caches \<Rightarrow>
   'a arr3 \<Rightarrow> 'a arr3 \<Rightarrow> 'a arr3 list \<Rightarrow> 'a arr3 list \<Rightarrow> bool" where
  "forward_trace ly m src cs src_embeds trg_embeds ehs dhs \<longleftrightarrow>
     (let n = nat (n_layers m) in
      length ehs = n \<and> length dhs = n \<and>
      length (enc_caches cs) = n \<and> length (dec_caches cs) = n \<and>
      (\<forall>i<n. \<exists>h0e h0 ewx ewh eb dwx dwh db.
         params m (pname ''Wx'' i ''enc'') = Some ewx \<and>
         params m (pname ''Wh'' i ''enc'') = Some ewh \<and>
         params m (pname ''b'' i ''enc'') = Some eb \<and>
         (cell_type m = ''rnn'' \<and>
            recurrent_forward ly ((src_embeds # ehs) ! i) h0e ewx ewh eb
              = Inr (ehs ! i, enc_caches cs ! i) \<or>
          cell_type m = ''lstm'' \<and>
            lstm_forward ly ((src_embeds # ehs) ! i) h0e ewx ewh eb
              = Inr (ehs ! i, enc_caches cs ! i)) \<and>
         all_zero2 h0e \<and> nrows h0e = nrows src \<and> ncols h0e = hidden_dim m \<and>
         params m (pname ''Wx'' i ''dec'') = Some dwx \<and>
         params m (pname ''Wh'' i ''dec'') = Some dwh \<and>
         params m (pname ''b'' i ''dec'') = Some db \<and>
         (cell_type m = ''rnn'' \<and>
            recurrent_forward ly ((trg_embeds # dhs) ! i) h0 dwx dwh db
              = Inr (dhs ! i, dec_caches cs ! i) \<or>
          cell_type m = ''lstm'' \<and>
            lstm_forward ly ((trg_embeds # dhs) ! i) h0 dwx dwh db
              = Inr (dhs ! i, dec_caches cs ! i)) \<and>
         wf3 (ehs ! i) \<and> is_last_step (ehs ! i) h0 \<and>
         nrows h0 = nrows src \<and> ncols h0 = hidden_dim m))"

text \<open>
  The form of a run of \<^verbatim>\<open>_backward\<close> over \<open>n\<close> layers, layer by layer, in terms of the
  primitives. \<open>dh_dec0\<close> and \<open>dh_enc0\<close> are the gradients of the decoder and encoder
  states that enter the two layer loops; \<open>ddxs ! i\<close> and \<open>edxs ! i\<close> are the input
  gradients returned by decoder and encoder layer \<open>i\<close>, so layer \<open>i\<close> receives the
  gradient returned by layer \<open>i + 1\<close> (the top layer receives \<open>dh_dec0\<close>, \<open>dh_enc0\<close>),
  and it runs on the cache of layer \<open>i\<close>. \<open>dh0s ! i\<close> is the gradient of the initial
  state of decoder layer \<open>i\<close>; entry \<open>i\<close> of the context gradient buffer is \<open>dzi\<close>, zero
  plus \<open>dh0s ! i\<close>; the backward primitive of encoder layer \<open>i\<close> runs on \<open>e1\<close>, its
  incoming gradient with \<open>dzi\<close> added at the last time step. The weight gradients the
  two primitives return are the entries of layer \<open>i\<close> in the result.
\<close>

definition backward_trace ::
  "('a::{zero,plus}, 'c) layers \<Rightarrow> 'a seq2seq \<Rightarrow> 'a arr3 \<Rightarrow> 'c caches \<Rightarrow>
   (string \<rightharpoonup> 'a ndarray) \<Rightarrow> 'a arr3 \<Rightarrow> 'a arr3 \<Rightarrow> 'a arr3 list \<Rightarrow> 'a arr2 list \<Rightarrow>
   'a arr3 list \<Rightarrow> bool" where
  "backward_trace ly m dscores cs grads dh_dec0 dh_enc0 ddxs dh0s edxs \<longleftrightarrow>
     (let n = nat (n_layers m) in
      length ddxs = n \<and> length dh0s = n \<and> length edxs = n \<and>
      (\<forall>i<n. \<exists>dWx dWh db dzi e1 edh0 eWx eWh eb.
         (cell_type m = ''rnn'' \<and>
            recurrent_backward ly ((ddxs @ [dh_dec0]) ! Suc i) (dec_caches cs ! i)
              = Inr (ddxs ! i, dh0s ! i, dWx, dWh, db) \<or>
          cell_type m = ''lstm'' \<and>
            lstm_backward ly ((ddxs @ [dh_dec0]) ! Suc i) (dec_caches cs ! i)
              = Inr (ddxs ! i, dh0s ! i, dWx, dWh, db)) \<and>
         is_zero_plus (dim0 dscores) (hidden_dim m) (dh0s ! i) dzi \<and>
         wf3 ((edxs @ [dh_enc0]) ! Suc i) \<and>
         is_last_step_plus ((edxs @ [dh_enc0]) ! Suc i) dzi e1 \<and>
         (cell_type m = ''rnn'' \<and>
            recurrent_backward ly e1 (enc_caches cs ! i) = Inr (edxs ! i, edh0, eWx, eWh, eb) \<or>
          cell_type m = ''lstm'' \<and>
            lstm_backward ly e1 (enc_caches cs ! i) = Inr (edxs ! i, edh0, eWx, eWh, eb)) \<and>
         grads (pname ''Wx'' i ''dec'') = Some dWx \<and> grads (pname ''Wh'' i ''dec'') = Some dWh \<and>
         grads (pname ''b'' i ''dec'') = Some db \<and>
         grads (pname ''Wx'' i ''enc'') = Some eWx \<and> grads (pname ''Wh'' i ''enc'') = Some eWh \<and>
         grads (pname ''b'' i ''enc'') = Some eb))"

text \<open>The gradient keys written by iteration \<open>i\<close> of the two loops of \<^verbatim>\<open>_backward\<close>.\<close>

definition dec_keys :: "nat \<Rightarrow> string set" where
  "dec_keys i = {pname ''Wx'' i ''dec'', pname ''Wh'' i ''dec'', pname ''b'' i ''dec''}"

definition enc_keys :: "nat \<Rightarrow> string set" where
  "enc_keys i = {pname ''Wx'' i ''enc'', pname ''Wh'' i ''enc'', pname ''b'' i ''enc''}"

text \<open>
  What batch independence of the loss needs from the layer primitives. First, the
  forward primitives keep the batch axis: they return well-formed arrays with as many
  batch rows as their input.
\<close>

definition layers_keep_batch :: "('a, 'c) layers \<Rightarrow> bool" where
  "layers_keep_batch ly \<longleftrightarrow>
     (\<forall>ids w y c. word_embedding_forward ly ids w = Inr (y, c) \<longrightarrow> wf3 y \<and> dim0 y = nrows ids) \<and>
     cells_keep_shape ly \<and>
     (\<forall>a b y c. temporal_attention_forward ly a b = Inr (y, c) \<longrightarrow> wf3 y \<and> dim0 y = dim0 a) \<and>
     (\<forall>x w b y c. temporal_affine_forward ly x w b = Inr (y, c) \<longrightarrow> wf3 y \<and> dim0 y = dim0 x)"

text \<open>
  Second, each forward primitive treats the batch rows alike: on inputs with the rows
  reordered by \<open>p\<close> it raises the same error or returns the output with the rows
  reordered by \<open>p\<close> (\<open>r'\<close> is the result on the reordered input, \<open>r\<close> the result on the
  input). The loss primitive returns the same loss value, or raises the same error, when
  scores, labels and mask are reordered alike.
\<close>

definition same_or_permuted ::
  "nat list \<Rightarrow> error + ('a arr3 \<times> 'c) \<Rightarrow> error + ('a arr3 \<times> 'c) \<Rightarrow> bool" where
  "same_or_permuted p r' r \<longleftrightarrow> map_sum id fst r' = map_sum id (\<lambda>yc. perm3 p (fst yc)) r"

definition batch_equivariant :: "('a, 'c) layers \<Rightarrow> bool" where
  "batch_equivariant ly \<longleftrightarrow>
     (\<forall>p ids w. wf2 ids \<and> is_perm p (nrows ids) \<longrightarrow>
        same_or_permuted p (word_embedding_forward ly (perm2 p ids) w)
                           (word_embedding_forward ly ids w)) \<and>
     (\<forall>p x h0 wx wh b. wf3 x \<and> wf2 h0 \<and> is_perm p (dim0 x) \<and> nrows h0 = dim0 x \<longrightarrow>
        same_or_permuted p (recurrent_forward ly (perm3 p x) (perm2 p h0) wx wh b)
                           (recurrent_forward ly x h0 wx wh b)) \<and>
     (\<forall>p x h0 wx wh b. wf3 x \<and> wf2 h0 \<and> is_perm p (dim0 x) \<and> nrows h0 = dim0 x \<longrightarrow>
        same_or_permuted p (lstm_forward ly (perm3 p x) (perm2 p h0) wx wh b)
                           (lstm_forward ly x h0 wx wh b)) \<and>
     (\<forall>p a b. wf3 a \<and> wf3 b \<and> is_perm p (dim0 a) \<and> dim0 b = dim0 a \<longrightarrow>
        same_or_permuted p (temporal_attention_forward ly (perm3 p a) (perm3 p b))
                           (temporal_attention_forward ly a b)) \<and>
     (\<forall>p x w b. wf3 x \<and> is_perm p (dim0 x) \<longrightarrow>
        same_or_permuted p (temporal_affine_forward ly (perm3 p x) w b)
                           (temporal_affine_forward ly x w b)) \<and>
     (\<forall>p s y k. wf3 s \<and> wf2 y \<and> wf2 k \<and> is_perm p (dim0 s) \<and> nrows y = dim0 s \<and> nrows k = dim0 s \<longrightarrow>
        map_sum id fst (temporal_cross_entropy_loss ly (perm3 p s) (perm2 p y) (perm2 p k))
          = map_sum id fst (temporal_cross_entropy_loss ly s y k))"

section \<open>A concrete instance for running the model\<close>

text \<open>
  A deterministic generator (it counts) and small hyper-parameters, to run the
  constructor on concrete inputs.
\<close>

definition counter_numerics :: "(int, nat) numerics" where
  "counter_numerics = \<lparr>gauss = (\<lambda>g. (int g, Suc g)), div_sqrt = (\<lambda>x n. x)\<rparr>"

definition demo_hparams :: "int hparams" where
  "demo_hparams = \<lparr>src_seq_len = 2, src_vocab_size = 3, src_embed_dim = 1,
     trg_seq_len = 2, trg_vocab_size = 3, trg_embed_dim = 1, hidden_dim = 2,
     null_idx = 2, start_idx = 0, end_idx = 1, attention = False, n_layers = 2,
     cell_type = ''rnn'', dtype = (\<lambda>x. x)\<rparr>"

text \<open>
  Integer stand-ins for the layer primitives, to run the orchestrator on concrete
  inputs: each is a simple function of its arguments with the result shapes of the
  primitive it stands for, and each forward primitive saves its inputs as its cache.
  No theorem about the orchestrator depends on them.
\<close>

datatype saved = Saved (saved3: "int arr3 list") (saved2: "int arr2 list") (saved_ids: "int arr2 list")

definition tab2 :: "nat \<Rightarrow> nat \<Rightarrow> (nat \<Rightarrow> nat \<Rightarrow> 'a) \<Rightarrow> 'a arr2" where
  "tab2 n h f = Arr2 n h (map (\<lambda>i. map (\<lambda>k. f i k) [0 ..< h]) [0 ..< n])"

definition tab3 :: "nat \<Rightarrow> nat \<Rightarrow> nat \<Rightarrow> (nat \<Rightarrow> nat \<Rightarrow> nat \<Rightarrow> 'a) \<Rightarrow> 'a arr3" where
  "tab3 n t h f =
     Arr3 n t h (map (\<lambda>i. map (\<lambda>s. map (\<lambda>k. f i s k) [0 ..< h]) [0 ..< t]) [0 ..< n])"

definition nth_or :: "'a \<Rightarrow> 'a list \<Rightarrow> nat \<Rightarrow> 'a" where
  "nth_or d xs i = (if i < length xs then xs ! i else d)"

definition at2 :: "'a \<Rightarrow> 'a arr2 \<Rightarrow> nat \<Rightarrow> nat \<Rightarrow> 'a" where
  "at2 d a i k = nth_or d (nth_or [] (cells2 a) i) k"

definition at3 :: "'a \<Rightarrow> 'a arr3 \<Rightarrow> nat \<Rightarrow> nat \<Rightarrow> nat \<Rightarrow> 'a" where
  "at3 d a i s k = nth_or d (nth_or [] (nth_or [] (cells3 a) i) s) k"

definition sum_upto :: "nat \<Rightarrow> (nat \<Rightarrow> int) \<Rightarrow> int" where
  "sum_upto n f = sum_list (map f [0 ..< n])"

definition toy_embedding_forward :: "int arr2 \<Rightarrow> int ndarray \<Rightarrow> error + (int arr3 \<times> saved)" where
  "toy_embedding_forward ids w =
     (let e = nth_or 0 (shape w) 1 in
      Inr (tab3 (nrows ids) (ncols ids) e
             (\<lambda>i s k. nth_or 0 (elems w) (nat (at2 0 ids i s) * e + k)),
           Saved [] [] [ids]))"

definition toy_embedding_backward :: "int arr3 \<Rightarrow> saved \<Rightarrow> error + int ndarray" where
  "toy_embedding_backward dx c =
     Inr (NDArray [] [sum_upto (dim0 dx) (\<lambda>i. sum_upto (dim1 dx) (\<lambda>s.
            sum_upto (dim2 dx) (\<lambda>k. at3 0 dx i s k)))])"

definition toy_cell_forward ::
  "int arr3 \<Rightarrow> int arr2 \<Rightarrow> int ndarray \<Rightarrow> int ndarray \<Rightarrow> int ndarray \<Rightarrow> error + (int arr3 \<times> saved)" where
  "toy_cell_forward x h0 wx wh b =
     Inr (tab3 (nrows h0) (dim1 x) (ncols h0)
            (\<lambda>i s k. at2 0 h0 i k + sum_upto (dim2 x) (\<lambda>j. at3 0 x i s j)),
          Saved [x] [h0] [])"

definition toy_cell_backward ::
  "int arr3 \<Rightarrow> saved \<Rightarrow> error + (int arr3 \<times> int arr2 \<times> int ndarray \<times> int ndarray \<times> int ndarray)" where
  "toy_cell_backward dh c =
     (case saved3 c of
        [x] \<Rightarrow>
          (let total = sum_upto (dim0 dh) (\<lambda>i. sum_upto (dim1 dh) (\<lambda>s.
                         sum_upto (dim2 dh) (\<lambda>k. at3 0 dh i s k)))
           in Inr (tab3 (dim0 dh) (dim1 dh) (dim2 x) (\<lambda>i s j. sum_upto (dim2 dh) (\<lambda>k. at3 0 dh i s k)),
                   tab2 (dim0 dh) (dim2 dh) (\<lambda>i k. sum_upto (dim1 dh) (\<lambda>s. at3 0 dh i s k)),
                   NDArray [] [total], NDArray [] [total], NDArray [] [total]))
      | _ \<Rightarrow> Inl LayerError)"

definition toy_attention_forward :: "int arr3 \<Rightarrow> int arr3 \<Rightarrow> error + (int arr3 \<times> saved)" where
  "toy_attention_forward h_dec h_enc =
     Inr (tab3 (dim0 h_dec) (dim1 h_dec) (dim2 h_dec)
            (\<lambda>i s k. sum_upto (dim1 h_enc) (\<lambda>u. at3 0 h_enc i u k)),
          Saved [h_dec, h_enc] [] [])"

definition toy_attention_backward :: "int arr3 \<Rightarrow> saved \<Rightarrow> error + (int arr3 \<times> int arr3)" where
  "toy_attention_backward datt c =
     (case saved3 c of
        [h_dec, h_enc] \<Rightarrow>
          Inr (tab3 (dim0 datt) (dim1 datt) (dim2 datt) (at3 0 datt),
               tab3 (dim0 h_enc) (dim1 h_enc) (dim2 h_enc)
                 (\<lambda>i u k. sum_upto (dim1 datt) (\<lambda>s. at3 0 datt i s k)))
      | _ \<Rightarrow> Inl LayerError)"

definition toy_affine_forward ::
  "int arr3 \<Rightarrow> int ndarray \<Rightarrow> int ndarray \<Rightarrow> error + (int arr3 \<times> saved)" where
  "toy_affine_forward x w b =
     Inr (tab3 (dim0 x) (dim1 x) (nth_or 0 (shape w) 1)
            (\<lambda>i s j. sum_upto (dim2 x) (\<lambda>k. at3 0 x i s k) + int j),
          Saved [x] [] [])"

definition toy_affine_backward ::
  "int arr3 \<Rightarrow> saved \<Rightarrow> error + (int arr3 \<times> int ndarray \<times> int ndarray)" where
  "toy_affine_backward ds c =
     (case saved3 c of
        [x] \<Rightarrow>
          (let total = sum_upto (dim0 ds) (\<lambda>i. sum_upto (dim1 ds) (\<lambda>s.
                         sum_upto (dim2 ds) (\<lambda>j. at3 0 ds i s j)))
           in Inr (tab3 (dim0 ds) (dim1 ds) (dim2 x) (\<lambda>i s k. sum_upto (dim2 ds) (\<lambda>j. at3 0 ds i s j)),
                   NDArray [] [total], NDArray [] [total]))
      | _ \<Rightarrow> Inl LayerError)"

definition toy_loss :: "int arr3 \<Rightarrow> int arr2 \<Rightarrow> bool arr2 \<Rightarrow> error + (int \<times> int arr3)" where
  "toy_loss scores labels msk =
     Inr (sum_upto (dim0 scores) (\<lambda>i. sum_upto (dim1 scores) (\<lambda>s.
            if at2 False msk i s then at3 0 scores i s (nat (at2 0 labels i s)) else 0)),
          tab3 (dim0 scores) (dim1 scores) (dim2 scores)
            (\<lambda>i s j. if at2 False msk i s \<and> j = nat (at2 0 labels i s) then 1 else 0))"

definition toy_layers :: "(int, saved) layers" where
  "toy_layers = \<lparr>
     word_embedding_forward = toy_embedding_forward,
     word_embedding_backward = toy_embedding_backward,
     recurrent_forward = toy_cell_forward,
     recurrent_backward = toy_cell_backward,
     lstm_forward = toy_cell_forward,
     lstm_backward = toy_cell_backward,
     temporal_attention_forward = toy_attention_forward,
     temporal_attention_backward = toy_attention_backward,
     temporal_affine_forward = toy_affine_forward,
     temporal_affine_backward = toy_affine_backward,
     temporal_cross_entropy_loss = toy_loss,
     uninit = 7\<rparr>"

text \<open>The model built by the constructor, a source batch and a target batch.\<close>

definition demo_model :: "int seq2seq" where
  "demo_model = projr (fst (init counter_numerics demo_hparams 0))"

definition demo_src :: "int arr2" where
  "demo_src = Arr2 2 2 [[1, 2], [2, 0]]"

definition demo_trg :: "int arr2" where
  "demo_trg = Arr2 2 3 [[0, 1, 2], [0, 2, 2]]"

definition demo_forward :: "int arr3 \<times> saved caches" where
  "demo_forward = projr (fst (forward toy_layers demo_model demo_src (drop_last_col demo_trg)))"

definition demo_dscores :: "int arr3" where
  "demo_dscores =
     snd (projr (toy_loss (fst demo_forward) (drop_first_col demo_trg)
                   (not_equal_to (drop_first_col demo_trg) (null_idx demo_model))))"

definition demo_grads :: "string \<rightharpoonup> int ndarray" where
  "demo_grads = projr (fst (backward toy_layers demo_model demo_dscores (snd demo_forward)))"

text \<open>
  The state in which the arrays of the parameters named \<open>ks\<close> are the cells
  \<open>0, 1, \<dots>\<close> of the store; the state of the demo model.
\<close>

definition mem_of :: "string list \<Rightarrow> 'a seq2seq \<Rightarrow> 'a mem" where
  "mem_of ks m = \<lparr>cells = map (\<lambda>k. CellN (the (params m k))) ks,
                  pdict = map_of (zip ks [0 ..< length ks])\<rparr>"

definition demo_keys :: "string list" where
  "demo_keys = [''W_embed_enc'', ''W_embed_dec'',
     ''Wx_0_enc'', ''Wh_0_enc'', ''b_0_enc'', ''Wx_0_dec'', ''Wh_0_dec'', ''b_0_dec'',
     ''Wx_1_enc'', ''Wh_1_enc'', ''b_1_enc'', ''Wx_1_dec'', ''Wh_1_dec'', ''b_1_dec'',
     ''W_out_dec'', ''b_out_dec'']"

definition demo_mem :: "int mem" where
  "demo_mem = mem_of demo_keys demo_model"

section \<open>Parameter names are distinct\<close>

lemma digit_char_inj: "a < 10 \<Longrightarrow> b < 10 \<Longrightarrow> digit_char a = digit_char b \<longleftrightarrow> a = b"
  unfolding digit_char_def
  by (rule nth_eq_iff_index_eq) simp_all

lemma show_nat_nonempty: "show_nat n \<noteq> []"
  by (subst show_nat.simps) simp

lemma last_show_nat: "last (show_nat n) = digit_char (n mod 10)"
  by (subst show_nat.simps) simp

lemma butlast_show_nat: "butlast (show_nat n) = (if n < 10 then [] else show_nat (n div 10))"
  by (subst show_nat.simps) simp

lemma show_nat_inj: "show_nat a = show_nat b \<Longrightarrow> a = b"
proof (induction a arbitrary: b rule: show_nat.induct)
  case (1 n)
  have l: "digit_char (n mod 10) = digit_char (b mod 10)"
    using "1.prems" last_show_nat by metis
  hence m: "n mod 10 = b mod 10" by (simp add: digit_char_inj)
  have bl: "butlast (show_nat n) = butlast (show_nat b)" using "1.prems" by simp
  show ?case
  proof (cases "n < 10")
    case True
    with bl have "b < 10" using show_nat_nonempty[of "b div 10"]
      by (auto simp: butlast_show_nat split: if_splits)
    with True m show ?thesis by simp
  next
    case False
    with bl have b: "\<not> b < 10" and e: "show_nat (n div 10) = show_nat (b div 10)"
      using show_nat_nonempty[of "n div 10"]
      by (auto simp: butlast_show_nat split: if_splits)
    from "1.IH"[OF False e] have "n div 10 = b div 10" .
    with m show ?thesis by (metis div_mult_mod_eq)
  qed
qed

lemma show_nat_eq_iff [simp]: "show_nat a = show_nat b \<longleftrightarrow> a = b"
  using show_nat_inj by auto

lemma show_nat_0 [simp]: "show_nat 0 = ''0''"
  by (subst show_nat.simps) (simp add: digit_char_def)

lemma digit_char_in: "d < 10 \<Longrightarrow> digit_char d \<in> set ''0123456789''"
  unfolding digit_char_def by (rule nth_mem) simp

lemma show_nat_not_out: "show_nat i \<noteq> ''out''"
proof
  assume "show_nat i = ''out''"
  hence "last (show_nat i) = CHR ''t''" by simp
  hence "digit_char (i mod 10) = CHR ''t''" by (simp add: last_show_nat)
  moreover have "digit_char (i mod 10) \<in> set ''0123456789''" by (rule digit_char_in) simp
  ultimately show False by simp
qed

lemma pname_eq_iff:
  "length s = length s' \<Longrightarrow> length p = length p' \<Longrightarrow>
   pname p i s = pname p' i' s' \<longleftrightarrow> p = p' \<and> i = i' \<and> s = s'"
  unfolding pname_def by auto

lemma pname_b_Wx: "pname ''b'' i s \<noteq> pname (CHR ''W'' # p) j s'"
  unfolding pname_def by simp

lemma pname_0 : "pname p 0 s = p @ ''_0_'' @ s"
  by (simp add: pname_def)

section \<open>Construction\<close>

lemma shape_randn_scaled [simp]: "shape (fst (randn_scaled nm dims fan g)) = dims"
  by (simp add: randn_scaled_def split: prod.splits)

lemma randn_scaled_shapeD: "randn_scaled nm dims fan g = (w, g') \<Longrightarrow> shape w = dims"
  by (auto simp: randn_scaled_def split: prod.splits)

lemma shape_zeros [simp]: "shape (zeros dims) = dims"
  by (simp add: zeros_def)

lemma shape_astype [simp]: "shape (astype dt x) = shape x"
  by (simp add: astype_def)

lemma W_b_disjoint: "is_W_key i k \<Longrightarrow> is_b_key j k \<Longrightarrow> False"
  by (auto simp: is_W_key_def is_b_key_def pname_def)

lemma init_layer_shape:
  "map_option shape (fst (init_layer nm H dm i (ps, g)) k) =
     (if is_W_key i k then Some [H, dm * H]
      else if is_b_key i k then Some [dm * H]
      else map_option shape (ps k))"
proof -
  obtain w1 g1 where r1: "randn_scaled nm [H, dm * H] H g = (w1, g1)" by force
  obtain w2 g2 where r2: "randn_scaled nm [H, dm * H] H g1 = (w2, g2)" by force
  obtain w3 g3 where r3: "randn_scaled nm [H, dm * H] H g2 = (w3, g3)" by force
  obtain w4 g4 where r4: "randn_scaled nm [H, dm * H] H g3 = (w4, g4)" by force
  note s = randn_scaled_shapeD[OF r1] randn_scaled_shapeD[OF r2]
    randn_scaled_shapeD[OF r3] randn_scaled_shapeD[OF r4]
  show ?thesis
    by (simp add: init_layer_def r1 r2 r3 r4 s is_W_key_def is_b_key_def
        pname_eq_iff pname_b_Wx pname_b_Wx[symmetric])
qed

lemma fold_init_layer_shape:
  "map_option shape (fst (fold (init_layer nm H dm) [0 ..< n] (ps, g)) k) =
     (if \<exists>i<n. is_W_key i k then Some [H, dm * H]
      else if \<exists>i<n. is_b_key i k then Some [dm * H]
      else map_option shape (ps k))"
proof (induction n)
  case 0
  show ?case by simp
next
  case (Suc n)
  obtain ps' g' where f: "fold (init_layer nm H dm) [0 ..< n] (ps, g) = (ps', g')"
    by (cases "fold (init_layer nm H dm) [0 ..< n] (ps, g)")
  have "map_option shape (fst (fold (init_layer nm H dm) [0 ..< Suc n] (ps, g)) k) =
     (if is_W_key n k then Some [H, dm * H]
      else if is_b_key n k then Some [dm * H]
      else map_option shape (ps' k))"
    by (simp add: f init_layer_shape)
  also have "map_option shape (ps' k) = (if \<exists>i<n. is_W_key i k then Some [H, dm * H]
      else if \<exists>i<n. is_b_key i k then Some [dm * H]
      else map_option shape (ps k))"
    using Suc f by simp
  finally show ?case
    using W_b_disjoint[of _ k] by (auto simp: less_Suc_eq)
qed


lemma params_mk [simp]: "params (mk_seq2seq a ps) = ps"
  by (simp add: mk_seq2seq_def hparams.defs seq2seq.defs)

lemma hparams_mk [simp]:
  "hidden_dim (mk_seq2seq a ps) = hidden_dim a"
  "n_layers (mk_seq2seq a ps) = n_layers a"
  "cell_type (mk_seq2seq a ps) = cell_type a"
  "attention (mk_seq2seq a ps) = attention a"
  "src_seq_len (mk_seq2seq a ps) = src_seq_len a"
  "null_idx (mk_seq2seq a ps) = null_idx a"
  by (simp_all add: mk_seq2seq_def hparams.defs seq2seq.defs)

lemma cell_dim_mul_eq:
  "cell_dim_mul ct = (if ct = ''lstm'' then Inr 4 else if ct = ''rnn'' then Inr 1 else Inl KeyError)"
  by (simp add: cell_dim_mul_def)

lemma fixed_keys_not_layer [simp]:
  "\<not> is_W_key i ''W_embed_enc''" "\<not> is_W_key i ''W_embed_dec''"
  "\<not> is_W_key i ''W_out_dec''" "\<not> is_W_key i ''b_out_dec''"
  "\<not> is_b_key i ''W_embed_enc''" "\<not> is_b_key i ''W_embed_dec''"
  "\<not> is_b_key i ''W_out_dec''" "\<not> is_b_key i ''b_out_dec''"
  by (simp_all add: is_W_key_def is_b_key_def pname_def show_nat_not_out show_nat_not_out[symmetric])

lemma init_success:
  assumes dm: "cell_dim_mul (cell_type a) = Inr dm"
  shows "\<exists>ps g'. init nm a g = (Inr (mk_seq2seq a ps), g') \<and>
           (\<forall>k. map_option shape (ps k) = init_shapes a dm k)"
proof -
  let ?H = "hidden_dim a"
  let ?om = "(if attention a then 2 else 1) :: nat"
  obtain w1 g1 where r1: "randn_scaled nm [src_vocab_size a, src_embed_dim a] (src_vocab_size a) g = (w1, g1)" by force
  obtain w2 g2 where r2: "randn_scaled nm [trg_vocab_size a, trg_embed_dim a] (trg_vocab_size a) g1 = (w2, g2)" by force
  obtain ps g3 where f: "fold (init_layer nm ?H dm) [0 ..< nat (n_layers a)]
                 (Map.empty(''W_embed_enc'' \<mapsto> w1, ''W_embed_dec'' \<mapsto> w2), g2) = (ps, g3)" by force
  obtain w4 g4 where r4: "randn_scaled nm [src_embed_dim a, dm * ?H] (src_embed_dim a) g3 = (w4, g4)" by force
  obtain w5 g5 where r5: "randn_scaled nm [trg_embed_dim a, dm * ?H] (trg_embed_dim a) g4 = (w5, g5)" by force
  obtain w6 g6 where r6: "randn_scaled nm [?om * ?H, trg_vocab_size a] (?om * ?H) g5 = (w6, g6)" by force
  note s = randn_scaled_shapeD[OF r1] randn_scaled_shapeD[OF r2]
    randn_scaled_shapeD[OF r4] randn_scaled_shapeD[OF r5] randn_scaled_shapeD[OF r6]
  let ?ps = "ps(''Wx_0_enc'' \<mapsto> w4, ''Wx_0_dec'' \<mapsto> w5, ''W_out_dec'' \<mapsto> w6,
                ''b_out_dec'' \<mapsto> zeros [trg_vocab_size a])"
  let ?ps' = "\<lambda>k. map_option (astype (dtype a)) (?ps k)"
  have i: "init nm a g = (Inr (mk_seq2seq a ?ps'), g6)"
    by (simp add: init_def r1 r2 dm f r4 r5 r6 Let_def)
  have p: "map_option shape (ps k) =
     (if \<exists>i<nat (n_layers a). is_W_key i k then Some [?H, dm * ?H]
      else if \<exists>i<nat (n_layers a). is_b_key i k then Some [dm * ?H]
      else map_option shape ((Map.empty(''W_embed_enc'' \<mapsto> w1, ''W_embed_dec'' \<mapsto> w2)) k))" for k
    using fold_init_layer_shape[of nm ?H dm "nat (n_layers a)"
        "Map.empty(''W_embed_enc'' \<mapsto> w1, ''W_embed_dec'' \<mapsto> w2)" g2 k]
    unfolding f by (simp only: fst_conv)
  have "map_option shape (?ps' k) = init_shapes a dm k" for k
    unfolding init_shapes_def option.map_comp
    using W_b_disjoint[of _ k] by (auto simp add: p s o_def)
  with i show ?thesis by blast
qed


lemma init_Inr_iff:
  "(\<exists>m. fst (init nm a g) = Inr m) \<longleftrightarrow> cell_type a \<in> {''rnn'', ''lstm''}"
  "fst (init nm a g) = Inl e \<longleftrightarrow> cell_type a \<notin> {''rnn'', ''lstm''} \<and> e = KeyError"
proof -
  show "(\<exists>m. fst (init nm a g) = Inr m) \<longleftrightarrow> cell_type a \<in> {''rnn'', ''lstm''}"
  proof (cases "cell_dim_mul (cell_type a)")
    case (Inl e)
    then show ?thesis
      by (auto simp: init_def cell_dim_mul_eq split: prod.splits if_splits)
  next
    case (Inr dm)
    from init_success[OF Inr, of nm g] Inr show ?thesis
      by (auto simp: cell_dim_mul_eq split: if_splits)
  qed
  show "fst (init nm a g) = Inl e \<longleftrightarrow> cell_type a \<notin> {''rnn'', ''lstm''} \<and> e = KeyError"
  proof (cases "cell_dim_mul (cell_type a)")
    case (Inl e')
    then show ?thesis
      by (auto simp: init_def cell_dim_mul_eq split: prod.splits if_splits)
  next
    case (Inr dm)
    from init_success[OF Inr, of nm g] Inr show ?thesis
      by (auto simp: cell_dim_mul_eq split: if_splits)
  qed
qed

text \<open>
  Claim C4. The two supported kinds are the plain cell, which the code writes \<open>''rnn''\<close>
  (width multiplier 1), and the gated cell, which it writes \<open>''lstm''\<close> (width
  multiplier 4); the cell type is looked up in the dictionary \<^verbatim>\<open>{"lstm": 4, "rnn": 1}\<close>.
  Construction returns a model for each of the two kinds, and for every other string it
  fails with the error of the failed lookup, \<^verbatim>\<open>KeyError\<close>.
\<close>

theorem init_cell_type_supported:
  "(cell_type a \<in> {''rnn'', ''lstm''} \<longrightarrow> (\<exists>m. fst (init nm a g) = Inr m)) \<and>
   (cell_type a \<notin> {''rnn'', ''lstm''} \<longrightarrow> fst (init nm a g) = Inl KeyError)"
  using init_Inr_iff(1)[of nm a g] init_Inr_iff(2)[of nm a g KeyError] by blast

text \<open>
  The statement at concrete inputs: \<open>''rnn''\<close> is accepted, \<open>''gru''\<close> raises.
\<close>

theorem init_cell_type_supported_witness:
  "cell_type demo_hparams \<in> {''rnn'', ''lstm''} \<and>
   (\<exists>m. fst (init counter_numerics demo_hparams 0) = Inr m) \<and>
   cell_type (demo_hparams\<lparr>cell_type := ''gru''\<rparr>) \<notin> {''rnn'', ''lstm''} \<and>
   fst (init counter_numerics (demo_hparams\<lparr>cell_type := ''gru''\<rparr>) 0) = Inl KeyError"
  using init_cell_type_supported[of demo_hparams counter_numerics 0]
    init_cell_type_supported[of "demo_hparams\<lparr>cell_type := ''gru''\<rparr>" counter_numerics 0]
  by (simp add: demo_hparams_def)

text \<open>
  The words \<open>plain\<close> and \<open>gated\<close> name the two kinds in prose; they are not values of
  \<^verbatim>\<open>cell_type\<close>, and as strings they are rejected like every other.
\<close>

lemma init_kind_words_rejected:
  "fst (init counter_numerics (demo_hparams\<lparr>cell_type := ''plain''\<rparr>) 0) = Inl KeyError \<and>
   fst (init counter_numerics (demo_hparams\<lparr>cell_type := ''gated''\<rparr>) 0) = Inl KeyError"
  by (simp add: init_Inr_iff demo_hparams_def)

lemma pname_fixed [simp]:
  "pname ''Wx'' i ''enc'' = ''Wx_0_enc'' \<longleftrightarrow> i = 0"
  "pname ''Wx'' i ''dec'' = ''Wx_0_dec'' \<longleftrightarrow> i = 0"
  "pname ''Wx'' i ''enc'' \<noteq> ''Wx_0_dec''"
  "pname ''Wx'' i ''dec'' \<noteq> ''Wx_0_enc''"
  "pname ''Wh'' i s \<noteq> ''Wx_0_enc''" "pname ''Wh'' i s \<noteq> ''Wx_0_dec''"
  "pname ''b'' i s \<noteq> ''Wx_0_enc''" "pname ''b'' i s \<noteq> ''Wx_0_dec''"
  "pname ''Wx'' i s \<noteq> ''W_out_dec''" "pname ''Wh'' i s \<noteq> ''W_out_dec''"
  "pname ''b'' i s \<noteq> ''W_out_dec''"
  "pname ''Wx'' i s \<noteq> ''b_out_dec''" "pname ''Wh'' i s \<noteq> ''b_out_dec''"
  "pname ''b'' i ''enc'' \<noteq> ''b_out_dec''" "pname ''b'' i ''dec'' \<noteq> ''b_out_dec''"
proof -
  have e: "''Wx_0_enc'' = pname ''Wx'' 0 ''enc''" "''Wx_0_dec'' = pname ''Wx'' 0 ''dec''"
    by (simp_all add: pname_0)
  show "pname ''Wx'' i ''enc'' = ''Wx_0_enc'' \<longleftrightarrow> i = 0"
    "pname ''Wx'' i ''dec'' = ''Wx_0_dec'' \<longleftrightarrow> i = 0"
    "pname ''Wx'' i ''enc'' \<noteq> ''Wx_0_dec''"
    "pname ''Wx'' i ''dec'' \<noteq> ''Wx_0_enc''"
    unfolding e by (simp_all add: pname_eq_iff)
qed (simp_all add: pname_def show_nat_not_out)

lemma layer_key_intros:
  "is_W_key i (pname ''Wx'' i ''enc'')" "is_W_key i (pname ''Wx'' i ''dec'')"
  "is_W_key i (pname ''Wh'' i ''enc'')" "is_W_key i (pname ''Wh'' i ''dec'')"
  "is_b_key i (pname ''b'' i ''enc'')" "is_b_key i (pname ''b'' i ''dec'')"
  by (simp_all add: is_W_key_def is_b_key_def)

lemma init_shapes_layer:
  assumes "int i < n_layers a"
  shows "i \<noteq> 0 \<Longrightarrow> init_shapes a dm (pname ''Wx'' i ''enc'') = Some [hidden_dim a, dm * hidden_dim a]"
    and "i \<noteq> 0 \<Longrightarrow> init_shapes a dm (pname ''Wx'' i ''dec'') = Some [hidden_dim a, dm * hidden_dim a]"
    and "init_shapes a dm (pname ''Wh'' i ''enc'') = Some [hidden_dim a, dm * hidden_dim a]"
    and "init_shapes a dm (pname ''Wh'' i ''dec'') = Some [hidden_dim a, dm * hidden_dim a]"
    and "init_shapes a dm (pname ''b'' i ''enc'') = Some [dm * hidden_dim a]"
    and "init_shapes a dm (pname ''b'' i ''dec'') = Some [dm * hidden_dim a]"
proof -
  from assms have i: "i < nat (n_layers a)" by simp
  have W: "\<exists>j<nat (n_layers a). is_W_key j (pname ''Wx'' i ''enc'')"
    "\<exists>j<nat (n_layers a). is_W_key j (pname ''Wx'' i ''dec'')"
    "\<exists>j<nat (n_layers a). is_W_key j (pname ''Wh'' i ''enc'')"
    "\<exists>j<nat (n_layers a). is_W_key j (pname ''Wh'' i ''dec'')"
    using i layer_key_intros by blast+
  have b: "\<exists>j<nat (n_layers a). is_b_key j (pname ''b'' i ''enc'')"
    "\<exists>j<nat (n_layers a). is_b_key j (pname ''b'' i ''dec'')"
    using i layer_key_intros by blast+
  have nb: "\<not> (\<exists>j<nat (n_layers a). is_W_key j (pname ''b'' i ''enc''))"
    "\<not> (\<exists>j<nat (n_layers a). is_W_key j (pname ''b'' i ''dec''))"
    using W_b_disjoint layer_key_intros by blast+
  show "i \<noteq> 0 \<Longrightarrow> init_shapes a dm (pname ''Wx'' i ''enc'') = Some [hidden_dim a, dm * hidden_dim a]"
    "i \<noteq> 0 \<Longrightarrow> init_shapes a dm (pname ''Wx'' i ''dec'') = Some [hidden_dim a, dm * hidden_dim a]"
    "init_shapes a dm (pname ''Wh'' i ''enc'') = Some [hidden_dim a, dm * hidden_dim a]"
    "init_shapes a dm (pname ''Wh'' i ''dec'') = Some [hidden_dim a, dm * hidden_dim a]"
    "init_shapes a dm (pname ''b'' i ''enc'') = Some [dm * hidden_dim a]"
    "init_shapes a dm (pname ''b'' i ''dec'') = Some [dm * hidden_dim a]"
    by (simp_all add: init_shapes_def W b nb)
qed

lemma init_params_shape:
  assumes "fst (init nm a g) = Inr m"
  shows "\<exists>dm. cell_dim_mul (cell_type a) = Inr dm \<and>
           (\<forall>k. map_option shape (params m k) = init_shapes a dm k)"
proof (cases "cell_dim_mul (cell_type a)")
  case (Inl e)
  with assms show ?thesis by (simp add: init_def split: prod.splits)
next
  case (Inr dm)
  from init_success[OF Inr, of nm g] assms Inr show ?thesis by auto
qed

text \<open>
  Claim C5. After construction the input weights of layer 0 have as many rows as the
  embedding is wide (source embedding for the encoder, target embedding for the
  decoder), the input weights of every layer \<open>i \<ge> 1\<close> have \<open>hidden_dim\<close> rows, and every
  input weight, hidden weight and bias of a layer has \<open>dm * hidden_dim\<close> columns, where
  the multiplier \<open>dm\<close> is 1 for the cell type \<open>''rnn''\<close> (the plain cell) and 4 for
  \<open>''lstm''\<close> (the gated cell).
\<close>

theorem init_recurrent_weight_shapes:
  assumes "fst (init nm a g) = Inr m"
  shows "\<exists>dm. cell_dim_mul (cell_type a) = Inr dm \<and>
     (cell_type a = ''rnn'' \<longrightarrow> dm = 1) \<and> (cell_type a = ''lstm'' \<longrightarrow> dm = 4) \<and>
     map_option shape (params m ''Wx_0_enc'') = Some [src_embed_dim a, dm * hidden_dim a] \<and>
     map_option shape (params m ''Wx_0_dec'') = Some [trg_embed_dim a, dm * hidden_dim a] \<and>
     (\<forall>i. 1 \<le> i \<and> int i < n_layers a \<longrightarrow>
        map_option shape (params m (pname ''Wx'' i ''enc'')) = Some [hidden_dim a, dm * hidden_dim a] \<and>
        map_option shape (params m (pname ''Wx'' i ''dec'')) = Some [hidden_dim a, dm * hidden_dim a]) \<and>
     (\<forall>i. int i < n_layers a \<longrightarrow>
        map_option shape (params m (pname ''Wh'' i ''enc'')) = Some [hidden_dim a, dm * hidden_dim a] \<and>
        map_option shape (params m (pname ''Wh'' i ''dec'')) = Some [hidden_dim a, dm * hidden_dim a] \<and>
        map_option shape (params m (pname ''b'' i ''enc'')) = Some [dm * hidden_dim a] \<and>
        map_option shape (params m (pname ''b'' i ''dec'')) = Some [dm * hidden_dim a])"
proof -
  from init_params_shape[OF assms] obtain dm where
    dm: "cell_dim_mul (cell_type a) = Inr dm" and
    sh: "\<And>k. map_option shape (params m k) = init_shapes a dm k" by blast
  from dm have "(cell_type a = ''rnn'' \<longrightarrow> dm = 1) \<and> (cell_type a = ''lstm'' \<longrightarrow> dm = 4)"
    by (auto simp: cell_dim_mul_eq split: if_splits)
  moreover have "init_shapes a dm ''Wx_0_enc'' = Some [src_embed_dim a, dm * hidden_dim a]"
    "init_shapes a dm ''Wx_0_dec'' = Some [trg_embed_dim a, dm * hidden_dim a]"
    by (simp_all add: init_shapes_def)
  ultimately show ?thesis
    using dm by (simp add: sh init_shapes_layer)
qed

lemma demo_init_Inr:
  "fst (init counter_numerics demo_hparams 0) = Inr (projr (fst (init counter_numerics demo_hparams 0)))"
  using init_Inr_iff(1)[of counter_numerics demo_hparams 0] by (auto simp: demo_hparams_def)

text \<open>
  The statement for the model built from \<open>demo_hparams\<close> (two layers, plain cell,
  embedding width 1, hidden width 2).
\<close>

theorem init_recurrent_weight_shapes_witness:
  "fst (init counter_numerics demo_hparams 0) = Inr (projr (fst (init counter_numerics demo_hparams 0))) \<and>
   map_option shape (params (projr (fst (init counter_numerics demo_hparams 0))) ''Wx_0_enc'') = Some [1, 2] \<and>
   map_option shape (params (projr (fst (init counter_numerics demo_hparams 0))) ''Wx_1_enc'') = Some [2, 2] \<and>
   map_option shape (params (projr (fst (init counter_numerics demo_hparams 0))) ''Wh_0_dec'') = Some [2, 2] \<and>
   map_option shape (params (projr (fst (init counter_numerics demo_hparams 0))) ''b_1_dec'') = Some [2]"
proof -
  have n: "pname ''Wx'' (Suc 0) ''enc'' = ''Wx_1_enc''" "pname ''Wh'' 0 ''dec'' = ''Wh_0_dec''"
    "pname ''b'' (Suc 0) ''dec'' = ''b_1_dec''"
    by (simp_all add: pname_def show_nat.simps digit_char_def)
  from init_recurrent_weight_shapes[OF demo_init_Inr] obtain dm where
    "cell_dim_mul (cell_type demo_hparams) = Inr dm"
    "cell_type demo_hparams = ''rnn'' \<longrightarrow> dm = 1"
    "map_option shape (params (projr (fst (init counter_numerics demo_hparams 0))) ''Wx_0_enc'')
       = Some [src_embed_dim demo_hparams, dm * hidden_dim demo_hparams]"
    "\<forall>i. 1 \<le> i \<and> int i < n_layers demo_hparams \<longrightarrow>
        map_option shape (params (projr (fst (init counter_numerics demo_hparams 0))) (pname ''Wx'' i ''enc''))
          = Some [hidden_dim demo_hparams, dm * hidden_dim demo_hparams]"
    "\<forall>i. int i < n_layers demo_hparams \<longrightarrow>
        map_option shape (params (projr (fst (init counter_numerics demo_hparams 0))) (pname ''Wh'' i ''dec''))
          = Some [hidden_dim demo_hparams, dm * hidden_dim demo_hparams] \<and>
        map_option shape (params (projr (fst (init counter_numerics demo_hparams 0))) (pname ''b'' i ''dec''))
          = Some [dm * hidden_dim demo_hparams]"
    by blast
  from this(1,2,3) this(4)[rule_format, of 1] this(5)[rule_format, of 0] this(5)[rule_format, of 1]
  show ?thesis
    using demo_init_Inr by (simp add: n demo_hparams_def)
qed

text \<open>
  Claim C6. After construction \<^verbatim>\<open>W_out_dec\<close> has shape
  \<open>(2 * hidden_dim, trg_vocab_size)\<close> when attention is enabled and
  \<open>(hidden_dim, trg_vocab_size)\<close> when it is not; \<^verbatim>\<open>b_out_dec\<close> has shape
  \<open>(trg_vocab_size,)\<close> in both cases.
\<close>

theorem init_output_projection_shapes:
  assumes "fst (init nm a g) = Inr m"
  shows "map_option shape (params m ''W_out_dec'') =
           Some [(if attention a then 2 * hidden_dim a else hidden_dim a), trg_vocab_size a] \<and>
         map_option shape (params m ''b_out_dec'') = Some [trg_vocab_size a]"
proof -
  from init_params_shape[OF assms] obtain dm where
    sh: "\<And>k. map_option shape (params m k) = init_shapes a dm k" by blast
  show ?thesis by (simp add: sh init_shapes_def)
qed

lemma demo_att_init_Inr:
  "fst (init counter_numerics (demo_hparams\<lparr>attention := True\<rparr>) 0) =
     Inr (projr (fst (init counter_numerics (demo_hparams\<lparr>attention := True\<rparr>) 0)))"
  using init_Inr_iff(1)[of counter_numerics "demo_hparams\<lparr>attention := True\<rparr>" 0]
  by (auto simp: demo_hparams_def)

text \<open>
  The statement for \<open>demo_hparams\<close> without and with attention.
\<close>

theorem init_output_projection_shapes_witness:
  "fst (init counter_numerics demo_hparams 0) = Inr (projr (fst (init counter_numerics demo_hparams 0))) \<and>
   map_option shape (params (projr (fst (init counter_numerics demo_hparams 0))) ''W_out_dec'') = Some [2, 3] \<and>
   map_option shape (params (projr (fst (init counter_numerics demo_hparams 0))) ''b_out_dec'') = Some [3] \<and>
   fst (init counter_numerics (demo_hparams\<lparr>attention := True\<rparr>) 0) =
     Inr (projr (fst (init counter_numerics (demo_hparams\<lparr>attention := True\<rparr>) 0))) \<and>
   map_option shape (params (projr (fst (init counter_numerics (demo_hparams\<lparr>attention := True\<rparr>) 0)))
     ''W_out_dec'') = Some [4, 3]"
  using init_output_projection_shapes[OF demo_init_Inr] demo_init_Inr
    init_output_projection_shapes[OF demo_att_init_Inr] demo_att_init_Inr
  by (simp add: demo_hparams_def)

text \<open>
  Claim C9 fails on the code: the constructor does not check \<^verbatim>\<open>n_layers\<close>; with
  \<open>n_layers = 0\<close> and with \<open>n_layers = -1\<close> it returns a model.
\<close>

theorem init_nonpositive_layers_counterexample:
  "\<not> isl (fst (init counter_numerics (demo_hparams\<lparr>n_layers := 0\<rparr>) 0)) \<and>
   \<not> isl (fst (init counter_numerics (demo_hparams\<lparr>n_layers := - 1\<rparr>) 0))"
  by (simp add: init_def demo_hparams_def cell_dim_mul_def counter_numerics_def randn_scaled_def
      split: prod.splits)

text \<open>
  Claim C9, as the code has it. With \<open>n_layers \<le> 0\<close> (and a supported cell type) the
  loop over the layers is empty and construction returns a model: it keeps the given
  \<open>n_layers\<close>, and its parameter dictionary holds exactly the two embedding matrices,
  the two layer-0 input weights and the output projection, with no hidden weight and no
  bias of any layer.
\<close>

theorem init_nonpositive_layers:
  assumes "n_layers a \<le> 0" and "cell_type a \<in> {''rnn'', ''lstm''}"
  shows "\<exists>m. fst (init nm a g) = Inr m \<and> n_layers m = n_layers a \<and>
           dom (params m) = {''W_embed_enc'', ''W_embed_dec'', ''Wx_0_enc'', ''Wx_0_dec'',
                             ''W_out_dec'', ''b_out_dec''}"
proof -
  from assms(2) obtain dm where dm: "cell_dim_mul (cell_type a) = Inr dm"
    by (auto simp: cell_dim_mul_eq)
  from init_success[OF dm, of nm g] obtain ps g' where
    i: "init nm a g = (Inr (mk_seq2seq a ps), g')" and
    sh: "\<And>k. map_option shape (ps k) = init_shapes a dm k" by blast
  have d: "k \<in> dom ps \<longleftrightarrow> init_shapes a dm k \<noteq> None" for k
    by (simp add: domIff sh[symmetric])
  have e: "init_shapes a dm k \<noteq> None \<longleftrightarrow>
          k \<in> {''W_embed_enc'', ''W_embed_dec'', ''Wx_0_enc'', ''Wx_0_dec'',
                             ''W_out_dec'', ''b_out_dec''}" for k
    using assms(1) by (simp add: init_shapes_def)
  have "dom ps = {''W_embed_enc'', ''W_embed_dec'', ''Wx_0_enc'', ''Wx_0_dec'',
                             ''W_out_dec'', ''b_out_dec''}"
    by (rule set_eqI) (simp only: d e)
  with i show ?thesis by simp
qed

text \<open>
  The statement for \<open>demo_hparams\<close> with \<open>n_layers = 0\<close>.
\<close>

theorem init_nonpositive_layers_witness:
  "n_layers (demo_hparams\<lparr>n_layers := 0\<rparr>) \<le> 0 \<and>
   cell_type (demo_hparams\<lparr>n_layers := 0\<rparr>) \<in> {''rnn'', ''lstm''} \<and>
   (\<exists>m. fst (init counter_numerics (demo_hparams\<lparr>n_layers := 0\<rparr>) 0) = Inr m \<and> n_layers m = 0 \<and>
           dom (params m) = {''W_embed_enc'', ''W_embed_dec'', ''Wx_0_enc'', ''Wx_0_dec'',
                             ''W_out_dec'', ''b_out_dec''})"
  using init_nonpositive_layers[of "demo_hparams\<lparr>n_layers := 0\<rparr>" counter_numerics 0]
  by (simp add: demo_hparams_def)


section \<open>Properties of the array operations\<close>

lemma bindE_simps [simp]: "bindE (Inr x) f = f x" "bindE (Inl e) f = Inl e"
  by (simp_all add: bindE_def)

lemma bindE_eq_Inr: "bindE r f = Inr y \<longleftrightarrow> (\<exists>x. r = Inr x \<and> f x = Inr y)"
  by (cases r) simp_all

lemma lookup_eq_Inr: "lookup d k = Inr v \<longleftrightarrow> d k = Some v"
  by (simp add: lookup_def split: option.splits)

lemma broadcast2_exact:
  "nrows v = n \<Longrightarrow> ncols v = h \<Longrightarrow> broadcast2 n h v = Inr (cells2 v)"
  by (simp add: broadcast2_def)

lemma set_layer_dims:
  assumes "set_layer z i v = Inr z'"
  shows "dim0 z' = dim0 z" "dim1 z' = dim1 z" "dim2 z' = dim2 z"
  using assms by (auto simp: set_layer_def bindE_eq_Inr split: if_splits)

lemma map_nth_map2_update:
  "length ms = length rs \<Longrightarrow> list_all (\<lambda>m. i < length m) ms \<Longrightarrow>
   map (\<lambda>m. m ! i) (map2 (\<lambda>m r. m[i := r]) ms rs) = rs"
  by (induction ms rs rule: list_induct2) simp_all

lemma map_nth_map2_update_other:
  "length ms = length rs \<Longrightarrow> j \<noteq> i \<Longrightarrow>
   map (\<lambda>m. m ! j) (map2 (\<lambda>m r. m[i := f m r]) ms rs) = map (\<lambda>m. m ! j) ms"
  by (induction ms rs rule: list_induct2) simp_all

lemma wf3_layer_index: "wf3 z \<Longrightarrow> i < dim1 z \<Longrightarrow> list_all (\<lambda>m. i < length m) (cells3 z)"
  by (auto simp: wf3_def list_all_iff)

lemma get_set_layer_same:
  assumes "set_layer z i v = Inr z'" "wf3 z" "wf2 v" "nrows v = dim0 z" "ncols v = dim2 z"
  shows "get_layer z' i = Inr v"
proof -
  from assms(1) have i: "i < dim1 z" by (auto simp: set_layer_def split: if_splits)
  from assms have z': "z' = Arr3 (dim0 z) (dim1 z) (dim2 z) (map2 (\<lambda>m r. m[i := r]) (cells3 z) (cells2 v))"
    using i by (simp add: set_layer_def broadcast2_exact)
  have l: "length (cells3 z) = length (cells2 v)"
    using assms by (simp add: wf3_def wf2_def)
  have "get_layer z' i = Inr (Arr2 (dim0 z) (dim2 z)
          (map (\<lambda>m. m ! i) (map2 (\<lambda>m r. m[i := r]) (cells3 z) (cells2 v))))"
    using i unfolding z' get_layer_def by simp
  also have "\<dots> = Inr (Arr2 (nrows v) (ncols v) (cells2 v))"
    unfolding map_nth_map2_update[OF l wf3_layer_index[OF assms(2) i]] assms(4,5) ..
  finally show ?thesis by simp
qed

lemma wf2_broadcast2:
  assumes "broadcast2 n h v = Inr rows" "wf2 v"
  shows "length rows = n" "list_all (\<lambda>r. length r = h) rows"
proof -
  let ?c = "if nrows v = n then cells2 v else replicate n (hd (cells2 v))"
  let ?g = "\<lambda>r. if ncols v = h then r else replicate h (hd r)"
  from assms(1) have d: "nrows v = n \<or> nrows v = 1" "ncols v = h \<or> ncols v = 1"
    and rows: "rows = map ?g ?c"
    by (auto simp: broadcast2_def split: if_splits)
  have "nrows v \<noteq> n \<Longrightarrow> hd (cells2 v) \<in> set (cells2 v)"
    using d(1) assms(2) by (intro hd_in_set) (auto simp: wf2_def)
  hence c: "\<forall>r\<in>set ?c. length r = ncols v"
    using assms(2) by (auto simp: wf2_def list_all_iff)
  have lc: "length ?c = n" using assms(2) by (simp add: wf2_def)
  show "length rows = n" using lc unfolding rows by simp
  show "list_all (\<lambda>r. length r = h) rows"
    unfolding rows list_all_iff using c by auto
qed

lemma get_set_layer_other:
  assumes "set_layer z i v = Inr z'" "wf3 z" "wf2 v" "j \<noteq> i"
  shows "get_layer z' j = get_layer z j"
proof -
  from assms(1) obtain rows where r: "broadcast2 (dim0 z) (dim2 z) v = Inr rows"
    and z': "z' = Arr3 (dim0 z) (dim1 z) (dim2 z) (map2 (\<lambda>m r. m[i := r]) (cells3 z) rows)"
    by (auto simp: set_layer_def bindE_eq_Inr split: if_splits)
  have l: "length (cells3 z) = length rows"
    using wf2_broadcast2(1)[OF r assms(3)] assms(2) by (simp add: wf3_def)
  have "get_layer z' j = (if dim1 z \<le> j then Inl IndexError else Inr (Arr2 (dim0 z) (dim2 z)
          (map (\<lambda>m. m ! j) (map2 (\<lambda>m r. m[i := r]) (cells3 z) rows))))"
    unfolding z' get_layer_def by simp
  also have "\<dots> = get_layer z j"
    unfolding map_nth_map2_update_other[OF l assms(4), where f = "\<lambda>m r. r"] get_layer_def ..
  finally show ?thesis .
qed

lemma wf3_set_layer:
  assumes "set_layer z i v = Inr z'" "wf3 z" "wf2 v"
  shows "wf3 z'"
proof -
  from assms(1) obtain rows where r: "broadcast2 (dim0 z) (dim2 z) v = Inr rows"
    and z': "z' = Arr3 (dim0 z) (dim1 z) (dim2 z) (map2 (\<lambda>m r. m[i := r]) (cells3 z) rows)"
    by (auto simp: set_layer_def bindE_eq_Inr split: if_splits)
  note b = wf2_broadcast2[OF r assms(3)]
  show ?thesis
    using assms(2) b
    by (auto simp: z' wf3_def list_all_iff set_zip dest!: set_update_subset_insert[THEN subsetD])
qed

lemma wf3_ndarray3:
  "ndarray3 u n l h = Inr z \<Longrightarrow> wf3 z \<and> dim0 z = n \<and> dim1 z = nat l \<and> dim2 z = h"
  by (auto simp: ndarray3_def wf3_def list_all_iff split: if_splits)

lemma wf2_last_step:
  assumes "last_step a = Inr v" "wf3 a"
  shows "wf2 v \<and> nrows v = dim0 a \<and> ncols v = dim2 a"
proof -
  from assms(1) have t: "0 < dim1 a" and v: "v = Arr2 (dim0 a) (dim2 a) (map last (cells3 a))"
    by (auto simp: last_step_def split: if_splits)
  have "length (last x) = dim2 a" if "x \<in> set (cells3 a)" for x
  proof -
    from that assms(2) have "length x = dim1 a" "\<forall>r\<in>set x. length r = dim2 a"
      by (auto simp: wf3_def list_all_iff)
    with t have "last x \<in> set x" by (intro last_in_set) auto
    with \<open>\<forall>r\<in>set x. length r = dim2 a\<close> show ?thesis by blast
  qed
  thus ?thesis using assms(2) by (simp add: v wf2_def wf3_def list_all_iff)
qed

lemma reshape2_same: "nrows a = n \<Longrightarrow> ncols a = h \<Longrightarrow> reshape2 n h a = Inr a"
  by (simp add: reshape2_def)


section \<open>The forward pass: context hand-off\<close>

lemma cell_forward_shape:
  assumes "cells_keep_shape ly" "cell_forward ly m side i x h0 = Inr (h, c)"
  shows "wf3 h" "dim0 h = nrows h0" "dim2 h = ncols h0"
  using assms unfolding cells_keep_shape_def cell_forward_def
  by (auto simp: bindE_eq_Inr split: if_splits) blast+

lemma enc_loop_trace:
  assumes "enc_loop ly m h0 is (h, cs, z) = Inr (h', cs', z')"
    and "cells_keep_shape ly" and "wf3 z" and "dim0 z = nrows h0" and "dim2 z = ncols h0"
    and "distinct is"
  shows "\<exists>hs ks. length hs = length is \<and> length ks = length is \<and> cs' = cs @ ks \<and>
           h' = last (h # hs) \<and> wf3 z' \<and> dim0 z' = dim0 z \<and> dim1 z' = dim1 z \<and> dim2 z' = dim2 z \<and>
           (\<forall>k<length is. cell_forward ly m ''enc'' (is ! k) ((h # hs) ! k) h0 = Inr (hs ! k, ks ! k) \<and>
               (\<exists>v. last_step (hs ! k) = Inr v \<and> get_layer z' (is ! k) = Inr v)) \<and>
           (\<forall>j. j \<notin> set is \<longrightarrow> get_layer z' j = get_layer z j)"
  using assms
proof (induction "is" arbitrary: h cs z)
  case Nil
  then show ?case by simp
next
  case (Cons i "is")
  from Cons.prems(1) obtain h1 k1 v1 z1 where
    cf: "cell_forward ly m ''enc'' i h h0 = Inr (h1, k1)" and
    ls: "last_step h1 = Inr v1" and
    sl: "set_layer z i v1 = Inr z1" and
    rest: "enc_loop ly m h0 is (h1, cs @ [k1], z1) = Inr (h', cs', z')"
    by (auto simp: bindE_eq_Inr)
  note sh = cell_forward_shape[OF Cons.prems(2) cf]
  from wf2_last_step[OF ls sh(1)] have v1: "wf2 v1" "nrows v1 = dim0 z" "ncols v1 = dim2 z"
    using sh Cons.prems(4,5) by simp_all
  note d1 = set_layer_dims[OF sl]
  have wz1: "wf3 z1" by (rule wf3_set_layer[OF sl Cons.prems(3) v1(1)])
  from Cons.prems(6) have di: "distinct is" and ni: "i \<notin> set is" by simp_all
  from Cons.IH[OF rest Cons.prems(2) wz1 _ _ di] d1 Cons.prems(4,5)
  obtain hs ks where
    l: "length hs = length is" "length ks = length is" and
    c: "cs' = (cs @ [k1]) @ ks" and hl: "h' = last (h1 # hs)" and
    wz': "wf3 z'" and dz': "dim0 z' = dim0 z1" "dim1 z' = dim1 z1" "dim2 z' = dim2 z1" and
    tr: "\<forall>k<length is. cell_forward ly m ''enc'' (is ! k) ((h1 # hs) ! k) h0 = Inr (hs ! k, ks ! k) \<and>
               (\<exists>v. last_step (hs ! k) = Inr v \<and> get_layer z' (is ! k) = Inr v)" and
    fr: "\<forall>j. j \<notin> set is \<longrightarrow> get_layer z' j = get_layer z1 j"
    by auto
  have gi: "get_layer z' i = Inr v1"
    using fr ni get_set_layer_same[OF sl Cons.prems(3) v1] by simp
  have step: "cell_forward ly m ''enc'' ((i # is) ! k) ((h # h1 # hs) ! k) h0 = Inr ((h1 # hs) ! k, (k1 # ks) ! k) \<and>
               (\<exists>v. last_step ((h1 # hs) ! k) = Inr v \<and> get_layer z' ((i # is) ! k) = Inr v)"
    if "k < length (i # is)" for k
  proof (cases k)
    case 0
    then show ?thesis using cf ls gi by simp
  next
    case (Suc k')
    with that tr show ?thesis by simp
  qed
  have frame: "get_layer z' j = get_layer z j" if "j \<notin> set (i # is)" for j
    using that fr get_set_layer_other[OF sl Cons.prems(3) v1(1), of j] by simp
  show ?case
    apply (rule exI[of _ "h1 # hs"], rule exI[of _ "k1 # ks"])
    using l c hl wz' dz' d1 step frame by simp
qed

lemma dec_loop_trace:
  assumes "dec_loop ly m n hh z is (h, cs) = Inr (h', cs')" and "dim0 z = n" and "dim2 z = hh"
  shows "\<exists>hs ks. length hs = length is \<and> length ks = length is \<and> cs' = cs @ ks \<and>
           h' = last (h # hs) \<and>
           (\<forall>k<length is. \<exists>h0. get_layer z (is ! k) = Inr h0 \<and>
               cell_forward ly m ''dec'' (is ! k) ((h # hs) ! k) h0 = Inr (hs ! k, ks ! k))"
  using assms
proof (induction "is" arbitrary: h cs)
  case Nil
  then show ?case by simp
next
  case (Cons i "is")
  from Cons.prems(1) obtain zi h0 h1 k1 where
    gl: "get_layer z i = Inr zi" and rs: "reshape2 n hh zi = Inr h0" and
    cf: "cell_forward ly m ''dec'' i h h0 = Inr (h1, k1)" and
    rest: "dec_loop ly m n hh z is (h1, cs @ [k1]) = Inr (h', cs')"
    by (auto simp: bindE_eq_Inr)
  from gl Cons.prems(2,3) have "nrows zi = n" "ncols zi = hh"
    by (auto simp: get_layer_def split: if_splits)
  with rs have h0: "h0 = zi" by (simp add: reshape2_same)
  from Cons.IH[OF rest Cons.prems(2,3)] obtain hs ks where
    l: "length hs = length is" "length ks = length is" and
    c: "cs' = (cs @ [k1]) @ ks" and hl: "h' = last (h1 # hs)" and
    tr: "\<forall>k<length is. \<exists>h0. get_layer z (is ! k) = Inr h0 \<and>
               cell_forward ly m ''dec'' (is ! k) ((h1 # hs) ! k) h0 = Inr (hs ! k, ks ! k)"
    by auto
  have step: "\<exists>h0. get_layer z ((i # is) ! k) = Inr h0 \<and>
               cell_forward ly m ''dec'' ((i # is) ! k) ((h # h1 # hs) ! k) h0 = Inr ((h1 # hs) ! k, (k1 # ks) ! k)"
    if "k < length (i # is)" for k
  proof (cases k)
    case 0
    then show ?thesis using gl cf h0 by simp
  next
    case (Suc k')
    with that tr show ?thesis by simp
  qed
  show ?case
    apply (rule exI[of _ "h1 # hs"], rule exI[of _ "k1 # ks"])
    using l c hl step by simp
qed


lemma forward_Inr_iff:
  "fst (forward ly m src trg) = Inr (scores, cs) \<longleftrightarrow>
   (\<exists>w_ee src_embeds z0 h_enc z w_ed trg_embeds h_dec att_out dec_out w_out b_out.
      params m ''W_embed_enc'' = Some w_ee \<and>
      word_embedding_forward ly src w_ee = Inr (src_embeds, enc_embed_cache cs) \<and>
      ndarray3 (uninit ly) (nrows src) (n_layers m) (hidden_dim m) = Inr z0 \<and>
      enc_loop ly m (zeros2 (nrows src) (hidden_dim m)) [0 ..< nat (n_layers m)] (src_embeds, [], z0)
        = Inr (h_enc, enc_caches cs, z) \<and>
      params m ''W_embed_dec'' = Some w_ed \<and>
      word_embedding_forward ly trg w_ed = Inr (trg_embeds, dec_embed_cache cs) \<and>
      dec_loop ly m (nrows src) (hidden_dim m) z [0 ..< nat (n_layers m)] (trg_embeds, [])
        = Inr (h_dec, dec_caches cs) \<and>
      temporal_attention_forward ly h_dec h_enc = Inr (att_out, att_cache cs) \<and>
      (if attention m then append_features h_dec att_out else Inr h_dec) = Inr dec_out \<and>
      params m ''W_out_dec'' = Some w_out \<and>
      params m ''b_out_dec'' = Some b_out \<and>
      temporal_affine_forward ly dec_out w_out b_out = Inr (scores, dec_out_cache cs))"
  unfolding forward_def Let_def fst_conv
  by (cases cs; cases "attention m") (auto simp: bindE_eq_Inr lookup_eq_Inr)

lemma forward_run:
  assumes "fst (forward ly m src trg) = Inr (scores, cs)" and "cells_keep_shape ly"
  shows "length (enc_caches cs) = nat (n_layers m) \<and> length (dec_caches cs) = nat (n_layers m) \<and>
    (\<exists>src_embeds trg_embeds ehs dhs.
       length ehs = nat (n_layers m) \<and> length dhs = nat (n_layers m) \<and>
       (\<exists>w. params m ''W_embed_enc'' = Some w \<and>
            word_embedding_forward ly src w = Inr (src_embeds, enc_embed_cache cs)) \<and>
       (\<exists>w. params m ''W_embed_dec'' = Some w \<and>
            word_embedding_forward ly trg w = Inr (trg_embeds, dec_embed_cache cs)) \<and>
       (\<forall>i<nat (n_layers m). \<exists>h0.
          cell_forward ly m ''enc'' i ((src_embeds # ehs) ! i) (zeros2 (nrows src) (hidden_dim m))
            = Inr (ehs ! i, enc_caches cs ! i) \<and>
          last_step (ehs ! i) = Inr h0 \<and>
          cell_forward ly m ''dec'' i ((trg_embeds # dhs) ! i) h0 = Inr (dhs ! i, dec_caches cs ! i)))"
proof -
  let ?N = "nrows src" and ?H = "hidden_dim m" and ?L = "nat (n_layers m)"
  from assms(1)[unfolded forward_Inr_iff] obtain w_ee src_embeds z0 h_enc z w_ed trg_embeds h_dec where
    we: "params m ''W_embed_enc'' = Some w_ee"
      "word_embedding_forward ly src w_ee = Inr (src_embeds, enc_embed_cache cs)" and
    z0: "ndarray3 (uninit ly) ?N (n_layers m) ?H = Inr z0" and
    el: "enc_loop ly m (zeros2 ?N ?H) [0 ..< ?L] (src_embeds, [], z0) = Inr (h_enc, enc_caches cs, z)" and
    wd: "params m ''W_embed_dec'' = Some w_ed"
      "word_embedding_forward ly trg w_ed = Inr (trg_embeds, dec_embed_cache cs)" and
    dl: "dec_loop ly m ?N ?H z [0 ..< ?L] (trg_embeds, []) = Inr (h_dec, dec_caches cs)"
    by blast
  from wf3_ndarray3[OF z0] have wz0: "wf3 z0" "dim0 z0 = ?N" "dim2 z0 = ?H" by simp_all
  from enc_loop_trace[OF el assms(2) wz0(1)] wz0 obtain ehs eks where
    e: "length ehs = ?L" "enc_caches cs = eks" "dim0 z = ?N" "dim2 z = ?H" and
    et: "\<forall>k<?L. cell_forward ly m ''enc'' k ((src_embeds # ehs) ! k) (zeros2 ?N ?H) = Inr (ehs ! k, eks ! k) \<and>
               (\<exists>v. last_step (ehs ! k) = Inr v \<and> get_layer z k = Inr v)" and
    ekl: "length eks = ?L"
    by (auto simp: zeros2_def)
  from dec_loop_trace[OF dl e(3,4)] obtain dhs dks where
    d: "length dhs = ?L" "dec_caches cs = dks" "length dks = ?L" and
    dt: "\<forall>k<?L. \<exists>h0. get_layer z k = Inr h0 \<and>
               cell_forward ly m ''dec'' k ((trg_embeds # dhs) ! k) h0 = Inr (dhs ! k, dks ! k)"
    by auto
  have "\<exists>h0. cell_forward ly m ''enc'' i ((src_embeds # ehs) ! i) (zeros2 ?N ?H)
            = Inr (ehs ! i, enc_caches cs ! i) \<and>
          last_step (ehs ! i) = Inr h0 \<and>
          cell_forward ly m ''dec'' i ((trg_embeds # dhs) ! i) h0 = Inr (dhs ! i, dec_caches cs ! i)"
    if "i < ?L" for i
    using et[rule_format, OF that] dt[rule_format, OF that] e(2) d(2) by auto
  with we wd e(1,2) ekl d show ?thesis by blast
qed

lemma cell_forward_Inr_iff:
  "cell_forward ly m side i x h0 = Inr r \<longleftrightarrow>
   (\<exists>wx wh b. params m (pname ''Wx'' i side) = Some wx \<and>
      params m (pname ''Wh'' i side) = Some wh \<and> params m (pname ''b'' i side) = Some b \<and>
      (cell_type m = ''rnn'' \<and> recurrent_forward ly x h0 wx wh b = Inr r \<or>
       cell_type m = ''lstm'' \<and> lstm_forward ly x h0 wx wh b = Inr r))"
  unfolding cell_forward_def by (auto simp: bindE_eq_Inr lookup_eq_Inr)

lemma last_step_entries:
  assumes "last_step a = Inr v" and "wf3 a"
  shows "is_last_step a v"
proof -
  from assms(1) have t: "0 < dim1 a" and v: "v = Arr2 (dim0 a) (dim2 a) (map last (cells3 a))"
    by (auto simp: last_step_def split: if_splits)
  note w = wf2_last_step[OF assms]
  have "cells2 v ! n ! k = cells3 a ! n ! (dim1 a - 1) ! k" if "n < dim0 a" for n k
  proof -
    from that assms(2) have "length (cells3 a ! n) = dim1 a" "n < length (cells3 a)"
      by (auto simp: wf3_def list_all_iff)
    with t have "cells3 a ! n \<noteq> []" by auto
    hence "last (cells3 a ! n) = cells3 a ! n ! (dim1 a - 1)"
      using \<open>length (cells3 a ! n) = dim1 a\<close> by (simp add: last_conv_nth)
    with \<open>n < length (cells3 a)\<close> show ?thesis by (simp add: v)
  qed
  with t w show ?thesis by (simp add: is_last_step_def)
qed

lemma all_zero2_zeros2: "all_zero2 (zeros2 n h)" "nrows (zeros2 n h) = n" "ncols (zeros2 n h) = h"
  by (simp_all add: all_zero2_def zeros2_def wf2_def list_all_iff)

text \<open>
  Claim C2. Whenever \<^verbatim>\<open>_forward\<close> returns, and the recurrent primitives return hidden
  states of the shape of their initial state, the run has the form \<open>forward_trace\<close>: the
  encoder and the decoder both ran \<open>n_layers\<close> layers (one cache each), and for every
  layer index \<open>i < n_layers\<close> the recurrent primitive of decoder layer \<open>i\<close> was called
  with an initial state \<open>h0\<close> of shape \<open>(N, H)\<close> whose entry \<open>(n, k)\<close> is entry
  \<open>(n, T - 1, k)\<close> of the hidden states \<open>ehs ! i\<close> that the primitive of encoder layer \<open>i\<close>
  returned: a pairing layer by layer, not one shared vector. Encoder layers start from
  an all-zero state.
\<close>

theorem forward_context_pairing:
  assumes "fst (forward ly m src trg) = Inr (scores, cs)" and "cells_keep_shape ly"
  shows "\<exists>src_embeds trg_embeds ehs dhs.
       (\<exists>w. params m ''W_embed_enc'' = Some w \<and>
            word_embedding_forward ly src w = Inr (src_embeds, enc_embed_cache cs)) \<and>
       (\<exists>w. params m ''W_embed_dec'' = Some w \<and>
            word_embedding_forward ly trg w = Inr (trg_embeds, dec_embed_cache cs)) \<and>
       forward_trace ly m src cs src_embeds trg_embeds ehs dhs"
proof -
  let ?N = "nrows src" and ?H = "hidden_dim m" and ?L = "nat (n_layers m)"
  from forward_run[OF assms] obtain src_embeds trg_embeds ehs dhs where
    l: "length (enc_caches cs) = ?L" "length (dec_caches cs) = ?L" "length ehs = ?L" "length dhs = ?L" and
    we: "\<exists>w. params m ''W_embed_enc'' = Some w \<and>
            word_embedding_forward ly src w = Inr (src_embeds, enc_embed_cache cs)" and
    wd: "\<exists>w. params m ''W_embed_dec'' = Some w \<and>
            word_embedding_forward ly trg w = Inr (trg_embeds, dec_embed_cache cs)" and
    tr: "\<forall>i<?L. \<exists>h0.
          cell_forward ly m ''enc'' i ((src_embeds # ehs) ! i) (zeros2 ?N ?H)
            = Inr (ehs ! i, enc_caches cs ! i) \<and>
          last_step (ehs ! i) = Inr h0 \<and>
          cell_forward ly m ''dec'' i ((trg_embeds # dhs) ! i) h0 = Inr (dhs ! i, dec_caches cs ! i)"
    by blast
  have layer: "\<exists>h0e h0 ewx ewh eb dwx dwh db.
         params m (pname ''Wx'' i ''enc'') = Some ewx \<and>
         params m (pname ''Wh'' i ''enc'') = Some ewh \<and>
         params m (pname ''b'' i ''enc'') = Some eb \<and>
         (cell_type m = ''rnn'' \<and>
            recurrent_forward ly ((src_embeds # ehs) ! i) h0e ewx ewh eb
              = Inr (ehs ! i, enc_caches cs ! i) \<or>
          cell_type m = ''lstm'' \<and>
            lstm_forward ly ((src_embeds # ehs) ! i) h0e ewx ewh eb
              = Inr (ehs ! i, enc_caches cs ! i)) \<and>
         all_zero2 h0e \<and> nrows h0e = nrows src \<and> ncols h0e = hidden_dim m \<and>
         params m (pname ''Wx'' i ''dec'') = Some dwx \<and>
         params m (pname ''Wh'' i ''dec'') = Some dwh \<and>
         params m (pname ''b'' i ''dec'') = Some db \<and>
         (cell_type m = ''rnn'' \<and>
            recurrent_forward ly ((trg_embeds # dhs) ! i) h0 dwx dwh db
              = Inr (dhs ! i, dec_caches cs ! i) \<or>
          cell_type m = ''lstm'' \<and>
            lstm_forward ly ((trg_embeds # dhs) ! i) h0 dwx dwh db
              = Inr (dhs ! i, dec_caches cs ! i)) \<and>
         wf3 (ehs ! i) \<and> is_last_step (ehs ! i) h0 \<and>
         nrows h0 = nrows src \<and> ncols h0 = hidden_dim m" if i: "i < ?L" for i
  proof -
    from tr[rule_format, OF i] obtain h0 where
      ce: "cell_forward ly m ''enc'' i ((src_embeds # ehs) ! i) (zeros2 ?N ?H)
            = Inr (ehs ! i, enc_caches cs ! i)" and
      ls: "last_step (ehs ! i) = Inr h0" and
      cd: "cell_forward ly m ''dec'' i ((trg_embeds # dhs) ! i) h0 = Inr (dhs ! i, dec_caches cs ! i)"
      by blast
    note sh = cell_forward_shape[OF assms(2) ce]
    note il = last_step_entries[OF ls sh(1)]
    from il sh(2,3) have d: "nrows h0 = ?N" "ncols h0 = ?H"
      by (simp_all add: is_last_step_def all_zero2_zeros2)
    from ce[unfolded cell_forward_Inr_iff] obtain ewx ewh eb where
      e: "params m (pname ''Wx'' i ''enc'') = Some ewx" "params m (pname ''Wh'' i ''enc'') = Some ewh"
        "params m (pname ''b'' i ''enc'') = Some eb"
        "cell_type m = ''rnn'' \<and> recurrent_forward ly ((src_embeds # ehs) ! i) (zeros2 ?N ?H) ewx ewh eb
              = Inr (ehs ! i, enc_caches cs ! i) \<or>
         cell_type m = ''lstm'' \<and> lstm_forward ly ((src_embeds # ehs) ! i) (zeros2 ?N ?H) ewx ewh eb
              = Inr (ehs ! i, enc_caches cs ! i)"
      by blast
    from cd[unfolded cell_forward_Inr_iff] obtain dwx dwh db where
      dd: "params m (pname ''Wx'' i ''dec'') = Some dwx" "params m (pname ''Wh'' i ''dec'') = Some dwh"
        "params m (pname ''b'' i ''dec'') = Some db"
        "cell_type m = ''rnn'' \<and> recurrent_forward ly ((trg_embeds # dhs) ! i) h0 dwx dwh db
              = Inr (dhs ! i, dec_caches cs ! i) \<or>
         cell_type m = ''lstm'' \<and> lstm_forward ly ((trg_embeds # dhs) ! i) h0 dwx dwh db
              = Inr (dhs ! i, dec_caches cs ! i)"
      by blast
    show ?thesis
      apply (rule exI[of _ "zeros2 ?N ?H"], rule exI[of _ h0])
      apply (rule exI[of _ ewx], rule exI[of _ ewh], rule exI[of _ eb])
      apply (rule exI[of _ dwx], rule exI[of _ dwh], rule exI[of _ db])
      using e dd sh(1) il d all_zero2_zeros2[of ?N ?H] by simp
  qed
  have "forward_trace ly m src cs src_embeds trg_embeds ehs dhs"
    unfolding forward_trace_def Let_def using l layer by simp
  with we wd show ?thesis by blast
qed

lemma wf3_tab3 [simp]: "wf3 (tab3 n t h f)" "dim0 (tab3 n t h f) = n" "dim1 (tab3 n t h f) = t"
  "dim2 (tab3 n t h f) = h"
  by (simp_all add: tab3_def wf3_def list_all_iff)

lemma wf2_tab2 [simp]: "wf2 (tab2 n h f)" "nrows (tab2 n h f) = n" "ncols (tab2 n h f) = h"
  by (simp_all add: tab2_def wf2_def list_all_iff)

lemma toy_cells_keep_shape: "cells_keep_shape toy_layers"
  by (auto simp: cells_keep_shape_def toy_layers_def toy_cell_forward_def)

lemma demo_forward_Inr:
  "fst (forward toy_layers demo_model demo_src (drop_last_col demo_trg)) = Inr (fst demo_forward, snd demo_forward)"
proof -
  have "\<not> isl (fst (forward toy_layers demo_model demo_src (drop_last_col demo_trg)))"
    by code_simp
  thus ?thesis by (simp add: demo_forward_def)
qed

text \<open>
  The statement for the demo model and the integer stand-ins of the primitives.
\<close>

theorem forward_context_pairing_witness:
  "fst (forward toy_layers demo_model demo_src (drop_last_col demo_trg))
     = Inr (fst demo_forward, snd demo_forward) \<and>
   cells_keep_shape toy_layers \<and>
   (\<exists>src_embeds trg_embeds ehs dhs.
       (\<exists>w. params demo_model ''W_embed_enc'' = Some w \<and>
            word_embedding_forward toy_layers demo_src w
              = Inr (src_embeds, enc_embed_cache (snd demo_forward))) \<and>
       (\<exists>w. params demo_model ''W_embed_dec'' = Some w \<and>
            word_embedding_forward toy_layers (drop_last_col demo_trg) w
              = Inr (trg_embeds, dec_embed_cache (snd demo_forward))) \<and>
       forward_trace toy_layers demo_model demo_src (snd demo_forward) src_embeds trg_embeds ehs dhs)"
  using forward_context_pairing[OF demo_forward_Inr toy_cells_keep_shape]
    demo_forward_Inr toy_cells_keep_shape by blast

section \<open>The backward pass: context gradient\<close>

lemma iadd_layer_dims:
  assumes "iadd_layer z i v = Inr z'"
  shows "dim0 z' = dim0 z" "dim1 z' = dim1 z" "dim2 z' = dim2 z" "i < dim1 z"
  using assms by (auto simp: iadd_layer_def bindE_eq_Inr split: if_splits)

lemma map2_update_nth_same:
  "length ms = length rs \<Longrightarrow> list_all (\<lambda>m. i < length m) ms \<Longrightarrow>
   map (\<lambda>m. m ! i) (map2 (\<lambda>m r. m[i := f (m ! i) r]) ms rs) = map2 f (map (\<lambda>m. m ! i) ms) rs"
  by (induction ms rs rule: list_induct2) simp_all

lemma get_iadd_layer_same:
  assumes "iadd_layer z i v = Inr z'" "wf3 z" "wf2 v" "get_layer z i = Inr zi"
  shows "bindE (get_layer z' i) (\<lambda>a. Inr a) = add2 zi v" "get_layer z' i = add2 zi v"
proof -
  from assms(1) obtain rows where r: "broadcast2 (dim0 z) (dim2 z) v = Inr rows"
    and z': "z' = Arr3 (dim0 z) (dim1 z) (dim2 z)
                    (map2 (\<lambda>m r. m[i := map2 (+) (m ! i) r]) (cells3 z) rows)"
    and i: "i < dim1 z"
    by (auto simp: iadd_layer_def bindE_eq_Inr split: if_splits)
  have l: "length (cells3 z) = length rows"
    using wf2_broadcast2(1)[OF r assms(3)] assms(2) by (simp add: wf3_def)
  from assms(4) i have zi: "zi = Arr2 (dim0 z) (dim2 z) (map (\<lambda>m. m ! i) (cells3 z))"
    by (simp add: get_layer_def)
  have "get_layer z' i = Inr (Arr2 (dim0 z) (dim2 z)
          (map (\<lambda>m. m ! i) (map2 (\<lambda>m r. m[i := map2 (+) (m ! i) r]) (cells3 z) rows)))"
    using i unfolding z' get_layer_def by simp
  also have "\<dots> = Inr (Arr2 (dim0 z) (dim2 z) (map2 (map2 (+)) (map (\<lambda>m. m ! i) (cells3 z)) rows))"
    unfolding map2_update_nth_same[OF l wf3_layer_index[OF assms(2) i], where f = "map2 (+)"] ..
  also have "\<dots> = add2 zi v"
    by (simp add: add2_def zi r)
  finally show "get_layer z' i = add2 zi v" .
  thus "bindE (get_layer z' i) (\<lambda>a. Inr a) = add2 zi v"
    by (cases "add2 zi v") simp_all
qed

lemma get_iadd_layer_other:
  assumes "iadd_layer z i v = Inr z'" "wf3 z" "wf2 v" "j \<noteq> i"
  shows "get_layer z' j = get_layer z j"
proof -
  from assms(1) obtain rows where r: "broadcast2 (dim0 z) (dim2 z) v = Inr rows"
    and z': "z' = Arr3 (dim0 z) (dim1 z) (dim2 z)
                    (map2 (\<lambda>m r. m[i := map2 (+) (m ! i) r]) (cells3 z) rows)"
    by (auto simp: iadd_layer_def bindE_eq_Inr split: if_splits)
  have l: "length (cells3 z) = length rows"
    using wf2_broadcast2(1)[OF r assms(3)] assms(2) by (simp add: wf3_def)
  have "get_layer z' j = (if dim1 z \<le> j then Inl IndexError else Inr (Arr2 (dim0 z) (dim2 z)
          (map (\<lambda>m. m ! j) (map2 (\<lambda>m r. m[i := map2 (+) (m ! i) r]) (cells3 z) rows))))"
    unfolding z' get_layer_def by simp
  also have "\<dots> = get_layer z j"
    unfolding map_nth_map2_update_other[OF l assms(4), where f = "\<lambda>m r. map2 (+) (m ! i) r"]
      get_layer_def ..
  finally show ?thesis .
qed

lemma wf3_iadd_layer:
  assumes "iadd_layer z i v = Inr z'" "wf3 z" "wf2 v"
  shows "wf3 z'"
proof -
  from assms(1) obtain rows where r: "broadcast2 (dim0 z) (dim2 z) v = Inr rows"
    and z': "z' = Arr3 (dim0 z) (dim1 z) (dim2 z)
                    (map2 (\<lambda>m r. m[i := map2 (+) (m ! i) r]) (cells3 z) rows)"
    and i: "i < dim1 z"
    by (auto simp: iadd_layer_def bindE_eq_Inr split: if_splits)
  note b = wf2_broadcast2[OF r assms(3)]
  have "length (m[i := map2 (+) (m ! i) r]) = dim1 z \<and>
        (\<forall>x\<in>set (m[i := map2 (+) (m ! i) r]). length x = dim2 z)"
    if "m \<in> set (cells3 z)" "r \<in> set rows" for m r
  proof -
    from that assms(2) have m: "length m = dim1 z" "\<forall>x\<in>set m. length x = dim2 z"
      by (auto simp: wf3_def list_all_iff)
    from that b(2) have lr: "length r = dim2 z" by (auto simp: list_all_iff)
    from m i have "length (m ! i) = dim2 z" by simp
    with lr have "length (map2 (+) (m ! i) r) = dim2 z" by simp
    with m show ?thesis
      using set_update_subset_insert[of m i "map2 (+) (m ! i) r"] by auto
  qed
  hence "\<forall>p\<in>set (zip (cells3 z) rows).
           length ((fst p)[i := map2 (+) (fst p ! i) (snd p)]) = dim1 z \<and>
           (\<forall>x\<in>set ((fst p)[i := map2 (+) (fst p ! i) (snd p)]). length x = dim2 z)"
    by (metis set_zip_leftD set_zip_rightD prod.collapse)
  thus ?thesis
    using assms(2) b(1) unfolding z' wf3_def list_all_iff
    by (auto simp: case_prod_beta)
qed

lemma wf3_zeros3 [simp]: "wf3 (zeros3 n t h)" "dim0 (zeros3 n t h) = n" "dim1 (zeros3 n t h) = t"
  "dim2 (zeros3 n t h) = h"
  by (simp_all add: zeros3_def wf3_def list_all_iff)

lemma get_layer_zeros3: "i < t \<Longrightarrow> get_layer (zeros3 n t h) i = Inr (zeros2 n h)"
  by (simp add: get_layer_def zeros3_def zeros2_def)

lemma zeros3_int_eq_Inr: "zeros3_int n l h = Inr z \<longleftrightarrow> 0 \<le> l \<and> z = zeros3 n (nat l) h"
  by (auto simp: zeros3_int_def)

lemma pop_eq_Inr: "pop xs = Inr (c, rest) \<longleftrightarrow> xs \<noteq> [] \<and> c = last xs \<and> rest = butlast xs"
  by (auto simp: pop_def)

lemma cell_backward_Inr:
  assumes "cell_backward ly m dh caches = Inr ((dx, dh0, dWx, dWh, db), rest)"
  shows "caches \<noteq> []" "rest = butlast caches" "cells_back_wf ly \<Longrightarrow> wf2 dh0"
  using assms unfolding cell_backward_def cells_back_wf_def
  by (auto simp: bindE_eq_Inr pop_eq_Inr split: if_splits) blast+

lemma broadcast2_entries:
  assumes "broadcast2 n h v = Inr rows" and "wf2 v" and "i < n" and "k < h"
  shows "rows ! i ! k = cells2 v ! (if nrows v = n then i else 0) ! (if ncols v = h then k else 0)"
proof -
  let ?src = "if nrows v = n then cells2 v else replicate n (hd (cells2 v))"
  let ?f = "\<lambda>r. if ncols v = h then r else replicate h (hd r)"
  let ?i = "if nrows v = n then i else 0"
  from assms(1) have c: "nrows v = n \<or> nrows v = 1" "ncols v = h \<or> ncols v = 1"
    and rows: "rows = map ?f ?src"
    by (auto simp: broadcast2_def split: if_splits)
  from assms(2) have lv: "length (cells2 v) = nrows v" by (simp add: wf2_def)
  have li: "?i < length (cells2 v)" using c(1) assms(3) lv by auto
  have ne: "cells2 v \<noteq> []" using li by auto
  have ls: "i < length ?src" using assms(3) lv by simp
  have si: "?src ! i = cells2 v ! ?i" using assms(3) ne by (simp add: hd_conv_nth)
  have lr: "length (cells2 v ! ?i) = ncols v"
    using li assms(2) by (auto simp: wf2_def list_all_iff)
  have ne': "ncols v \<noteq> h \<Longrightarrow> cells2 v ! ?i \<noteq> []" using lr c(2) by auto
  have "rows ! i = ?f (cells2 v ! ?i)" using ls si unfolding rows by (simp only: nth_map)
  thus ?thesis using assms(4) ne' by (simp add: hd_conv_nth)
qed

lemma add2_zeros2_entries:
  assumes "add2 (zeros2 n h) v = Inr r" and "wf2 v"
  shows "is_zero_plus n h v r"
proof -
  from assms(1) obtain rows where b: "broadcast2 n h v = Inr rows"
    and r: "r = Arr2 n h (map2 (map2 (+)) (replicate n (replicate h 0)) rows)"
    by (auto simp: add2_def zeros2_def bindE_eq_Inr)
  note w = wf2_broadcast2[OF b assms(2)]
  have lr: "length (rows ! i) = h" if "i < n" for i
    using that w by (auto simp: list_all_length)
  have e: "cells2 r ! i ! k =
        0 + cells2 v ! (if nrows v = n then i else 0) ! (if ncols v = h then k else 0)"
    if "i < n" "k < h" for i k
    using that w(1) lr[OF that(1)] broadcast2_entries[OF b assms(2) that] by (simp add: r)
  have "wf2 r" using w(1) lr by (simp add: r wf2_def list_all_length)
  with e show ?thesis by (simp add: is_zero_plus_def r)
qed

lemma iadd_last_step_entries:
  assumes "iadd_last_step a v = Inr e" and "wf3 a" and "wf2 v"
  shows "is_last_step_plus a v e"
proof -
  let ?t = "dim1 a - 1"
  from assms(1) obtain rows where t: "0 < dim1 a"
    and b: "broadcast2 (dim0 a) (dim2 a) v = Inr rows"
    and e: "e = Arr3 (dim0 a) (dim1 a) (dim2 a)
              (map2 (\<lambda>m r. m[?t := map2 (+) (last m) r]) (cells3 a) rows)"
    by (auto simp: iadd_last_step_def bindE_eq_Inr split: if_splits)
  note w = wf2_broadcast2[OF b assms(3)]
  from assms(2) have la: "length (cells3 a) = dim0 a" by (simp add: wf3_def)
  have lr: "length (rows ! n) = dim2 a" if "n < dim0 a" for n
    using that w by (auto simp: list_all_length)
  have lm: "length (cells3 a ! n) = dim1 a" if "n < dim0 a" for n
    using that assms(2) by (auto simp: wf3_def list_all_length)
  have lc: "length (cells3 a ! n ! t) = dim2 a" if "n < dim0 a" "t < dim1 a" for n t
    using that assms(2) by (auto simp: wf3_def list_all_length)
  have last: "last (cells3 a ! n) = cells3 a ! n ! ?t" if "n < dim0 a" for n
  proof -
    from lm[OF that] t have "cells3 a ! n \<noteq> []" by auto
    thus ?thesis using lm[OF that] by (simp add: last_conv_nth)
  qed
  have row: "cells3 e ! n = (cells3 a ! n)[?t := map2 (+) (cells3 a ! n ! ?t) (rows ! n)]"
    if "n < dim0 a" for n
    using that la w(1) last[OF that] by (simp add: e)
  have ent: "cells3 e ! n ! t ! k =
        (if t = ?t
         then cells3 a ! n ! t ! k +
              cells2 v ! (if nrows v = dim0 a then n else 0) ! (if ncols v = dim2 a then k else 0)
         else cells3 a ! n ! t ! k)"
    if "n < dim0 a" "t < dim1 a" "k < dim2 a" for n t k
    using that lm[OF that(1)] lr[OF that(1)] lc[OF that(1), of ?t] t
      broadcast2_entries[OF b assms(3) that(1,3)]
    by (simp add: row)
  have wf: "wf3 e"
    unfolding wf3_def list_all_length
  proof (intro conjI allI impI)
    show "length (cells3 e) = dim0 e" using la w(1) by (simp add: e)
  next
    fix n assume "n < length (cells3 e)"
    hence n: "n < dim0 a" using la w(1) by (simp add: e)
    show "length (cells3 e ! n) = dim1 e" using lm[OF n] by (simp add: row[OF n]) (simp add: e)
  next
    fix n j assume "n < length (cells3 e)" "j < length (cells3 e ! n)"
    hence n: "n < dim0 a" and j: "j < dim1 a" using la w(1) lm by (simp_all add: e)
    have "length (cells3 e ! n ! j) = dim2 a"
      using lm[OF n] lr[OF n] lc[OF n j] lc[OF n, of ?t] t j
      by (simp add: row[OF n] nth_list_update)
    thus "length (cells3 e ! n ! j) = dim2 e" by (simp add: e)
  qed
  from t wf ent show ?thesis by (simp add: is_last_step_plus_def e)
qed

lemma all_zero3_zeros3: "all_zero3 (zeros3 n t h)"
  by (simp add: all_zero3_def zeros3_def wf3_def list_all_iff)

lemma cell_backward_take:
  assumes "cell_backward ly m dh (take (Suc i) caches) = Inr (r, rest)" and "i < length caches"
  shows "cell_type m = ''rnn'' \<and> recurrent_backward ly dh (caches ! i) = Inr r \<or>
         cell_type m = ''lstm'' \<and> lstm_backward ly dh (caches ! i) = Inr r"
proof -
  from assms(2) have "last (take (Suc i) caches) = caches ! i"
    by (simp add: take_Suc_conv_app_nth)
  with assms(1) show ?thesis
    unfolding cell_backward_def
    by (auto simp: bindE_eq_Inr pop_eq_Inr split: if_splits)
qed

lemma cell_backward_wf:
  assumes "cell_backward ly m dh caches = Inr ((dx, dh0, dWx, dWh, db), rest)" and "cells_back_wf ly"
  shows "wf3 dx" "wf2 dh0"
  using assms unfolding cell_backward_def cells_back_wf_def
  by (auto simp: bindE_eq_Inr pop_eq_Inr split: if_splits) blast+

lemma pname_dec_distinct [simp]:
  "pname ''Wx'' i ''dec'' \<noteq> pname ''Wh'' j ''dec''" "pname ''Wh'' i ''dec'' \<noteq> pname ''Wx'' j ''dec''"
  "pname ''Wx'' i ''dec'' \<noteq> pname ''b'' j ''dec''" "pname ''b'' i ''dec'' \<noteq> pname ''Wx'' j ''dec''"
  "pname ''Wh'' i ''dec'' \<noteq> pname ''b'' j ''dec''" "pname ''b'' i ''dec'' \<noteq> pname ''Wh'' j ''dec''"
  "pname ''Wx'' i ''enc'' \<noteq> pname ''Wh'' j ''enc''" "pname ''Wh'' i ''enc'' \<noteq> pname ''Wx'' j ''enc''"
  "pname ''Wx'' i ''enc'' \<noteq> pname ''b'' j ''enc''" "pname ''b'' i ''enc'' \<noteq> pname ''Wx'' j ''enc''"
  "pname ''Wh'' i ''enc'' \<noteq> pname ''b'' j ''enc''" "pname ''b'' i ''enc'' \<noteq> pname ''Wh'' j ''enc''"
  "pname p i ''enc'' \<noteq> pname q j ''dec''" "pname p i ''dec'' \<noteq> pname q j ''enc''"
  "pname ''Wx'' i s \<noteq> ''W_embed_dec''" "pname ''Wh'' i s \<noteq> ''W_embed_dec''" "pname ''b'' i s \<noteq> ''W_embed_dec''"
  "pname ''Wx'' i s \<noteq> ''W_embed_enc''" "pname ''Wh'' i s \<noteq> ''W_embed_enc''" "pname ''b'' i s \<noteq> ''W_embed_enc''"
  by (simp_all add: pname_eq_iff pname_b_Wx pname_b_Wx[symmetric]) (simp_all add: pname_def)

lemma keys_disjoint:
  "i \<noteq> j \<Longrightarrow> k \<in> dec_keys i \<Longrightarrow> k \<notin> dec_keys j"
  "i \<noteq> j \<Longrightarrow> k \<in> enc_keys i \<Longrightarrow> k \<notin> enc_keys j"
  "k \<in> dec_keys i \<Longrightarrow> k \<notin> enc_keys j"
  "k \<in> enc_keys i \<Longrightarrow> k \<notin> dec_keys j"
  by (auto simp: dec_keys_def enc_keys_def pname_eq_iff)

lemma dec_back_loop_trace:
  assumes "dec_back_loop ly m (rev [0 ..< n]) (dh, caches, grads, dz) = Inr (dh', caches', grads', dz')"
    and "length caches = n" and "cells_back_wf ly" and "wf3 dz"
  shows "\<exists>dxs dh0s. length dxs = n \<and> length dh0s = n \<and> dh' = (dxs @ [dh]) ! 0 \<and> wf3 dz' \<and>
     dim0 dz' = dim0 dz \<and> dim1 dz' = dim1 dz \<and> dim2 dz' = dim2 dz \<and>
     (\<forall>i<n. \<exists>dWx dWh db zi.
         cell_backward ly m ((dxs @ [dh]) ! Suc i) (take (Suc i) caches)
           = Inr ((dxs ! i, dh0s ! i, dWx, dWh, db), take i caches) \<and>
         grads' (pname ''Wx'' i ''dec'') = Some dWx \<and> grads' (pname ''Wh'' i ''dec'') = Some dWh \<and>
         grads' (pname ''b'' i ''dec'') = Some db \<and>
         get_layer dz i = Inr zi \<and> get_layer dz' i = add2 zi (dh0s ! i)) \<and>
     (\<forall>k. (\<forall>i<n. k \<notin> dec_keys i) \<longrightarrow> grads' k = grads k) \<and>
     (\<forall>j. n \<le> j \<longrightarrow> get_layer dz' j = get_layer dz j)"
  using assms
proof (induction n arbitrary: dh caches grads dz)
  case 0
  then show ?case by simp
next
  case (Suc n)
  let ?g1 = "\<lambda>dWx dWh db. grads(pname ''Wx'' n ''dec'' \<mapsto> dWx, pname ''Wh'' n ''dec'' \<mapsto> dWh,
                pname ''b'' n ''dec'' \<mapsto> db)"
  from Suc.prems(1) obtain dx dh0 dWx dWh db rest dz1 where
    cb: "cell_backward ly m dh caches = Inr ((dx, dh0, dWx, dWh, db), rest)" and
    ia: "iadd_layer dz n dh0 = Inr dz1" and
    rest: "dec_back_loop ly m (rev [0 ..< n]) (dx, rest, ?g1 dWx dWh db, dz1) = Inr (dh', caches', grads', dz')"
    by (auto simp: bindE_eq_Inr)
  note c = cell_backward_Inr[OF cb]
  from c(2) Suc.prems(2) have r: "rest = take n caches" "length rest = n"
    by (simp_all add: butlast_conv_take)
  have wdh0: "wf2 dh0" by (rule c(3)[OF Suc.prems(3)])
  have wz1: "wf3 dz1" by (rule wf3_iadd_layer[OF ia Suc.prems(4) wdh0])
  note d1 = iadd_layer_dims[OF ia]
  from Suc.IH[OF rest r(2) Suc.prems(3) wz1] obtain dxs dh0s where
    l: "length dxs = n" "length dh0s = n" and dh': "dh' = (dxs @ [dx]) ! 0" and
    wz': "wf3 dz'" and dz': "dim0 dz' = dim0 dz1" "dim1 dz' = dim1 dz1" "dim2 dz' = dim2 dz1" and
    tr: "\<forall>i<n. \<exists>dWx' dWh' db' zi.
         cell_backward ly m ((dxs @ [dx]) ! Suc i) (take (Suc i) rest)
           = Inr ((dxs ! i, dh0s ! i, dWx', dWh', db'), take i rest) \<and>
         grads' (pname ''Wx'' i ''dec'') = Some dWx' \<and> grads' (pname ''Wh'' i ''dec'') = Some dWh' \<and>
         grads' (pname ''b'' i ''dec'') = Some db' \<and>
         get_layer dz1 i = Inr zi \<and> get_layer dz' i = add2 zi (dh0s ! i)" and
    fr: "\<forall>k. (\<forall>i<n. k \<notin> dec_keys i) \<longrightarrow> grads' k = ?g1 dWx dWh db k" and
    fz: "\<forall>j. n \<le> j \<longrightarrow> get_layer dz' j = get_layer dz1 j"
    by blast
  let ?dxs = "dxs @ [dx]" and ?dh0s = "dh0s @ [dh0]"
  have step: "\<exists>dWx' dWh' db' zi.
         cell_backward ly m ((?dxs @ [dh]) ! Suc i) (take (Suc i) caches)
           = Inr ((?dxs ! i, ?dh0s ! i, dWx', dWh', db'), take i caches) \<and>
         grads' (pname ''Wx'' i ''dec'') = Some dWx' \<and> grads' (pname ''Wh'' i ''dec'') = Some dWh' \<and>
         grads' (pname ''b'' i ''dec'') = Some db' \<and>
         get_layer dz i = Inr zi \<and> get_layer dz' i = add2 zi (?dh0s ! i)" if "i < Suc n" for i
  proof (cases "i = n")
    case True
    have nk: "\<forall>j<n. k \<notin> dec_keys j" if "k \<in> dec_keys n" for k
      using keys_disjoint(1)[OF _ that] by (metis less_irrefl)
    have "pname ''Wx'' n ''dec'' \<in> dec_keys n" "pname ''Wh'' n ''dec'' \<in> dec_keys n"
      "pname ''b'' n ''dec'' \<in> dec_keys n"
      by (simp_all add: dec_keys_def)
    from this[THEN nk] have g: "grads' (pname ''Wx'' n ''dec'') = Some dWx"
      "grads' (pname ''Wh'' n ''dec'') = Some dWh" "grads' (pname ''b'' n ''dec'') = Some db"
      using fr by simp_all
    from d1(4) obtain zn where zn: "get_layer dz n = Inr zn" by (simp add: get_layer_def)
    have "get_layer dz' n = add2 zn dh0"
      using fz get_iadd_layer_same(2)[OF ia Suc.prems(4) wdh0 zn] by simp
    with g zn cb r l Suc.prems(2) True show ?thesis
      by (simp add: nth_append)
  next
    case False
    with that have i: "i < n" by simp
    from tr[rule_format, OF i] obtain dWx' dWh' db' zi where
      t: "cell_backward ly m ((dxs @ [dx]) ! Suc i) (take (Suc i) rest)
           = Inr ((dxs ! i, dh0s ! i, dWx', dWh', db'), take i rest)"
      "grads' (pname ''Wx'' i ''dec'') = Some dWx'" "grads' (pname ''Wh'' i ''dec'') = Some dWh'"
      "grads' (pname ''b'' i ''dec'') = Some db'"
      "get_layer dz1 i = Inr zi" "get_layer dz' i = add2 zi (dh0s ! i)" by blast
    have e1: "(?dxs @ [dh]) ! Suc i = (dxs @ [dx]) ! Suc i"
      using i l by (simp add: nth_append)
    have e2: "take (Suc i) rest = take (Suc i) caches" "take i rest = take i caches"
      using i r by (simp_all add: min_def)
    have e3: "?dxs ! i = dxs ! i" "?dh0s ! i = dh0s ! i" using i l by (simp_all add: nth_append)
    have e4: "get_layer dz1 i = get_layer dz i"
      using get_iadd_layer_other[OF ia Suc.prems(4) wdh0, of i] i by simp
    from t show ?thesis unfolding e1 e2 e3 e4 by blast
  qed
  have frame: "grads' k = grads k" if "\<forall>i<Suc n. k \<notin> dec_keys i" for k
  proof -
    from that have "\<forall>i<n. k \<notin> dec_keys i" "k \<notin> dec_keys n" by simp_all
    with fr show ?thesis by (simp add: dec_keys_def)
  qed
  have fz': "get_layer dz' j = get_layer dz j" if "Suc n \<le> j" for j
    using that fz get_iadd_layer_other[OF ia Suc.prems(4) wdh0, of j] by simp
  have dh'': "dh' = (?dxs @ [dh]) ! 0" using dh' by (simp add: nth_append)
  show ?case
    apply (rule exI[of _ ?dxs], rule exI[of _ ?dh0s])
    using l dh'' wz' dz' d1 step frame fz' by simp
qed

lemma enc_back_loop_trace:
  assumes "enc_back_loop ly m dz (rev [0 ..< n]) (dh, caches, grads) = Inr (dh', caches', grads')"
    and "length caches = n"
  shows "\<exists>dxs. length dxs = n \<and> dh' = (dxs @ [dh]) ! 0 \<and>
     (\<forall>i<n. \<exists>dzi e1 dh0 dWx dWh db.
         get_layer dz i = Inr dzi \<and>
         iadd_last_step ((dxs @ [dh]) ! Suc i) dzi = Inr e1 \<and>
         cell_backward ly m e1 (take (Suc i) caches)
           = Inr ((dxs ! i, dh0, dWx, dWh, db), take i caches) \<and>
         grads' (pname ''Wx'' i ''enc'') = Some dWx \<and> grads' (pname ''Wh'' i ''enc'') = Some dWh \<and>
         grads' (pname ''b'' i ''enc'') = Some db) \<and>
     (\<forall>k. (\<forall>i<n. k \<notin> enc_keys i) \<longrightarrow> grads' k = grads k)"
  using assms
proof (induction n arbitrary: dh caches grads)
  case 0
  then show ?case by simp
next
  case (Suc n)
  let ?g1 = "\<lambda>dWx dWh db. grads(pname ''Wx'' n ''enc'' \<mapsto> dWx, pname ''Wh'' n ''enc'' \<mapsto> dWh,
                pname ''b'' n ''enc'' \<mapsto> db)"
  from Suc.prems(1) obtain dzn e1 dx dh0 dWx dWh db rest where
    gl: "get_layer dz n = Inr dzn" and
    il: "iadd_last_step dh dzn = Inr e1" and
    cb: "cell_backward ly m e1 caches = Inr ((dx, dh0, dWx, dWh, db), rest)" and
    rest: "enc_back_loop ly m dz (rev [0 ..< n]) (dx, rest, ?g1 dWx dWh db) = Inr (dh', caches', grads')"
    by (auto simp: bindE_eq_Inr)
  note c = cell_backward_Inr(1,2)[OF cb]
  from c(2) Suc.prems(2) have r: "rest = take n caches" "length rest = n"
    by (simp_all add: butlast_conv_take)
  from Suc.IH[OF rest r(2)] obtain dxs where
    l: "length dxs = n" and dh': "dh' = (dxs @ [dx]) ! 0" and
    tr: "\<forall>i<n. \<exists>dzi e1 dh0 dWx' dWh' db'.
         get_layer dz i = Inr dzi \<and>
         iadd_last_step ((dxs @ [dx]) ! Suc i) dzi = Inr e1 \<and>
         cell_backward ly m e1 (take (Suc i) rest)
           = Inr ((dxs ! i, dh0, dWx', dWh', db'), take i rest) \<and>
         grads' (pname ''Wx'' i ''enc'') = Some dWx' \<and> grads' (pname ''Wh'' i ''enc'') = Some dWh' \<and>
         grads' (pname ''b'' i ''enc'') = Some db'" and
    fr: "\<forall>k. (\<forall>i<n. k \<notin> enc_keys i) \<longrightarrow> grads' k = ?g1 dWx dWh db k"
    by blast
  let ?dxs = "dxs @ [dx]"
  have step: "\<exists>dzi e1 dh0 dWx' dWh' db'.
         get_layer dz i = Inr dzi \<and>
         iadd_last_step ((?dxs @ [dh]) ! Suc i) dzi = Inr e1 \<and>
         cell_backward ly m e1 (take (Suc i) caches)
           = Inr ((?dxs ! i, dh0, dWx', dWh', db'), take i caches) \<and>
         grads' (pname ''Wx'' i ''enc'') = Some dWx' \<and> grads' (pname ''Wh'' i ''enc'') = Some dWh' \<and>
         grads' (pname ''b'' i ''enc'') = Some db'" if "i < Suc n" for i
  proof (cases "i = n")
    case True
    have nk: "\<forall>j<n. k \<notin> enc_keys j" if "k \<in> enc_keys n" for k
      using keys_disjoint(2)[OF _ that] by (metis less_irrefl)
    have "pname ''Wx'' n ''enc'' \<in> enc_keys n" "pname ''Wh'' n ''enc'' \<in> enc_keys n"
      "pname ''b'' n ''enc'' \<in> enc_keys n"
      by (simp_all add: enc_keys_def)
    from this[THEN nk] have g: "grads' (pname ''Wx'' n ''enc'') = Some dWx"
      "grads' (pname ''Wh'' n ''enc'') = Some dWh" "grads' (pname ''b'' n ''enc'') = Some db"
      using fr by simp_all
    with gl il cb r l Suc.prems(2) True show ?thesis
      by (simp add: nth_append)
  next
    case False
    with that have i: "i < n" by simp
    have e1: "(?dxs @ [dh]) ! Suc i = (dxs @ [dx]) ! Suc i"
      using i l by (simp add: nth_append)
    have e2: "take (Suc i) rest = take (Suc i) caches" "take i rest = take i caches"
      using i r by (simp_all add: min_def)
    have e3: "?dxs ! i = dxs ! i" using i l by (simp add: nth_append)
    from tr[rule_format, OF i] show ?thesis unfolding e1 e2 e3 .
  qed
  have frame: "grads' k = grads k" if "\<forall>i<Suc n. k \<notin> enc_keys i" for k
  proof -
    from that have "\<forall>i<n. k \<notin> enc_keys i" "k \<notin> enc_keys n" by simp_all
    with fr show ?thesis by (simp add: enc_keys_def)
  qed
  have dh'': "dh' = (?dxs @ [dh]) ! 0" using dh' by (simp add: nth_append)
  show ?case
    apply (rule exI[of _ ?dxs])
    using l dh'' step frame by simp
qed

lemma backward_Inr_obtain:
  assumes "fst (backward ly m dscores cs) = Inr grads"
  obtains d_dec_out dW_out db_out dh_dec0 dh_enc0 dh_dec1 dec_cs g1 dz1 dW_ed dh_enc1 enc_cs g2 dW_ee where
    "temporal_affine_backward ly dscores (dec_out_cache cs) = Inr (d_dec_out, dW_out, db_out)"
    "\<not> attention m \<longrightarrow> dh_dec0 = d_dec_out \<and> dh_enc0 = zeros3 (dim0 dscores) (src_seq_len m) (hidden_dim m)"
    "attention m \<longrightarrow> (\<exists>dh_dec_temp.
        temporal_attention_backward ly (drop_features (hidden_dim m) d_dec_out) (att_cache cs)
          = Inr (dh_dec_temp, dh_enc0) \<and>
        iadd3 (take_features (hidden_dim m) d_dec_out) dh_dec_temp = Inr dh_dec0)"
    "0 \<le> n_layers m"
    "dec_back_loop ly m (rev [0 ..< nat (n_layers m)])
       (dh_dec0, dec_caches cs, Map.empty(''W_out_dec'' \<mapsto> dW_out, ''b_out_dec'' \<mapsto> db_out),
        zeros3 (dim0 dscores) (nat (n_layers m)) (hidden_dim m)) = Inr (dh_dec1, dec_cs, g1, dz1)"
    "word_embedding_backward ly dh_dec1 (dec_embed_cache cs) = Inr dW_ed"
    "enc_back_loop ly m dz1 (rev [0 ..< nat (n_layers m)])
       (dh_enc0, enc_caches cs, g1(''W_embed_dec'' \<mapsto> dW_ed)) = Inr (dh_enc1, enc_cs, g2)"
    "word_embedding_backward ly dh_enc1 (enc_embed_cache cs) = Inr dW_ee"
    "grads = g2(''W_embed_enc'' \<mapsto> dW_ee)"
  using assms unfolding backward_def Let_def fst_conv
  by (cases "attention m") (auto simp: bindE_eq_Inr zeros3_int_eq_Inr)

lemma backward_run:
  assumes "fst (backward ly m dscores cs) = Inr grads"
    and "length (dec_caches cs) = nat (n_layers m)" and "length (enc_caches cs) = nat (n_layers m)"
    and "cells_back_wf ly"
  shows "\<exists>dh_dec0 dh_enc0 ddxs dh0s edxs.
           length ddxs = nat (n_layers m) \<and> length dh0s = nat (n_layers m) \<and>
           length edxs = nat (n_layers m) \<and> wf3 dh_enc0 \<and>
           (\<forall>i<nat (n_layers m). \<exists>dWx dWh db dzi e1 edh0 eWx eWh eb.
              cell_backward ly m ((ddxs @ [dh_dec0]) ! Suc i) (take (Suc i) (dec_caches cs))
                = Inr ((ddxs ! i, dh0s ! i, dWx, dWh, db), take i (dec_caches cs)) \<and>
              add2 (zeros2 (dim0 dscores) (hidden_dim m)) (dh0s ! i) = Inr dzi \<and>
              iadd_last_step ((edxs @ [dh_enc0]) ! Suc i) dzi = Inr e1 \<and>
              cell_backward ly m e1 (take (Suc i) (enc_caches cs))
                = Inr ((edxs ! i, edh0, eWx, eWh, eb), take i (enc_caches cs)) \<and>
              grads (pname ''Wx'' i ''dec'') = Some dWx \<and> grads (pname ''Wh'' i ''dec'') = Some dWh \<and>
              grads (pname ''b'' i ''dec'') = Some db \<and>
              grads (pname ''Wx'' i ''enc'') = Some eWx \<and> grads (pname ''Wh'' i ''enc'') = Some eWh \<and>
              grads (pname ''b'' i ''enc'') = Some eb) \<and>
           (\<not> attention m \<longrightarrow>
              dh_enc0 = zeros3 (dim0 dscores) (src_seq_len m) (hidden_dim m))"
proof -
  let ?n = "nat (n_layers m)" and ?N = "dim0 dscores" and ?H = "hidden_dim m"
  obtain d_dec_out dW_out db_out dh_dec0 dh_enc0 dh_dec1 dec_cs g1 dz1 dW_ed dh_enc1 enc_cs g2 dW_ee
    where
    na: "\<not> attention m \<longrightarrow> dh_dec0 = d_dec_out \<and> dh_enc0 = zeros3 ?N (src_seq_len m) ?H" and
    at: "attention m \<longrightarrow> (\<exists>dh_dec_temp.
        temporal_attention_backward ly (drop_features (hidden_dim m) d_dec_out) (att_cache cs)
          = Inr (dh_dec_temp, dh_enc0) \<and>
        iadd3 (take_features (hidden_dim m) d_dec_out) dh_dec_temp = Inr dh_dec0)" and
    dl: "dec_back_loop ly m (rev [0 ..< ?n])
       (dh_dec0, dec_caches cs, Map.empty(''W_out_dec'' \<mapsto> dW_out, ''b_out_dec'' \<mapsto> db_out),
        zeros3 ?N ?n ?H) = Inr (dh_dec1, dec_cs, g1, dz1)" and
    el: "enc_back_loop ly m dz1 (rev [0 ..< ?n])
       (dh_enc0, enc_caches cs, g1(''W_embed_dec'' \<mapsto> dW_ed)) = Inr (dh_enc1, enc_cs, g2)" and
    g: "grads = g2(''W_embed_enc'' \<mapsto> dW_ee)"
    by (rule backward_Inr_obtain[OF assms(1)]) blast
  from dec_back_loop_trace[OF dl assms(2,4) wf3_zeros3(1)] obtain ddxs dh0s where
    dl1: "length ddxs = ?n" "length dh0s = ?n" and
    dt: "\<forall>i<?n. \<exists>dWx dWh db zi.
         cell_backward ly m ((ddxs @ [dh_dec0]) ! Suc i) (take (Suc i) (dec_caches cs))
           = Inr ((ddxs ! i, dh0s ! i, dWx, dWh, db), take i (dec_caches cs)) \<and>
         g1 (pname ''Wx'' i ''dec'') = Some dWx \<and> g1 (pname ''Wh'' i ''dec'') = Some dWh \<and>
         g1 (pname ''b'' i ''dec'') = Some db \<and>
         get_layer (zeros3 ?N ?n ?H) i = Inr zi \<and> get_layer dz1 i = add2 zi (dh0s ! i)"
    by blast
  from enc_back_loop_trace[OF el assms(3)] obtain edxs where
    el1: "length edxs = ?n" and
    et: "\<forall>i<?n. \<exists>dzi e1 dh0 dWx dWh db.
         get_layer dz1 i = Inr dzi \<and>
         iadd_last_step ((edxs @ [dh_enc0]) ! Suc i) dzi = Inr e1 \<and>
         cell_backward ly m e1 (take (Suc i) (enc_caches cs))
           = Inr ((edxs ! i, dh0, dWx, dWh, db), take i (enc_caches cs)) \<and>
         g2 (pname ''Wx'' i ''enc'') = Some dWx \<and> g2 (pname ''Wh'' i ''enc'') = Some dWh \<and>
         g2 (pname ''b'' i ''enc'') = Some db" and
    ef: "\<forall>k. (\<forall>i<?n. k \<notin> enc_keys i) \<longrightarrow> g2 k = (g1(''W_embed_dec'' \<mapsto> dW_ed)) k"
    by blast
  have keep: "grads k = g1 k" if "k \<in> dec_keys i" for k i
  proof -
    from that have "\<forall>j<?n. k \<notin> enc_keys j" using keys_disjoint(3) by blast
    with ef have "g2 k = (g1(''W_embed_dec'' \<mapsto> dW_ed)) k" by blast
    moreover from that have "k \<noteq> ''W_embed_dec''" "k \<noteq> ''W_embed_enc''"
      by (auto simp: dec_keys_def pname_dec_distinct(15-20)[symmetric])
    ultimately show ?thesis by (simp add: g)
  qed
  have keep': "grads k = g2 k" if "k \<in> enc_keys i" for k i
    using that by (auto simp: g enc_keys_def pname_dec_distinct(18-20)[symmetric])
  have layer: "\<exists>dWx dWh db dzi e1 edh0 eWx eWh eb.
         cell_backward ly m ((ddxs @ [dh_dec0]) ! Suc i) (take (Suc i) (dec_caches cs))
           = Inr ((ddxs ! i, dh0s ! i, dWx, dWh, db), take i (dec_caches cs)) \<and>
         add2 (zeros2 ?N ?H) (dh0s ! i) = Inr dzi \<and>
         iadd_last_step ((edxs @ [dh_enc0]) ! Suc i) dzi = Inr e1 \<and>
         cell_backward ly m e1 (take (Suc i) (enc_caches cs))
           = Inr ((edxs ! i, edh0, eWx, eWh, eb), take i (enc_caches cs)) \<and>
         grads (pname ''Wx'' i ''dec'') = Some dWx \<and> grads (pname ''Wh'' i ''dec'') = Some dWh \<and>
         grads (pname ''b'' i ''dec'') = Some db \<and>
         grads (pname ''Wx'' i ''enc'') = Some eWx \<and> grads (pname ''Wh'' i ''enc'') = Some eWh \<and>
         grads (pname ''b'' i ''enc'') = Some eb" if i: "i < ?n" for i
  proof -
    from dt[rule_format, OF i] obtain dWx dWh db zi where
      d: "cell_backward ly m ((ddxs @ [dh_dec0]) ! Suc i) (take (Suc i) (dec_caches cs))
           = Inr ((ddxs ! i, dh0s ! i, dWx, dWh, db), take i (dec_caches cs))"
      "g1 (pname ''Wx'' i ''dec'') = Some dWx" "g1 (pname ''Wh'' i ''dec'') = Some dWh"
      "g1 (pname ''b'' i ''dec'') = Some db"
      "get_layer (zeros3 ?N ?n ?H) i = Inr zi" "get_layer dz1 i = add2 zi (dh0s ! i)" by blast
    from et[rule_format, OF i] obtain dzi e1 edh0 eWx eWh eb where
      e: "get_layer dz1 i = Inr dzi"
      "iadd_last_step ((edxs @ [dh_enc0]) ! Suc i) dzi = Inr e1"
      "cell_backward ly m e1 (take (Suc i) (enc_caches cs))
           = Inr ((edxs ! i, edh0, eWx, eWh, eb), take i (enc_caches cs))"
      "g2 (pname ''Wx'' i ''enc'') = Some eWx" "g2 (pname ''Wh'' i ''enc'') = Some eWh"
      "g2 (pname ''b'' i ''enc'') = Some eb" by blast
    from d(5) i have zi: "zi = zeros2 ?N ?H" by (simp add: get_layer_zeros3)
    have a: "add2 (zeros2 ?N ?H) (dh0s ! i) = Inr dzi" using d(6) e(1) zi by simp
    have dk: "pname ''Wx'' i ''dec'' \<in> dec_keys i" "pname ''Wh'' i ''dec'' \<in> dec_keys i"
      "pname ''b'' i ''dec'' \<in> dec_keys i" by (simp_all add: dec_keys_def)
    have ek: "pname ''Wx'' i ''enc'' \<in> enc_keys i" "pname ''Wh'' i ''enc'' \<in> enc_keys i"
      "pname ''b'' i ''enc'' \<in> enc_keys i" by (simp_all add: enc_keys_def)
    show ?thesis
      using d(1) a e(2,3) d(2,3,4)[folded dk[THEN keep]] e(4,5,6)[folded ek[THEN keep']]
      by blast
  qed
  have "wf3 dh_enc0"
  proof (cases "attention m")
    case True
    with at assms(4) show ?thesis unfolding cells_back_wf_def by blast
  next
    case False
    with na show ?thesis by simp
  qed
  with dl1 el1 layer na show ?thesis by blast
qed


text \<open>
  Claim C1. Whenever \<^verbatim>\<open>_backward\<close> returns on caches of \<open>n_layers\<close> encoder and decoder
  layers (what \<^verbatim>\<open>_forward\<close> hands over), and the backward primitives return well-formed
  arrays, the run has the form \<open>backward_trace\<close>: the layers are taken in reverse order;
  entry \<open>i\<close> of the context gradient buffer is \<open>dzi\<close>, of shape \<open>(N, H)\<close>, whose entry
  \<open>(n, k)\<close> is zero plus the (broadcast) entry of the gradient \<open>dh0s ! i\<close> that the
  backward primitive of decoder layer \<open>i\<close> returned for its initial state; the backward
  primitive of encoder layer \<open>i\<close> runs on \<open>e1\<close>, which is the gradient entering the layer
  with entry \<open>(n, k)\<close> of \<open>dzi\<close> added to its entry \<open>(n, T - 1, k)\<close> and every other time
  step unchanged. Without attention the encoder state gradient that enters the loop has
  shape \<open>(N, src_seq_len, hidden_dim)\<close> and all its entries are zero.
\<close>

theorem backward_context_gradient:
  assumes "fst (backward ly m dscores cs) = Inr grads"
    and "length (dec_caches cs) = nat (n_layers m)" and "length (enc_caches cs) = nat (n_layers m)"
    and "cells_back_wf ly"
  shows "\<exists>dh_dec0 dh_enc0 ddxs dh0s edxs.
           backward_trace ly m dscores cs grads dh_dec0 dh_enc0 ddxs dh0s edxs \<and>
           (\<not> attention m \<longrightarrow>
              all_zero3 dh_enc0 \<and> dim0 dh_enc0 = dim0 dscores \<and>
              dim1 dh_enc0 = src_seq_len m \<and> dim2 dh_enc0 = hidden_dim m)"
proof -
  let ?n = "nat (n_layers m)" and ?N = "dim0 dscores" and ?H = "hidden_dim m"
  from backward_run[OF assms] obtain dh_dec0 dh_enc0 ddxs dh0s edxs where
    l: "length ddxs = ?n" "length dh0s = ?n" "length edxs = ?n" and w0: "wf3 dh_enc0" and
    tr: "\<forall>i<?n. \<exists>dWx dWh db dzi e1 edh0 eWx eWh eb.
              cell_backward ly m ((ddxs @ [dh_dec0]) ! Suc i) (take (Suc i) (dec_caches cs))
                = Inr ((ddxs ! i, dh0s ! i, dWx, dWh, db), take i (dec_caches cs)) \<and>
              add2 (zeros2 ?N ?H) (dh0s ! i) = Inr dzi \<and>
              iadd_last_step ((edxs @ [dh_enc0]) ! Suc i) dzi = Inr e1 \<and>
              cell_backward ly m e1 (take (Suc i) (enc_caches cs))
                = Inr ((edxs ! i, edh0, eWx, eWh, eb), take i (enc_caches cs)) \<and>
              grads (pname ''Wx'' i ''dec'') = Some dWx \<and> grads (pname ''Wh'' i ''dec'') = Some dWh \<and>
              grads (pname ''b'' i ''dec'') = Some db \<and>
              grads (pname ''Wx'' i ''enc'') = Some eWx \<and> grads (pname ''Wh'' i ''enc'') = Some eWh \<and>
              grads (pname ''b'' i ''enc'') = Some eb" and
    na: "\<not> attention m \<longrightarrow> dh_enc0 = zeros3 ?N (src_seq_len m) ?H"
    by blast
  have wedx: "wf3 (edxs ! i)" if i: "i < ?n" for i
    using tr[rule_format, OF i] cell_backward_wf(1)[OF _ assms(4)] by blast
  have win: "wf3 ((edxs @ [dh_enc0]) ! Suc i)" if i: "i < ?n" for i
  proof (cases "Suc i < ?n")
    case True
    with wedx[OF True] l(3) show ?thesis by (simp add: nth_append)
  next
    case False
    with i l(3) have "(edxs @ [dh_enc0]) ! Suc i = dh_enc0" by (simp add: nth_append)
    with w0 show ?thesis by simp
  qed
  have layer: "\<exists>dWx dWh db dzi e1 edh0 eWx eWh eb.
         (cell_type m = ''rnn'' \<and>
            recurrent_backward ly ((ddxs @ [dh_dec0]) ! Suc i) (dec_caches cs ! i)
              = Inr (ddxs ! i, dh0s ! i, dWx, dWh, db) \<or>
          cell_type m = ''lstm'' \<and>
            lstm_backward ly ((ddxs @ [dh_dec0]) ! Suc i) (dec_caches cs ! i)
              = Inr (ddxs ! i, dh0s ! i, dWx, dWh, db)) \<and>
         is_zero_plus (dim0 dscores) (hidden_dim m) (dh0s ! i) dzi \<and>
         wf3 ((edxs @ [dh_enc0]) ! Suc i) \<and>
         is_last_step_plus ((edxs @ [dh_enc0]) ! Suc i) dzi e1 \<and>
         (cell_type m = ''rnn'' \<and>
            recurrent_backward ly e1 (enc_caches cs ! i) = Inr (edxs ! i, edh0, eWx, eWh, eb) \<or>
          cell_type m = ''lstm'' \<and>
            lstm_backward ly e1 (enc_caches cs ! i) = Inr (edxs ! i, edh0, eWx, eWh, eb)) \<and>
         grads (pname ''Wx'' i ''dec'') = Some dWx \<and> grads (pname ''Wh'' i ''dec'') = Some dWh \<and>
         grads (pname ''b'' i ''dec'') = Some db \<and>
         grads (pname ''Wx'' i ''enc'') = Some eWx \<and> grads (pname ''Wh'' i ''enc'') = Some eWh \<and>
         grads (pname ''b'' i ''enc'') = Some eb" if i: "i < ?n" for i
  proof -
    from tr[rule_format, OF i] obtain dWx dWh db dzi e1 edh0 eWx eWh eb where
      cd: "cell_backward ly m ((ddxs @ [dh_dec0]) ! Suc i) (take (Suc i) (dec_caches cs))
                = Inr ((ddxs ! i, dh0s ! i, dWx, dWh, db), take i (dec_caches cs))" and
      ad: "add2 (zeros2 ?N ?H) (dh0s ! i) = Inr dzi" and
      il: "iadd_last_step ((edxs @ [dh_enc0]) ! Suc i) dzi = Inr e1" and
      ce: "cell_backward ly m e1 (take (Suc i) (enc_caches cs))
                = Inr ((edxs ! i, edh0, eWx, eWh, eb), take i (enc_caches cs))" and
      g: "grads (pname ''Wx'' i ''dec'') = Some dWx" "grads (pname ''Wh'' i ''dec'') = Some dWh"
        "grads (pname ''b'' i ''dec'') = Some db"
        "grads (pname ''Wx'' i ''enc'') = Some eWx" "grads (pname ''Wh'' i ''enc'') = Some eWh"
        "grads (pname ''b'' i ''enc'') = Some eb"
      by blast
    from i assms(2,3) have li: "i < length (dec_caches cs)" "i < length (enc_caches cs)"
      by simp_all
    note pd = cell_backward_take[OF cd li(1)]
    note pe = cell_backward_take[OF ce li(2)]
    note zp = add2_zeros2_entries[OF ad cell_backward_wf(2)[OF cd assms(4)]]
    from zp have wz: "wf2 dzi" by (simp add: is_zero_plus_def)
    note lp = iadd_last_step_entries[OF il win[OF i] wz]
    show ?thesis
      apply (rule exI[of _ dWx], rule exI[of _ dWh], rule exI[of _ db])
      apply (rule exI[of _ dzi], rule exI[of _ e1], rule exI[of _ edh0])
      apply (rule exI[of _ eWx], rule exI[of _ eWh], rule exI[of _ eb])
      using pd pe zp win[OF i] lp g by simp
  qed
  have bt: "backward_trace ly m dscores cs grads dh_dec0 dh_enc0 ddxs dh0s edxs"
    unfolding backward_trace_def Let_def using l layer by simp
  have "all_zero3 dh_enc0 \<and> dim0 dh_enc0 = dim0 dscores \<and>
        dim1 dh_enc0 = src_seq_len m \<and> dim2 dh_enc0 = hidden_dim m" if "\<not> attention m"
    using that na all_zero3_zeros3 by simp
  with bt show ?thesis by blast
qed

lemma toy_cells_back_wf: "cells_back_wf toy_layers"
  by (auto simp: cells_back_wf_def toy_layers_def toy_cell_backward_def
      toy_attention_backward_def Let_def split: list.splits)

lemma demo_backward_Inr:
  "fst (backward toy_layers demo_model demo_dscores (snd demo_forward)) = Inr demo_grads"
proof -
  have "\<not> isl (fst (backward toy_layers demo_model demo_dscores (snd demo_forward)))"
    by code_simp
  thus ?thesis by (simp add: demo_grads_def)
qed

lemma demo_cache_lengths:
  "length (dec_caches (snd demo_forward)) = nat (n_layers demo_model)"
  "length (enc_caches (snd demo_forward)) = nat (n_layers demo_model)"
  by code_simp+

lemma demo_no_attention: "\<not> attention demo_model"
  by code_simp

text \<open>
  The statement for the demo model (two layers, no attention) and the integer stand-ins
  of the primitives.
\<close>

theorem backward_context_gradient_witness:
  "fst (backward toy_layers demo_model demo_dscores (snd demo_forward)) = Inr demo_grads \<and>
   length (dec_caches (snd demo_forward)) = nat (n_layers demo_model) \<and>
   length (enc_caches (snd demo_forward)) = nat (n_layers demo_model) \<and>
   cells_back_wf toy_layers \<and> \<not> attention demo_model \<and>
   (\<exists>dh_dec0 dh_enc0 ddxs dh0s edxs.
      backward_trace toy_layers demo_model demo_dscores (snd demo_forward) demo_grads dh_dec0
        dh_enc0 ddxs dh0s edxs \<and>
      all_zero3 dh_enc0 \<and> dim0 dh_enc0 = dim0 demo_dscores \<and>
      dim1 dh_enc0 = src_seq_len demo_model \<and> dim2 dh_enc0 = hidden_dim demo_model)"
  using backward_context_gradient[OF demo_backward_Inr demo_cache_lengths toy_cells_back_wf]
    demo_backward_Inr demo_cache_lengths toy_cells_back_wf demo_no_attention
  by blast

section \<open>The loss\<close>

lemma snd_forward [simp]: "snd (forward ly m src trg) = m"
  by (simp add: forward_def Let_def)

lemma snd_backward [simp]: "snd (backward ly m dscores cs) = m"
  by (simp add: backward_def Let_def)

lemma loss_Inr_iff:
  "fst (loss ly m src trg) = Inr (l, grads) \<longleftrightarrow>
     (\<exists>scores cs dscores.
        fst (forward ly m src (drop_last_col trg)) = Inr (scores, cs) \<and>
        temporal_cross_entropy_loss ly scores (drop_first_col trg)
          (not_equal_to (drop_first_col trg) (null_idx m)) = Inr (l, dscores) \<and>
        fst (backward ly m dscores cs) = Inr grads)"
proof -
  obtain r1 m1 where f: "forward ly m src (drop_last_col trg) = (r1, m1)" by force
  have m1: "m1 = m" using snd_forward[of ly m src "drop_last_col trg"] f by simp
  show ?thesis
  proof (cases r1)
    case (Inl e)
    then show ?thesis using f by (simp add: loss_def Let_def)
  next
    case (Inr sc)
    obtain scores cs where sc: "sc = (scores, cs)" by force
    show ?thesis
    proof (cases "temporal_cross_entropy_loss ly scores (drop_first_col trg)
          (not_equal_to (drop_first_col trg) (null_idx m))")
      case (Inl e)
      then show ?thesis using f Inr sc m1 by (simp add: loss_def Let_def)
    next
      case (Inr ld)
      obtain l' dscores where ld: "ld = (l', dscores)" by force
      obtain r2 m2 where b: "backward ly m dscores cs = (r2, m2)" by force
      show ?thesis using f \<open>r1 = Inr sc\<close> sc m1 Inr ld b
        by (cases r2) (auto simp: loss_def Let_def)
    qed
  qed
qed

lemma snd_loss [simp]: "snd (loss ly m src trg) = m"
proof -
  obtain r1 m1 where f: "forward ly m src (drop_last_col trg) = (r1, m1)" by force
  have m1: "m1 = m" using snd_forward[of ly m src "drop_last_col trg"] f by simp
  show ?thesis
  proof (cases r1)
    case (Inl e)
    then show ?thesis using f m1 by (simp add: loss_def Let_def)
  next
    case (Inr sc)
    obtain scores cs where sc: "sc = (scores, cs)" by force
    show ?thesis
    proof (cases "temporal_cross_entropy_loss ly scores (drop_first_col trg)
          (not_equal_to (drop_first_col trg) (null_idx m))")
      case (Inl e)
      then show ?thesis using f Inr sc m1 by (simp add: loss_def Let_def)
    next
      case (Inr ld)
      obtain l' dscores where ld: "ld = (l', dscores)" by force
      obtain r2 m2 where b: "backward ly m dscores cs = (r2, m2)" by force
      have m2: "m2 = m" using snd_backward[of ly m dscores cs] b by simp
      show ?thesis using f \<open>r1 = Inr sc\<close> sc m1 Inr ld b m2
        by (cases r2) (auto simp: loss_def Let_def)
    qed
  qed
qed

text \<open>
  The object handed back by \<^verbatim>\<open>loss\<close>, and by \<^verbatim>\<open>_forward\<close> and \<^verbatim>\<open>_backward\<close> that it
  calls, has the parameter dictionary it had before the call, whether the call returns
  or raises: none of the three methods assigns to \<^verbatim>\<open>self.params\<close> or to one of its keys.
\<close>

lemma params_not_rebound:
  "params (snd (loss ly m src trg)) = params m \<and>
   params (snd (forward ly m src trg)) = params m \<and>
   params (snd (backward ly m dscores cs)) = params m"
  by simp

lemma slices_wf:
  assumes "wf2 a"
  shows "wf2 (drop_last_col a)" "wf2 (drop_first_col a)" "wf2 (not_equal_to a x)"
  using assms by (auto simp: wf2_def drop_last_col_def drop_first_col_def not_equal_to_def list_all_iff)

lemma slices_cells:
  assumes "wf2 a" "n < nrows a" "t < ncols a - 1"
  shows "cells2 (drop_last_col a) ! n ! t = cells2 a ! n ! t"
    and "cells2 (drop_first_col a) ! n ! t = cells2 a ! n ! Suc t"
    and "cells2 (not_equal_to (drop_first_col a) x) ! n ! t \<longleftrightarrow> cells2 a ! n ! Suc t \<noteq> x"
proof -
  from assms have l: "n < length (cells2 a)" and r: "length (cells2 a ! n) = ncols a"
    by (auto simp: wf2_def list_all_iff)
  show "cells2 (drop_last_col a) ! n ! t = cells2 a ! n ! t"
    using l r assms(3) by (simp add: drop_last_col_def nth_butlast)
  show f: "cells2 (drop_first_col a) ! n ! t = cells2 a ! n ! Suc t"
    using l r assms(3) by (simp add: drop_first_col_def nth_tl)
  have "length (cells2 (drop_first_col a) ! n) = ncols a - 1"
    using l r by (simp add: drop_first_col_def)
  thus "cells2 (not_equal_to (drop_first_col a) x) ! n ! t \<longleftrightarrow> cells2 a ! n ! Suc t \<noteq> x"
    using l assms(3) f by (simp add: not_equal_to_def drop_first_col_def)
qed

text \<open>
  Claim C3. \<^verbatim>\<open>loss\<close> returns a loss \<open>l\<close> and gradients \<open>grads\<close> exactly when
  \<^verbatim>\<open>_forward\<close> returns scores and caches on \<open>src\<close> and the decoder input, the masked loss
  primitive returns \<open>l\<close> and the score gradient on these scores, the labels and the mask,
  and \<^verbatim>\<open>_backward\<close> returns \<open>grads\<close> on that gradient and these caches. The decoder
  input is \<open>trg\<close> without its last column, the labels are \<open>trg\<close> without its first
  column, and the mask is true exactly where the label differs from \<open>null_idx\<close>.
\<close>

theorem loss_teacher_forcing:
  assumes "wf2 trg"
  shows "(fst (loss ly m src trg) = Inr (l, grads) \<longleftrightarrow>
           (\<exists>scores cs dscores.
              fst (forward ly m src (drop_last_col trg)) = Inr (scores, cs) \<and>
              temporal_cross_entropy_loss ly scores (drop_first_col trg)
                (not_equal_to (drop_first_col trg) (null_idx m)) = Inr (l, dscores) \<and>
              fst (backward ly m dscores cs) = Inr grads)) \<and>
         wf2 (drop_last_col trg) \<and> nrows (drop_last_col trg) = nrows trg \<and>
         ncols (drop_last_col trg) = ncols trg - 1 \<and>
         wf2 (drop_first_col trg) \<and> nrows (drop_first_col trg) = nrows trg \<and>
         ncols (drop_first_col trg) = ncols trg - 1 \<and>
         (\<forall>n<nrows trg. \<forall>t<ncols trg - 1.
            cells2 (drop_last_col trg) ! n ! t = cells2 trg ! n ! t \<and>
            cells2 (drop_first_col trg) ! n ! t = cells2 trg ! n ! Suc t \<and>
            (cells2 (not_equal_to (drop_first_col trg) (null_idx m)) ! n ! t
               \<longleftrightarrow> cells2 trg ! n ! Suc t \<noteq> null_idx m))"
proof -
  have "nrows (drop_last_col trg) = nrows trg" "ncols (drop_last_col trg) = ncols trg - 1"
    "nrows (drop_first_col trg) = nrows trg" "ncols (drop_first_col trg) = ncols trg - 1"
    by (simp_all add: drop_last_col_def drop_first_col_def)
  with slices_wf(1,2)[OF assms] slices_cells[OF assms] loss_Inr_iff[of ly m src trg l grads]
  show ?thesis by simp
qed

lemma demo_wf2_trg: "wf2 demo_trg"
  by (simp add: demo_trg_def wf2_def)

lemma demo_xent:
  "temporal_cross_entropy_loss toy_layers (fst demo_forward) (drop_first_col demo_trg)
     (not_equal_to (drop_first_col demo_trg) (null_idx demo_model)) = Inr (29, demo_dscores)"
proof -
  have "fst (projr (toy_loss (fst demo_forward) (drop_first_col demo_trg)
                   (not_equal_to (drop_first_col demo_trg) (null_idx demo_model)))) = 29"
    by code_simp
  thus ?thesis
    by (simp add: toy_layers_def demo_dscores_def toy_loss_def)
qed

text \<open>
  The statement for the demo model: the loss is 29; for the target row \<open>[0, 1, 2]\<close>
  with \<open>null_idx = 2\<close> the decoder input at position 1 is 1, the label there is 2 and
  the mask is false.
\<close>

theorem loss_teacher_forcing_witness:
  "wf2 demo_trg \<and>
   fst (loss toy_layers demo_model demo_src demo_trg) = Inr (29, demo_grads) \<and>
   cells2 (drop_last_col demo_trg) ! 0 ! 1 = 1 \<and>
   cells2 (drop_first_col demo_trg) ! 0 ! 1 = 2 \<and>
   \<not> cells2 (not_equal_to (drop_first_col demo_trg) (null_idx demo_model)) ! 0 ! 1"
proof -
  note t = loss_teacher_forcing[OF demo_wf2_trg, of toy_layers demo_model demo_src 29 demo_grads]
  have n: "null_idx demo_model = 2" by code_simp
  have "fst (loss toy_layers demo_model demo_src demo_trg) = Inr (29, demo_grads)"
    using t demo_forward_Inr demo_xent demo_backward_Inr by blast
  moreover have "(0::nat) < nrows demo_trg" "(1::nat) < ncols demo_trg - 1"
    "cells2 demo_trg ! 0 ! 1 = 1" "cells2 demo_trg ! 0 ! Suc 1 = 2"
    by (simp_all add: demo_trg_def)
  ultimately show ?thesis
    using t demo_wf2_trg n by (metis (no_types, lifting))
qed

lemma forward_noatt_Inr_iff:
  "fst (forward_noatt ly m src trg) = Inr (scores, cs) \<longleftrightarrow>
   (\<exists>w_ee src_embeds z0 h_enc z w_ed trg_embeds h_dec w_out b_out.
      params m ''W_embed_enc'' = Some w_ee \<and>
      word_embedding_forward ly src w_ee = Inr (src_embeds, na_enc_embed_cache cs) \<and>
      ndarray3 (uninit ly) (nrows src) (n_layers m) (hidden_dim m) = Inr z0 \<and>
      enc_loop ly m (zeros2 (nrows src) (hidden_dim m)) [0 ..< nat (n_layers m)] (src_embeds, [], z0)
        = Inr (h_enc, na_enc_caches cs, z) \<and>
      params m ''W_embed_dec'' = Some w_ed \<and>
      word_embedding_forward ly trg w_ed = Inr (trg_embeds, na_dec_embed_cache cs) \<and>
      dec_loop ly m (nrows src) (hidden_dim m) z [0 ..< nat (n_layers m)] (trg_embeds, [])
        = Inr (h_dec, na_dec_caches cs) \<and>
      params m ''W_out_dec'' = Some w_out \<and>
      params m ''b_out_dec'' = Some b_out \<and>
      temporal_affine_forward ly h_dec w_out b_out = Inr (scores, na_dec_out_cache cs))"
  unfolding forward_noatt_def Let_def fst_conv
  by (cases cs) (auto simp: bindE_eq_Inr lookup_eq_Inr)

lemma forward_noatt_of_forward:
  assumes "\<not> attention m" "fst (forward ly m src trg) = Inr (scores, cs)"
  shows "fst (forward_noatt ly m src trg) = Inr (scores, drop_att_cache cs)"
  using assms unfolding forward_Inr_iff forward_noatt_Inr_iff
  by (auto simp: drop_att_cache_def)

lemma backward_noatt_eq:
  assumes "\<not> attention m"
  shows "fst (backward ly m dscores cs) = fst (backward_noatt ly m dscores (drop_att_cache cs))"
  using assms by (simp add: backward_def backward_noatt_def drop_att_cache_def Let_def)

section \<open>Attention disabled\<close>

lemma snd_forward_noatt [simp]: "snd (forward_noatt ly m src trg) = m"
  by (simp add: forward_noatt_def Let_def)

lemma snd_backward_noatt [simp]: "snd (backward_noatt ly m dscores cs) = m"
  by (simp add: backward_noatt_def Let_def)

lemma loss_noatt_Inr_iff:
  "fst (loss_noatt ly m src trg) = Inr (l, grads) \<longleftrightarrow>
     (\<exists>scores cs dscores.
        fst (forward_noatt ly m src (drop_last_col trg)) = Inr (scores, cs) \<and>
        temporal_cross_entropy_loss ly scores (drop_first_col trg)
          (not_equal_to (drop_first_col trg) (null_idx m)) = Inr (l, dscores) \<and>
        fst (backward_noatt ly m dscores cs) = Inr grads)"
proof -
  obtain r1 m1 where f: "forward_noatt ly m src (drop_last_col trg) = (r1, m1)" by force
  have m1: "m1 = m" using snd_forward_noatt[of ly m src "drop_last_col trg"] f by simp
  show ?thesis
  proof (cases r1)
    case (Inl e)
    then show ?thesis using f by (simp add: loss_noatt_def Let_def)
  next
    case (Inr sc)
    obtain scores cs where sc: "sc = (scores, cs)" by force
    show ?thesis
    proof (cases "temporal_cross_entropy_loss ly scores (drop_first_col trg)
          (not_equal_to (drop_first_col trg) (null_idx m))")
      case (Inl e)
      then show ?thesis using f Inr sc m1 by (simp add: loss_noatt_def Let_def)
    next
      case (Inr ld)
      obtain l' dscores where ld: "ld = (l', dscores)" by force
      obtain r2 m2 where b: "backward_noatt ly m dscores cs = (r2, m2)" by force
      show ?thesis using f \<open>r1 = Inr sc\<close> sc m1 Inr ld b
        by (cases r2) (auto simp: loss_noatt_def Let_def)
    qed
  qed
qed

lemma forward_noatt_total:
  assumes "\<not> attention m" "\<forall>a b. \<not> isl (temporal_attention_forward ly a b)"
  shows "map_sum id fst (fst (forward ly m src trg)) = map_sum id fst (fst (forward_noatt ly m src trg))"
proof -
  have a: "temporal_attention_forward ly a b \<noteq> Inl e" for a b e
    using assms(2) by (metis isl_def)
  show ?thesis
    unfolding forward_def forward_noatt_def Let_def fst_conv
    using assms(1) a
    by (auto simp: bindE_def split: sum.splits prod.splits)
qed

text \<open>
  Claim C10. With attention disabled, whenever \<^verbatim>\<open>_forward\<close> returns, the variant that
  never computes attention returns the same scores and the same caches but the attention
  cache; \<^verbatim>\<open>_backward\<close> is the backward pass of the variant on the caches without the
  attention cache (it never reads it); so whenever \<^verbatim>\<open>loss\<close> returns, the variant's loss
  returns the same loss and gradients. The source still calls the attention primitive
  and discards its output: if that primitive never raises, the two forward passes agree
  on every input, in the scores and in the error raised; and in every returning run
  the attention primitive has returned, while the scores are the output projection of
  the decoder states \<open>h_dec\<close> alone.
\<close>

theorem attention_disabled_refines_noatt:
  assumes "\<not> attention m"
  shows "(fst (forward ly m src trg) = Inr (scores, cs) \<longrightarrow>
            fst (forward_noatt ly m src trg) = Inr (scores, drop_att_cache cs)) \<and>
         fst (backward ly m dscores cs) = fst (backward_noatt ly m dscores (drop_att_cache cs)) \<and>
         (fst (loss ly m src trg) = Inr (l, grads) \<longrightarrow>
            fst (loss_noatt ly m src trg) = Inr (l, grads)) \<and>
         ((\<forall>a b. \<not> isl (temporal_attention_forward ly a b)) \<longrightarrow>
            map_sum id fst (fst (forward ly m src trg))
              = map_sum id fst (fst (forward_noatt ly m src trg))) \<and>
         (fst (forward ly m src trg) = Inr (scores, cs) \<longrightarrow>
            (\<exists>h_dec h_enc att_out w_out b_out.
               temporal_attention_forward ly h_dec h_enc = Inr (att_out, att_cache cs) \<and>
               params m ''W_out_dec'' = Some w_out \<and> params m ''b_out_dec'' = Some b_out \<and>
               temporal_affine_forward ly h_dec w_out b_out = Inr (scores, dec_out_cache cs)))"
proof -
  have att: "\<exists>h_dec h_enc att_out w_out b_out.
               temporal_attention_forward ly h_dec h_enc = Inr (att_out, att_cache cs) \<and>
               params m ''W_out_dec'' = Some w_out \<and> params m ''b_out_dec'' = Some b_out \<and>
               temporal_affine_forward ly h_dec w_out b_out = Inr (scores, dec_out_cache cs)"
    if "fst (forward ly m src trg) = Inr (scores, cs)"
    using that[unfolded forward_Inr_iff] assms by auto
  have "fst (loss_noatt ly m src trg) = Inr (l, grads)" if "fst (loss ly m src trg) = Inr (l, grads)"
  proof -
    from that[unfolded loss_Inr_iff] obtain scores' cs' dscores' where
      f: "fst (forward ly m src (drop_last_col trg)) = Inr (scores', cs')" and
      x: "temporal_cross_entropy_loss ly scores' (drop_first_col trg)
          (not_equal_to (drop_first_col trg) (null_idx m)) = Inr (l, dscores')" and
      b: "fst (backward ly m dscores' cs') = Inr grads" by blast
    from forward_noatt_of_forward[OF assms f] x b[unfolded backward_noatt_eq[OF assms]]
    show ?thesis unfolding loss_noatt_Inr_iff by blast
  qed
  thus ?thesis
    using forward_noatt_of_forward[OF assms] backward_noatt_eq[OF assms]
      forward_noatt_total[OF assms] att by blast
qed

lemma demo_loss_Inr: "fst (loss toy_layers demo_model demo_src demo_trg) = Inr (29, demo_grads)"
  unfolding loss_Inr_iff using demo_forward_Inr demo_xent demo_backward_Inr by blast

lemma toy_attention_total: "\<forall>a b. \<not> isl (toy_attention_forward a b)"
  by (simp add: toy_attention_forward_def)

text \<open>
  The statement for the demo model, whose attention flag is off.
\<close>

theorem attention_disabled_refines_noatt_witness:
  "\<not> attention demo_model \<and>
   fst (forward toy_layers demo_model demo_src (drop_last_col demo_trg))
     = Inr (fst demo_forward, snd demo_forward) \<and>
   fst (forward_noatt toy_layers demo_model demo_src (drop_last_col demo_trg))
     = Inr (fst demo_forward, drop_att_cache (snd demo_forward)) \<and>
   fst (loss toy_layers demo_model demo_src demo_trg) = Inr (29, demo_grads) \<and>
   fst (loss_noatt toy_layers demo_model demo_src demo_trg) = Inr (29, demo_grads) \<and>
   (\<forall>a b. \<not> isl (temporal_attention_forward toy_layers a b))"
  using attention_disabled_refines_noatt[OF demo_no_attention, of toy_layers demo_src
      "drop_last_col demo_trg" "fst demo_forward" "snd demo_forward"]
    attention_disabled_refines_noatt[OF demo_no_attention, of toy_layers demo_src
      demo_trg _ _ _ 29 demo_grads]
    demo_no_attention demo_forward_Inr demo_loss_Inr toy_attention_total
  by (simp add: toy_layers_def)

section \<open>The parameters are left alone\<close>

lemma keeps_return: "P x \<Longrightarrow> keeps n P (returnM x)"
  by (simp add: keeps_def returnM_def)

lemma keeps_lift: "(\<And>x. e = Inr x \<Longrightarrow> P x) \<Longrightarrow> keeps n P (liftM e)"
  by (simp add: keeps_def liftM_def)

lemma keeps_any: "keeps n (\<lambda>_. True) (liftM e)" "keeps n (\<lambda>_. True) (get2M r)"
  "keeps n (\<lambda>_. True) (get3M r)" "keeps n (\<lambda>_. True) (getNM r)" "keeps n (\<lambda>_. True) (paramM k)"
  by (simp_all add: keeps_def liftM_def get2M_def get3M_def getNM_def paramM_def)

lemma keeps_new: "keeps n (\<lambda>r. n \<le> r) (newM c)"
  by (simp add: keeps_def newM_def)

lemma keeps_put: "n \<le> r \<Longrightarrow> keeps n (\<lambda>_. True) (putM r c)"
  by (simp add: keeps_def putM_def)

lemma keeps_bind:
  fixes f :: "('a, 'r) proc" and g :: "'r \<Rightarrow> ('a, 'q) proc"
  assumes "keeps n P f" and "\<And>x. P x \<Longrightarrow> keeps n Q (g x)"
  shows "keeps n Q (bindM f g)"
  unfolding keeps_def
proof (intro allI impI)
  fix s :: "'a mem" assume n: "n \<le> length (cells s)"
  obtain r s1 where f: "f s = (r, s1)" by (cases "f s")
  from assms(1) n f have 1: "pdict s1 = pdict s" "length (cells s) \<le> length (cells s1)"
    "take n (cells s1) = take n (cells s)" "\<And>x. r = Inr x \<Longrightarrow> P x"
    by (auto simp: keeps_def)
  show "pdict (snd (bindM f g s)) = pdict s \<and>
        length (cells s) \<le> length (cells (snd (bindM f g s))) \<and>
        take n (cells (snd (bindM f g s))) = take n (cells s) \<and>
        (\<forall>x. fst (bindM f g s) = Inr x \<longrightarrow> Q x)"
  proof (cases r)
    case (Inl e)
    with f 1 show ?thesis by (simp add: bindM_def)
  next
    case (Inr x)
    from 1(4)[OF Inr] have "keeps n Q (g x)" by (rule assms(2))
    moreover from n 1(2) have "n \<le> length (cells s1)" by simp
    ultimately have "pdict (snd (g x s1)) = pdict s1" "length (cells s1) \<le> length (cells (snd (g x s1)))"
      "take n (cells (snd (g x s1))) = take n (cells s1)" "\<forall>y. fst (g x s1) = Inr y \<longrightarrow> Q y"
      by (auto simp: keeps_def)
    with f Inr 1 show ?thesis by (simp add: bindM_def)
  qed
qed

lemma keeps_weaken: "keeps n P f \<Longrightarrow> (\<And>x. P x \<Longrightarrow> Q x) \<Longrightarrow> keeps n Q f"
  by (simp add: keeps_def)

lemma keeps_bind_any:
  assumes "keeps n (\<lambda>_. True) f" and "\<And>x. keeps n Q (g x)"
  shows "keeps n Q (bindM f g)"
  using assms by (rule keeps_bind)

lemma keeps_get3V: "keeps n (\<lambda>_. True) (get3V v)"
  by (cases v) (auto intro!: keeps_any keeps_bind_any keeps_return)

lemma keeps_call_forward: "keeps n (\<lambda>(r, c). n \<le> r) (call_forward res)"
  unfolding call_forward_def
  by (rule keeps_bind_any[OF keeps_any(1)]) (auto intro!: keeps_bind[OF keeps_new] keeps_return)

lemma keeps_call_cell_backward:
  "keeps n (\<lambda>(r_dx, r_dh0, r_dWx, r_dWh, r_db). n \<le> r_dx) (call_cell_backward res)"
  unfolding call_cell_backward_def
  by (rule keeps_bind_any[OF keeps_any(1)]) (auto intro!: keeps_bind[OF keeps_new] keeps_return)

lemma keeps_call_attention_backward:
  "keeps n (\<lambda>(r_dh_dec, r_dh_enc). n \<le> r_dh_enc) (call_attention_backward res)"
  unfolding call_attention_backward_def
  by (rule keeps_bind_any[OF keeps_any(1)]) (auto intro!: keeps_bind[OF keeps_new] keeps_return)

lemma keeps_call_affine_backward:
  "keeps n (\<lambda>(r_dx, r_dW, r_db). n \<le> r_dx) (call_affine_backward res)"
  unfolding call_affine_backward_def
  by (rule keeps_bind_any[OF keeps_any(1)]) (auto intro!: keeps_bind[OF keeps_new] keeps_return)

lemma keeps_call_embedding_backward: "keeps n (\<lambda>_. True) (call_embedding_backward res)"
  unfolding call_embedding_backward_def
  by (rule keeps_bind_any[OF keeps_any(1)]) (rule keeps_weaken[OF keeps_new], simp)

lemma keeps_call_loss: "keeps n (\<lambda>(l, r). n \<le> r) (call_loss res)"
  unfolding call_loss_def
  by (rule keeps_bind_any[OF keeps_any(1)]) (auto intro!: keeps_bind[OF keeps_new] keeps_return)

lemma keeps_cell_forward_m: "keeps n (\<lambda>(r, c). n \<le> r) (cell_forward_m ly a side i r_x h0)"
  unfolding cell_forward_m_def
  by (auto intro!: keeps_bind_any[OF keeps_any(5)] keeps_bind_any[OF keeps_any(3)]
      keeps_bind_any[OF keeps_any(4)] keeps_call_forward keeps_lift)

lemma keeps_cell_backward_m:
  "keeps n (\<lambda>((r_dx, r_dh0, r_dWx, r_dWh, r_db), rest). n \<le> r_dx) (cell_backward_m ly a dh caches)"
  unfolding cell_backward_m_def
  by (auto intro!: keeps_bind_any[OF keeps_any(1)] keeps_bind_any[OF keeps_get3V]
      keeps_bind[OF keeps_call_cell_backward] keeps_return keeps_lift)

lemma keeps_iadd3_prefix: "n \<le> r \<Longrightarrow> keeps n (\<lambda>_. True) (iadd3_prefix r k r_b)"
  unfolding iadd3_prefix_def
  by (auto intro!: keeps_bind_any[OF keeps_any(1)] keeps_bind_any[OF keeps_any(3)] keeps_put)

lemma keeps_enc_loop_m:
  "n \<le> r_z \<Longrightarrow> keeps n (\<lambda>_. True) (enc_loop_m ly a r_h0 r_z is st)"
proof (induction "is" arbitrary: st)
  case Nil
  show ?case by (simp add: keeps_return)
next
  case (Cons i "is")
  obtain r_h caches where st: "st = (r_h, caches)" by (cases st)
  show ?case unfolding st enc_loop_m.simps
    by (auto intro!: keeps_bind_any[OF keeps_any(2)] keeps_bind_any[OF keeps_any(3)]
        keeps_bind_any[OF keeps_any(1)] keeps_bind[OF keeps_cell_forward_m]
        keeps_bind_any[OF keeps_put] Cons.IH Cons.prems)
qed

lemma keeps_dec_loop_m: "keeps n (\<lambda>_. True) (dec_loop_m ly a N H r_z is st)"
proof (induction "is" arbitrary: st)
  case Nil
  show ?case by (simp add: keeps_return)
next
  case (Cons i "is")
  obtain r_h caches where st: "st = (r_h, caches)" by (cases st)
  show ?case unfolding st dec_loop_m.simps
    by (auto intro!: keeps_bind_any[OF keeps_any(3)]
        keeps_bind_any[OF keeps_any(1)] keeps_bind[OF keeps_cell_forward_m] Cons.IH)
qed

lemma keeps_new_any: "keeps n (\<lambda>_. True) (newM c)"
  by (rule keeps_weaken[OF keeps_new]) simp

lemma keeps_if: "keeps n P f \<Longrightarrow> keeps n P g \<Longrightarrow> keeps n P (if b then f else g)"
  by simp

lemma keeps_forward_m: "keeps n (\<lambda>_. True) (forward_m ly a src trg)"
  unfolding forward_m_def Let_def
  by ((rule keeps_bind[OF keeps_new] | rule keeps_bind[OF keeps_call_forward]
        | rule keeps_bind_any | rule keeps_any | rule keeps_enc_loop_m | rule keeps_dec_loop_m
        | rule keeps_if | rule keeps_new_any | rule keeps_return | rule TrueI | assumption
        | clarsimp split del: if_split)+)

lemma keeps_dec_back_loop_m:
  "n \<le> r_dz \<Longrightarrow> keeps n (\<lambda>_. True) (dec_back_loop_m ly a r_dz is st)"
proof (induction "is" arbitrary: st)
  case Nil
  show ?case by (simp add: keeps_return)
next
  case (Cons i "is")
  obtain dh caches grads where st: "st = (dh, caches, grads)" by (cases st)
  show ?case unfolding st dec_back_loop_m.simps
    by (auto intro!: keeps_bind_any[OF keeps_any(2)] keeps_bind_any[OF keeps_any(3)]
        keeps_bind_any[OF keeps_any(1)] keeps_bind[OF keeps_cell_backward_m]
        keeps_bind_any[OF keeps_put] Cons.IH Cons.prems)
qed

lemma keeps_enc_back_loop_m:
  "n \<le> r_dz \<Longrightarrow> n \<le> fst st \<Longrightarrow> keeps n (\<lambda>_. True) (enc_back_loop_m ly a r_dz is st)"
proof (induction "is" arbitrary: st)
  case Nil
  show ?case by (simp add: keeps_return)
next
  case (Cons i "is")
  obtain r_dh caches grads where st: "st = (r_dh, caches, grads)" by (cases st)
  with Cons.prems have r: "n \<le> r_dh" by simp
  show ?case unfolding st enc_back_loop_m.simps
    by (auto intro!: keeps_bind_any[OF keeps_any(3)]
        keeps_bind_any[OF keeps_any(1)] keeps_bind[OF keeps_cell_backward_m]
        keeps_bind_any[OF keeps_put] Cons.IH Cons.prems(1) r)
qed

lemma keeps_backward_m: "keeps n (\<lambda>_. True) (backward_m ly a r_dscores cs)"
  unfolding backward_m_def Let_def
  apply (rule keeps_bind_any[OF keeps_any(3)])
  apply (rule keeps_bind[OF keeps_call_affine_backward])
  apply (clarsimp split del: if_split)
  apply (rule keeps_bind[where P = "\<lambda>(dh, r). n \<le> r"])
  subgoal
    by ((rule keeps_bind[OF keeps_new] | rule keeps_bind[OF keeps_call_attention_backward]
        | rule keeps_bind_any | rule keeps_any | rule keeps_iadd3_prefix
        | rule keeps_if | rule keeps_return | assumption
        | clarsimp split del: if_split)+)
  subgoal
    by ((rule keeps_bind[OF keeps_new]
        | rule keeps_bind_any | rule keeps_any | rule keeps_dec_back_loop_m
        | rule keeps_enc_back_loop_m | rule keeps_get3V | rule keeps_call_embedding_backward
        | rule keeps_return | rule TrueI | assumption
        | clarsimp split del: if_split)+)
  done

lemma keeps_loss_m: "keeps n (\<lambda>_. True) (loss_m ly a src trg)"
  unfolding loss_m_def Let_def
  by ((rule keeps_bind_any | rule keeps_any | rule keeps_forward_m | rule keeps_backward_m
        | rule keeps_weaken[OF keeps_call_loss] | rule keeps_return | rule TrueI
        | clarsimp split del: if_split)+)

lemma keeps_params_kept:
  assumes "keeps (length (cells s)) (\<lambda>_. True) f"
  shows "params_kept s (snd (f s))"
proof -
  from assms have 1: "pdict (snd (f s)) = pdict s"
    "take (length (cells s)) (cells (snd (f s))) = cells s"
    by (simp_all add: keeps_def)
  have "cells (snd (f s)) ! r = cells s ! r" if "r < length (cells s)" for r
    using that nth_take[of r "length (cells s)" "cells (snd (f s))"] 1(2) by simp
  with 1 show ?thesis by (simp add: params_kept_def)
qed

text \<open>
  Claim C8. A call of \<^verbatim>\<open>loss\<close>, and a call of \<^verbatim>\<open>_forward\<close> or of \<^verbatim>\<open>_backward\<close>, in
  any state and whether it returns or raises, leaves the parameter dictionary and every
  array that existed before the call as they were: no name is rebound, and no parameter
  array is written to. The in-place operations of the three methods (on \<^verbatim>\<open>z\<close>, \<^verbatim>\<open>dz\<close>,
  \<^verbatim>\<open>dh_enc\<close> and, through the view \<^verbatim>\<open>dh_dec\<close>, on \<^verbatim>\<open>d_dec_out\<close>) all go to arrays made
  during the call. The layer primitives are taken to write to none of their arguments
  and to return new arrays, as the specification has it.
\<close>

theorem loss_params_unchanged:
  "params_kept s (snd (loss_m ly a src trg s)) \<and>
   params_kept s (snd (forward_m ly a src trg s)) \<and>
   params_kept s (snd (backward_m ly a r_dscores cs s))"
  by (intro conjI keeps_params_kept keeps_loss_m keeps_forward_m keeps_backward_m)

lemma demo_mem_facts:
  "pdict demo_mem ''W_out_dec'' = Some 14" "14 < length (cells demo_mem)"
  by code_simp+

lemma demo_loss_m:
  "map_sum id fst (fst (loss_m toy_layers demo_model demo_src demo_trg demo_mem)) = Inr 29"
  by code_simp

lemma demo_loss_m_grows:
  "length (cells demo_mem) < length (cells (snd (loss_m toy_layers demo_model demo_src demo_trg demo_mem)))"
  by code_simp

text \<open>
  The statement for the demo model in the store, at the parameter \<^verbatim>\<open>W_out_dec\<close>: the
  call returns the loss, the store has grown, and the array is as it was.
\<close>

theorem loss_params_unchanged_witness:
  "pdict demo_mem ''W_out_dec'' = Some 14 \<and> 14 < length (cells demo_mem) \<and>
   map_sum id fst (fst (loss_m toy_layers demo_model demo_src demo_trg demo_mem)) = Inr 29 \<and>
   length (cells demo_mem)
     < length (cells (snd (loss_m toy_layers demo_model demo_src demo_trg demo_mem))) \<and>
   pdict (snd (loss_m toy_layers demo_model demo_src demo_trg demo_mem)) ''W_out_dec'' = Some 14 \<and>
   cells (snd (loss_m toy_layers demo_model demo_src demo_trg demo_mem)) ! 14 = cells demo_mem ! 14"
  using loss_params_unchanged[of demo_mem toy_layers demo_model demo_src demo_trg]
    demo_mem_facts demo_loss_m demo_loss_m_grows
  by (simp add: params_kept_def)

section \<open>Batch independence of the loss\<close>

lemma is_perm_length: "is_perm p n \<Longrightarrow> length p = n"
  by (metis is_perm_def size_mset length_upt diff_zero)

lemma is_perm_set: "is_perm p n \<Longrightarrow> set p = {0 ..< n}"
  by (metis is_perm_def set_mset_mset set_upt)

lemma is_perm_lt: "is_perm p n \<Longrightarrow> i \<in> set p \<Longrightarrow> i < n"
  by (simp add: is_perm_set)

lemma length_perm_rows [simp]: "length (perm_rows p xs) = length p"
  by (simp add: perm_rows_def)

lemma perm_rows_map:
  "\<forall>i\<in>set p. i < length xs \<Longrightarrow> perm_rows p (map f xs) = map f (perm_rows p xs)"
  by (simp add: perm_rows_def)

lemma set_perm_rows: "\<forall>i\<in>set p. i < length xs \<Longrightarrow> set (perm_rows p xs) \<subseteq> set xs"
  by (auto simp: perm_rows_def)

lemma perm_rows_replicate:
  "\<forall>i\<in>set p. i < n \<Longrightarrow> length p = n \<Longrightarrow> perm_rows p (replicate n x) = replicate n x"
  by (auto simp: perm_rows_def intro!: nth_equalityI)

lemma perm_rows_map2:
  "\<forall>i\<in>set p. i < length xs \<and> i < length ys \<Longrightarrow>
   perm_rows p (map2 f xs ys) = map2 f (perm_rows p xs) (perm_rows p ys)"
  by (induction p) (simp_all add: perm_rows_def)

lemma wf_perm:
  assumes "is_perm p n"
  shows "wf3 a \<Longrightarrow> dim0 a = n \<Longrightarrow> wf3 (perm3 p a)"
    and "wf2 b \<Longrightarrow> nrows b = n \<Longrightarrow> wf2 (perm2 p b)"
proof -
  note l = is_perm_length[OF assms] and s = is_perm_lt[OF assms]
  show "wf3 a \<Longrightarrow> dim0 a = n \<Longrightarrow> wf3 (perm3 p a)"
    using l s set_perm_rows[of p "cells3 a"]
    by (auto simp: wf3_def perm3_def list_all_iff)
  show "wf2 b \<Longrightarrow> nrows b = n \<Longrightarrow> wf2 (perm2 p b)"
    using l s set_perm_rows[of p "cells2 b"]
    by (auto simp: wf2_def perm2_def list_all_iff)
qed

lemma perm_dims [simp]:
  "dim0 (perm3 p a) = dim0 a" "dim1 (perm3 p a) = dim1 a" "dim2 (perm3 p a) = dim2 a"
  "nrows (perm2 p b) = nrows b" "ncols (perm2 p b) = ncols b"
  by (simp_all add: perm3_def perm2_def)

lemma perm2_zeros2: "is_perm p n \<Longrightarrow> perm2 p (zeros2 n h) = zeros2 n h"
  using is_perm_lt[of p n] is_perm_length[of p n]
  by (simp add: perm2_def zeros2_def perm_rows_replicate)

lemma perm3_ndarray3:
  "is_perm p n \<Longrightarrow> ndarray3 u n l h = Inr z \<Longrightarrow> perm3 p z = z"
  using is_perm_lt[of p n] is_perm_length[of p n]
  by (auto simp: perm3_def ndarray3_def perm_rows_replicate split: if_splits)

lemma last_step_perm:
  assumes "is_perm p (dim0 a)" "wf3 a"
  shows "last_step (perm3 p a) = map_sum id (perm2 p) (last_step a)"
  using is_perm_lt[OF assms(1)] assms(2)
  by (simp add: last_step_def perm3_def perm2_def perm_rows_map wf3_def)

lemma get_layer_perm:
  assumes "is_perm p (dim0 z)" "wf3 z"
  shows "get_layer (perm3 p z) i = map_sum id (perm2 p) (get_layer z i)"
  using is_perm_lt[OF assms(1)] assms(2)
  by (simp add: get_layer_def perm3_def perm2_def perm_rows_map wf3_def)

lemma set_layer_perm:
  assumes "is_perm p (dim0 z)" "wf3 z" "wf2 v" "nrows v = dim0 z" "ncols v = dim2 z"
  shows "set_layer (perm3 p z) i (perm2 p v) = map_sum id (perm3 p) (set_layer z i v)"
proof -
  have b: "\<forall>j\<in>set p. j < length (cells3 z) \<and> j < length (cells2 v)"
    using is_perm_lt[OF assms(1)] assms(2-4) by (simp add: wf3_def wf2_def)
  show ?thesis
    using assms(4,5)
    by (simp add: set_layer_def broadcast2_exact perm3_def perm2_def perm_rows_map2[OF b])
qed

lemma reshape2_perm:
  "nrows a = n \<Longrightarrow> ncols a = h \<Longrightarrow> reshape2 n h (perm2 p a) = map_sum id (perm2 p) (reshape2 n h a)"
  by (simp add: reshape2_same)

lemma append_features_perm:
  assumes "is_perm p (dim0 a)" "wf3 a" "wf3 b" "dim0 b = dim0 a"
  shows "append_features (perm3 p a) (perm3 p b) = map_sum id (perm3 p) (append_features a b)"
proof -
  have l: "\<forall>j\<in>set p. j < length (cells3 a) \<and> j < length (cells3 b)"
    using is_perm_lt[OF assms(1)] assms(2-4) by (simp add: wf3_def)
  show ?thesis
    by (simp add: append_features_def perm3_def perm_rows_map2[OF l])
qed

lemma slices_perm:
  assumes "is_perm p (nrows a)" "wf2 a"
  shows "drop_last_col (perm2 p a) = perm2 p (drop_last_col a)"
    "drop_first_col (perm2 p a) = perm2 p (drop_first_col a)"
    "not_equal_to (perm2 p a) x = perm2 p (not_equal_to a x)"
  using is_perm_lt[OF assms(1)] assms(2)
  by (simp_all add: drop_last_col_def drop_first_col_def not_equal_to_def perm2_def perm_rows_map wf2_def)

lemma bindE_rel:
  assumes "rel_sum (=) R r' r" and "\<And>x' x. R x' x \<Longrightarrow> rel_sum (=) S (f' x') (f x)"
  shows "rel_sum (=) S (bindE r' f') (bindE r f)"
  using assms by (cases r; cases r') simp_all

lemma rel_sum_refl_eq: "rel_sum (=) (=) r r"
  by (cases r) simp_all

lemma same_or_permuted_rel:
  "same_or_permuted p r' r \<longleftrightarrow> rel_sum (=) (\<lambda>y' y. fst y' = perm3 p (fst y)) r' r"
  by (cases r; cases r') (auto simp: same_or_permuted_def)

lemma rel_sum_mono_strong:
  "rel_sum (=) R r' r \<Longrightarrow> (\<And>x' x. R x' x \<Longrightarrow> r' = Inr x' \<Longrightarrow> r = Inr x \<Longrightarrow> S x' x) \<Longrightarrow>
   rel_sum (=) S r' r"
  by (cases r; cases r') simp_all

lemma map_sum_perm_rel:
  "r' = map_sum id f r \<Longrightarrow> rel_sum (=) (\<lambda>x' x. x' = f x) r' r"
  by (cases r) simp_all

lemma cell_forward_perm:
  assumes "batch_equivariant ly" "cells_keep_shape ly"
    and "wf3 x" "wf2 h0" "is_perm p (dim0 x)" "nrows h0 = dim0 x"
  shows "rel_sum (=) (\<lambda>y' y. fst y' = perm3 p (fst y) \<and> wf3 (fst y) \<and> dim0 (fst y) = dim0 x \<and>
                              dim2 (fst y) = ncols h0)
           (cell_forward ly m side i (perm3 p x) (perm2 p h0)) (cell_forward ly m side i x h0)"
proof -
  have r: "same_or_permuted p (recurrent_forward ly (perm3 p x) (perm2 p h0) wx wh b)
                           (recurrent_forward ly x h0 wx wh b)"
    and l: "same_or_permuted p (lstm_forward ly (perm3 p x) (perm2 p h0) wx wh b)
                           (lstm_forward ly x h0 wx wh b)" for wx wh b
    using assms(1,3-6) by (simp_all add: batch_equivariant_def)
  have prim: "rel_sum (=) (\<lambda>y' y. fst y' = perm3 p (fst y) \<and> wf3 (fst y) \<and> dim0 (fst y) = dim0 x \<and>
                              dim2 (fst y) = ncols h0) r' r"
    if "same_or_permuted p r' r" "r = recurrent_forward ly x h0 wx wh b \<or> r = lstm_forward ly x h0 wx wh b"
    for r' r wx wh b
  proof (rule rel_sum_mono_strong[OF that(1)[unfolded same_or_permuted_rel]])
    fix y' y assume "fst y' = perm3 p (fst y)" "r = Inr y"
    moreover from this that(2) assms(2,6) have "wf3 (fst y) \<and> dim0 (fst y) = dim0 x \<and> dim2 (fst y) = ncols h0"
      unfolding cells_keep_shape_def by (cases y) (metis fst_conv)
    ultimately show "fst y' = perm3 p (fst y) \<and> wf3 (fst y) \<and> dim0 (fst y) = dim0 x \<and> dim2 (fst y) = ncols h0"
      by simp
  qed
  have pr: "rel_sum (=) (\<lambda>y' y. fst y' = perm3 p (fst y) \<and> wf3 (fst y) \<and> dim0 (fst y) = dim0 x \<and>
                              dim2 (fst y) = ncols h0)
              (recurrent_forward ly (perm3 p x) (perm2 p h0) wx wh b) (recurrent_forward ly x h0 wx wh b)"
    and pl: "rel_sum (=) (\<lambda>y' y. fst y' = perm3 p (fst y) \<and> wf3 (fst y) \<and> dim0 (fst y) = dim0 x \<and>
                              dim2 (fst y) = ncols h0)
              (lstm_forward ly (perm3 p x) (perm2 p h0) wx wh b) (lstm_forward ly x h0 wx wh b)"
    for wx wh b
    using prim[OF r] prim[OF l] by blast+
  show ?thesis
    unfolding cell_forward_def
    by (auto intro!: bindE_rel[where R = "(=)"] rel_sum_refl_eq pr pl)
qed

lemma wf2_get_layer:
  "get_layer z i = Inr v \<Longrightarrow> wf3 z \<Longrightarrow> wf2 v \<and> nrows v = dim0 z \<and> ncols v = dim2 z"
  by (auto simp: get_layer_def wf3_def wf2_def list_all_iff split: if_splits)

lemma enc_loop_perm:
  assumes "batch_equivariant ly" "cells_keep_shape ly" "is_perm p n" "perm2 p h0 = h0" "wf2 h0"
    "nrows h0 = n" "wf3 h" "dim0 h = n" "wf3 z" "dim0 z = n" "dim2 z = ncols h0"
  shows "rel_sum (=) (\<lambda>(h', cs', z') (h, cs, z). h' = perm3 p h \<and> z' = perm3 p z \<and>
             wf3 h \<and> dim0 h = n \<and> wf3 z \<and> dim0 z = n \<and> dim2 z = ncols h0)
           (enc_loop ly m h0 is (perm3 p h, ds, perm3 p z)) (enc_loop ly m h0 is (h, cs, z))"
  using assms(7-11)
proof (induction "is" arbitrary: h cs ds z)
  case Nil
  then show ?case by simp
next
  case (Cons i "is")
  note cf = cell_forward_perm[OF assms(1,2) Cons.prems(1) assms(5), of p m "''enc''" i,
      unfolded assms(4)] 
  show ?case
    unfolding enc_loop.simps
  proof (rule bindE_rel[OF cf])
    show "is_perm p (dim0 h)" using assms(3) Cons.prems(2) by simp
    show "nrows h0 = dim0 h" using assms(6) Cons.prems(2) by simp
  next
    fix y' y :: "'a arr3 \<times> 'b"
    assume y: "fst y' = perm3 p (fst y) \<and> wf3 (fst y) \<and> dim0 (fst y) = dim0 h \<and> dim2 (fst y) = ncols h0"
    obtain h1 k1 where y1: "y = (h1, k1)" by force
    obtain h1' k1' where y1': "y' = (h1', k1')" by force
    from y y1 y1' Cons.prems(2) have h1: "h1' = perm3 p h1" "wf3 h1" "dim0 h1 = n" "dim2 h1 = ncols h0"
      by simp_all
    have pl: "is_perm p (dim0 h1)" using assms(3) h1(3) by simp
    have ls: "rel_sum (=) (\<lambda>v' v. v' = perm2 p v \<and> wf2 v \<and> nrows v = n \<and> ncols v = ncols h0)
                (last_step (perm3 p h1)) (last_step h1)"
      using wf2_last_step[OF _ h1(2)] h1(3,4)
      by (intro rel_sum_mono_strong[OF map_sum_perm_rel[OF last_step_perm[OF pl h1(2)]]]) simp
    show "rel_sum (=) (\<lambda>(h', cs', z') (h, cs, z). h' = perm3 p h \<and> z' = perm3 p z \<and>
             wf3 h \<and> dim0 h = n \<and> wf3 z \<and> dim0 z = n \<and> dim2 z = ncols h0)
          (case y' of (h_enc', cache) \<Rightarrow>
             bindE (last_step h_enc') (\<lambda>v. bindE (set_layer (perm3 p z) i v)
               (\<lambda>z'. enc_loop ly m h0 is (h_enc', ds @ [cache], z'))))
          (case y of (h_enc', cache) \<Rightarrow>
             bindE (last_step h_enc') (\<lambda>v. bindE (set_layer z i v)
               (\<lambda>z'. enc_loop ly m h0 is (h_enc', cs @ [cache], z'))))"
      unfolding y1 y1' h1(1) prod.case
    proof (rule bindE_rel[OF ls])
      fix v' v :: "'a arr2"
      assume v: "v' = perm2 p v \<and> wf2 v \<and> nrows v = n \<and> ncols v = ncols h0"
      have pz: "is_perm p (dim0 z)" using assms(3) Cons.prems(4) by simp
      have sl: "rel_sum (=) (\<lambda>z1' z1. z1' = perm3 p z1 \<and> wf3 z1 \<and> dim0 z1 = n \<and> dim2 z1 = ncols h0)
                  (set_layer (perm3 p z) i (perm2 p v)) (set_layer z i v)"
      proof (rule rel_sum_mono_strong[OF map_sum_perm_rel[OF set_layer_perm[OF pz Cons.prems(3)]]])
        show "wf2 v" "nrows v = dim0 z" "ncols v = dim2 z" using v Cons.prems(4,5) by simp_all
      next
        fix z1' z1 assume "z1' = perm3 p z1" "set_layer z i v = Inr z1"
        thus "z1' = perm3 p z1 \<and> wf3 z1 \<and> dim0 z1 = n \<and> dim2 z1 = ncols h0"
          using wf3_set_layer[of z i v z1] set_layer_dims[of z i v z1] v Cons.prems(3,4,5) by simp
      qed
      show "rel_sum (=) (\<lambda>(h', cs', z') (h, cs, z). h' = perm3 p h \<and> z' = perm3 p z \<and>
             wf3 h \<and> dim0 h = n \<and> wf3 z \<and> dim0 z = n \<and> dim2 z = ncols h0)
          (bindE (set_layer (perm3 p z) i v') (\<lambda>z'. enc_loop ly m h0 is (perm3 p h1, ds @ [k1'], z')))
          (bindE (set_layer z i v) (\<lambda>z'. enc_loop ly m h0 is (h1, cs @ [k1], z')))"
        unfolding conjunct1[OF v]
      proof (rule bindE_rel[OF sl])
        fix z1' z1 :: "'a arr3"
        assume z1: "z1' = perm3 p z1 \<and> wf3 z1 \<and> dim0 z1 = n \<and> dim2 z1 = ncols h0"
        show "rel_sum (=) (\<lambda>(h', cs', z') (h, cs, z). h' = perm3 p h \<and> z' = perm3 p z \<and>
             wf3 h \<and> dim0 h = n \<and> wf3 z \<and> dim0 z = n \<and> dim2 z = ncols h0)
          (enc_loop ly m h0 is (perm3 p h1, ds @ [k1'], z1'))
          (enc_loop ly m h0 is (h1, cs @ [k1], z1))"
          using Cons.IH[OF h1(2,3), of z1] z1 by simp
      qed
    qed
  qed
qed

lemma dec_loop_perm:
  assumes "batch_equivariant ly" "cells_keep_shape ly" "is_perm p n"
    "wf3 z" "dim0 z = n" "dim2 z = hh" "wf3 h" "dim0 h = n"
  shows "rel_sum (=) (\<lambda>(h', cs') (h, cs). h' = perm3 p h \<and> wf3 h \<and> dim0 h = n)
           (dec_loop ly m n hh (perm3 p z) is (perm3 p h, ds)) (dec_loop ly m n hh z is (h, cs))"
  using assms(7,8)
proof (induction "is" arbitrary: h cs ds)
  case Nil
  then show ?case by simp
next
  case (Cons i "is")
  have pz: "is_perm p (dim0 z)" using assms(3,5) by simp
  have gl: "rel_sum (=) (\<lambda>v' v. v' = perm2 p v \<and> wf2 v \<and> nrows v = n \<and> ncols v = hh)
              (get_layer (perm3 p z) i) (get_layer z i)"
    using wf2_get_layer[OF _ assms(4)] assms(5,6)
    by (intro rel_sum_mono_strong[OF map_sum_perm_rel[OF get_layer_perm[OF pz assms(4)]]]) simp
  show ?case
    unfolding dec_loop.simps
  proof (rule bindE_rel[OF gl])
    fix v' v :: "'a arr2"
    assume v: "v' = perm2 p v \<and> wf2 v \<and> nrows v = n \<and> ncols v = hh"
    hence rs: "reshape2 n hh v' = Inr (perm2 p v)" "reshape2 n hh v = Inr v"
      by (simp_all add: reshape2_same)
    have ph: "is_perm p (dim0 h)" "nrows v = dim0 h" using assms(3) Cons.prems(2) v by simp_all
    note cf = cell_forward_perm[OF assms(1,2) Cons.prems(1) conjunct1[OF conjunct2[OF v]] ph,
        of m "''dec''" i]
    show "rel_sum (=) (\<lambda>(h', cs') (h, cs). h' = perm3 p h \<and> wf3 h \<and> dim0 h = n)
          (bindE (reshape2 n hh v') (\<lambda>h0. bindE (cell_forward ly m ''dec'' i (perm3 p h) h0)
             (\<lambda>(h_dec', cache). dec_loop ly m n hh (perm3 p z) is (h_dec', ds @ [cache]))))
          (bindE (reshape2 n hh v) (\<lambda>h0. bindE (cell_forward ly m ''dec'' i h h0)
             (\<lambda>(h_dec', cache). dec_loop ly m n hh z is (h_dec', cs @ [cache]))))"
      unfolding rs bindE_simps
    proof (rule bindE_rel[OF cf])
      fix y' y :: "'a arr3 \<times> 'b"
      assume y: "fst y' = perm3 p (fst y) \<and> wf3 (fst y) \<and> dim0 (fst y) = dim0 h \<and> dim2 (fst y) = ncols v"
      obtain h1 k1 where y1: "y = (h1, k1)" by force
      obtain h1' k1' where y1': "y' = (h1', k1')" by force
      from y y1 y1' Cons.prems(2) have h1: "h1' = perm3 p h1" "wf3 h1" "dim0 h1 = n"
        by simp_all
      show "rel_sum (=) (\<lambda>(h', cs') (h, cs). h' = perm3 p h \<and> wf3 h \<and> dim0 h = n)
          (case y' of (h_dec', cache) \<Rightarrow> dec_loop ly m n hh (perm3 p z) is (h_dec', ds @ [cache]))
          (case y of (h_dec', cache) \<Rightarrow> dec_loop ly m n hh z is (h_dec', cs @ [cache]))"
        unfolding y1 y1' h1(1) prod.case by (rule Cons.IH[OF h1(2,3)])
    qed
  qed
qed

lemma layers_keep_batchD:
  assumes "layers_keep_batch ly"
  shows "cells_keep_shape ly"
    and "word_embedding_forward ly ids w = Inr y \<Longrightarrow> wf3 (fst y) \<and> dim0 (fst y) = nrows ids"
    and "temporal_attention_forward ly a b = Inr y \<Longrightarrow> wf3 (fst y) \<and> dim0 (fst y) = dim0 a"
    and "temporal_affine_forward ly x w' b' = Inr y \<Longrightarrow> wf3 (fst y) \<and> dim0 (fst y) = dim0 x"
proof -
  from assms have
    e: "\<forall>ids w y c. word_embedding_forward ly ids w = Inr (y, c) \<longrightarrow> wf3 y \<and> dim0 y = nrows ids" and
    c: "cells_keep_shape ly" and
    t: "\<forall>a b y c. temporal_attention_forward ly a b = Inr (y, c) \<longrightarrow> wf3 y \<and> dim0 y = dim0 a" and
    f: "\<forall>x w b y c. temporal_affine_forward ly x w b = Inr (y, c) \<longrightarrow> wf3 y \<and> dim0 y = dim0 x"
    unfolding layers_keep_batch_def by simp_all
  show "cells_keep_shape ly" by (rule c)
  show "word_embedding_forward ly ids w = Inr y \<Longrightarrow> wf3 (fst y) \<and> dim0 (fst y) = nrows ids"
    using e[rule_format, of ids w "fst y" "snd y"] by simp
  show "temporal_attention_forward ly a b = Inr y \<Longrightarrow> wf3 (fst y) \<and> dim0 (fst y) = dim0 a"
    using t[rule_format, of a b "fst y" "snd y"] by simp
  show "temporal_affine_forward ly x w' b' = Inr y \<Longrightarrow> wf3 (fst y) \<and> dim0 (fst y) = dim0 x"
    using f[rule_format, of x w' b' "fst y" "snd y"] by simp
qed

lemma embedding_perm:
  assumes "batch_equivariant ly" "layers_keep_batch ly" "wf2 ids" "is_perm p (nrows ids)"
  shows "rel_sum (=) (\<lambda>y' y. fst y' = perm3 p (fst y) \<and> wf3 (fst y) \<and> dim0 (fst y) = nrows ids)
           (word_embedding_forward ly (perm2 p ids) w) (word_embedding_forward ly ids w)"
proof -
  have sp: "same_or_permuted p (word_embedding_forward ly (perm2 p ids) w) (word_embedding_forward ly ids w)"
    using assms(1,3,4) by (simp add: batch_equivariant_def)
  show ?thesis
  proof (rule rel_sum_mono_strong[OF sp[unfolded same_or_permuted_rel]])
    fix y' y :: "'a arr3 \<times> 'b"
    assume "fst y' = perm3 p (fst y)" "word_embedding_forward ly ids w = Inr y"
    thus "fst y' = perm3 p (fst y) \<and> wf3 (fst y) \<and> dim0 (fst y) = nrows ids"
      using layers_keep_batchD(2)[OF assms(2)] by simp
  qed
qed

lemma attention_perm:
  assumes "batch_equivariant ly" "layers_keep_batch ly" "wf3 a" "wf3 b" "is_perm p (dim0 a)"
    "dim0 b = dim0 a"
  shows "rel_sum (=) (\<lambda>y' y. fst y' = perm3 p (fst y) \<and> wf3 (fst y) \<and> dim0 (fst y) = dim0 a)
           (temporal_attention_forward ly (perm3 p a) (perm3 p b)) (temporal_attention_forward ly a b)"
proof -
  have sp: "same_or_permuted p (temporal_attention_forward ly (perm3 p a) (perm3 p b))
          (temporal_attention_forward ly a b)"
    using assms(1,3-6) by (simp add: batch_equivariant_def)
  show ?thesis
  proof (rule rel_sum_mono_strong[OF sp[unfolded same_or_permuted_rel]])
    fix y' y :: "'a arr3 \<times> 'b"
    assume "fst y' = perm3 p (fst y)" "temporal_attention_forward ly a b = Inr y"
    thus "fst y' = perm3 p (fst y) \<and> wf3 (fst y) \<and> dim0 (fst y) = dim0 a"
      using layers_keep_batchD(3)[OF assms(2)] by simp
  qed
qed

lemma affine_perm:
  assumes "batch_equivariant ly" "layers_keep_batch ly" "wf3 x" "is_perm p (dim0 x)"
  shows "rel_sum (=) (\<lambda>y' y. fst y' = perm3 p (fst y) \<and> wf3 (fst y) \<and> dim0 (fst y) = dim0 x)
           (temporal_affine_forward ly (perm3 p x) w b) (temporal_affine_forward ly x w b)"
proof -
  have sp: "same_or_permuted p (temporal_affine_forward ly (perm3 p x) w b)
          (temporal_affine_forward ly x w b)"
    using assms(1,3,4) by (simp add: batch_equivariant_def)
  show ?thesis
  proof (rule rel_sum_mono_strong[OF sp[unfolded same_or_permuted_rel]])
    fix y' y :: "'a arr3 \<times> 'b"
    assume "fst y' = perm3 p (fst y)" "temporal_affine_forward ly x w b = Inr y"
    thus "fst y' = perm3 p (fst y) \<and> wf3 (fst y) \<and> dim0 (fst y) = dim0 x"
      using layers_keep_batchD(4)[OF assms(2)] by simp
  qed
qed

lemma wf3_append_features:
  assumes "append_features a b = Inr c" "wf3 a" "wf3 b"
  shows "wf3 c \<and> dim0 c = dim0 a"
proof -
  from assms(1) have d: "dim0 a = dim0 b" "dim1 a = dim1 b"
    and c: "c = Arr3 (dim0 a) (dim1 a) (dim2 a + dim2 b) (map2 (map2 (@)) (cells3 a) (cells3 b))"
    by (auto simp: append_features_def split: if_splits)
  have "length (map2 (@) x y) = dim1 a \<and> (\<forall>r\<in>set (map2 (@) x y). length r = dim2 a + dim2 b)"
    if "x \<in> set (cells3 a)" "y \<in> set (cells3 b)" for x y
  proof -
    from that assms(2,3) d have "length x = dim1 a" "length y = dim1 a"
      "\<forall>r\<in>set x. length r = dim2 a" "\<forall>r\<in>set y. length r = dim2 b"
      by (auto simp: wf3_def list_all_iff)
    thus ?thesis by (auto simp: set_zip)
  qed
  hence "\<forall>q\<in>set (zip (cells3 a) (cells3 b)).
           length (map2 (@) (fst q) (snd q)) = dim1 a \<and>
           (\<forall>r\<in>set (map2 (@) (fst q) (snd q)). length r = dim2 a + dim2 b)"
    by (metis set_zip_leftD set_zip_rightD prod.collapse)
  thus ?thesis
    using assms(2,3) d unfolding c wf3_def list_all_iff
    by (auto simp: case_prod_beta)
qed

lemma forward_perm:
  assumes E: "batch_equivariant ly" and K: "layers_keep_batch ly"
    and ws: "wf2 src" and wt: "wf2 trg" and nt: "nrows trg = nrows src"
    and ps: "is_perm p (nrows src)"
  shows "rel_sum (=) (\<lambda>sc' sc. fst sc' = perm3 p (fst sc) \<and> wf3 (fst sc) \<and> dim0 (fst sc) = nrows src)
           (fst (forward ly m (perm2 p src) (perm2 p trg))) (fst (forward ly m src trg))"
proof -
  let ?N = "nrows src" and ?H = "hidden_dim m"
  note C = layers_keep_batchD(1)[OF K]
  have pt: "is_perm p (nrows trg)" using ps nt by simp
  have z0: "rel_sum (=) (\<lambda>z' z. z' = z \<and> perm3 p z = z \<and> wf3 z \<and> dim0 z = ?N \<and> dim2 z = ?H)
              (ndarray3 (uninit ly) ?N (n_layers m) ?H) (ndarray3 (uninit ly) ?N (n_layers m) ?H)"
  proof (rule rel_sum_mono_strong[OF rel_sum_refl_eq])
    fix z' z :: "'a arr3"
    assume "z' = z" "ndarray3 (uninit ly) ?N (n_layers m) ?H = Inr z"
    thus "z' = z \<and> perm3 p z = z \<and> wf3 z \<and> dim0 z = ?N \<and> dim2 z = ?H"
      using wf3_ndarray3[of "uninit ly" ?N "n_layers m" ?H z]
        perm3_ndarray3[OF ps, of "uninit ly" "n_layers m" ?H z] by simp
  qed
  have zh: "perm2 p (zeros2 ?N ?H) = zeros2 ?N ?H" "wf2 (zeros2 ?N ?H :: 'a arr2)"
    "nrows (zeros2 ?N ?H :: 'a arr2) = ?N" "ncols (zeros2 ?N ?H :: 'a arr2) = ?H"
    using perm2_zeros2[OF ps] by (simp_all add: zeros2_def wf2_def list_all_iff)
  show ?thesis
    unfolding forward_def Let_def fst_conv perm_dims
  proof (rule bindE_rel[OF rel_sum_refl_eq], goal_cases)
    case (1 w' w_ee)
    show ?case unfolding 1
    proof (rule bindE_rel[OF embedding_perm[OF E K ws ps]], goal_cases)
      case (1 y' y)
      obtain se ec where y: "y = (se, ec)" by force
      obtain se' ec' where y': "y' = (se', ec')" by force
      from 1 y y' have se: "se' = perm3 p se" "wf3 se" "dim0 se = ?N" by simp_all
      show ?case unfolding y y' prod.case se(1)
      proof (rule bindE_rel[OF z0], goal_cases)
        case (1 z' z)
        hence z: "z' = perm3 p z" "wf3 z" "dim0 z = ?N" "dim2 z = ncols (zeros2 ?N ?H :: 'a arr2)"
          by (simp_all add: zh)
        show ?case unfolding z(1)
        proof (rule bindE_rel[OF enc_loop_perm[OF E C ps zh(1,2,3) se(2,3) z(2,3,4)]], goal_cases)
          case (1 r' r)
          obtain h_enc ecs z1 where r: "r = (h_enc, ecs, z1)" by (cases r) auto
          obtain h_enc' ecs' z1' where r': "r' = (h_enc', ecs', z1')" by (cases r') auto
          from 1 r r' have he: "h_enc' = perm3 p h_enc" "z1' = perm3 p z1" "wf3 h_enc" "dim0 h_enc = ?N"
            "wf3 z1" "dim0 z1 = ?N" "dim2 z1 = ?H" by (simp_all add: zh)
          show ?case unfolding r r' prod.case he(1,2)
          proof (rule bindE_rel[OF rel_sum_refl_eq], goal_cases)
            case (1 w' w_ed)
            show ?case unfolding 1
            proof (rule bindE_rel[OF embedding_perm[OF E K wt pt]], goal_cases)
              case (1 y' y)
              obtain te dc where y: "y = (te, dc)" by force
              obtain te' dc' where y': "y' = (te', dc')" by force
              from 1 y y' nt have te: "te' = perm3 p te" "wf3 te" "dim0 te = ?N" by simp_all
              show ?case unfolding y y' prod.case te(1)
              proof (rule bindE_rel[OF dec_loop_perm[OF E C ps he(5,6,7) te(2,3)]], goal_cases)
                case (1 r' r)
                obtain h_dec dcs where r: "r = (h_dec, dcs)" by force
                obtain h_dec' dcs' where r': "r' = (h_dec', dcs')" by force
                from 1 r r' have hd: "h_dec' = perm3 p h_dec" "wf3 h_dec" "dim0 h_dec = ?N" by simp_all
                have pd: "is_perm p (dim0 h_dec)" "dim0 h_enc = dim0 h_dec" using ps hd he by simp_all
                show ?case unfolding r r' prod.case hd(1)
                proof (rule bindE_rel[OF attention_perm[OF E K hd(2) he(3) pd]], goal_cases)
                  case (1 y' y)
                  obtain ao ac where y: "y = (ao, ac)" by force
                  obtain ao' ac' where y': "y' = (ao', ac')" by force
                  from 1 y y' hd have ao: "ao' = perm3 p ao" "wf3 ao" "dim0 ao = dim0 h_dec" by simp_all
                  have dout: "rel_sum (=) (\<lambda>d' d. d' = perm3 p d \<and> wf3 d \<and> dim0 d = ?N)
                      (if attention m then append_features (perm3 p h_dec) (perm3 p ao) else Inr (perm3 p h_dec))
                      (if attention m then append_features h_dec ao else Inr h_dec)"
                  proof (cases "attention m")
                    case True
                    show ?thesis unfolding if_P[OF True]
                      using wf3_append_features[OF _ hd(2) ao(2)] hd(3)
                      by (intro rel_sum_mono_strong[OF map_sum_perm_rel[OF
                              append_features_perm[OF pd(1) hd(2) ao(2,3)]]]) simp
                  next
                    case False
                    then show ?thesis using hd by simp
                  qed
                  show ?case unfolding y y' prod.case ao(1)
                  proof (rule bindE_rel[OF dout], goal_cases)
                    case (1 d' d)
                    hence d: "d' = perm3 p d" "wf3 d" "is_perm p (dim0 d)" "dim0 d = ?N"
                      using ps by simp_all
                    show ?case unfolding d(1)
                    proof (rule bindE_rel[OF rel_sum_refl_eq], goal_cases)
                      case (1 w' w_out)
                      show ?case unfolding 1
                      proof (rule bindE_rel[OF rel_sum_refl_eq], goal_cases)
                        case (1 b' b_out)
                        show ?case unfolding 1
                        proof (rule bindE_rel[OF affine_perm[OF E K d(2,3)]], goal_cases)
                          case (1 y' y)
                          then show ?case using d(4) by (cases y; cases y') simp
                        qed
                      qed
                    qed
                  qed
                qed
              qed
            qed
          qed
        qed
      qed
    qed
  qed
qed

lemma loss_after_forward:
  assumes "fst (forward ly m src (drop_last_col trg)) = Inr (scores, cs)"
    and "temporal_cross_entropy_loss ly scores (drop_first_col trg)
           (not_equal_to (drop_first_col trg) (null_idx m)) = Inr (l, dscores)"
  shows "fst (loss ly m src trg) = map_sum id (Pair l) (fst (backward ly m dscores cs))"
proof -
  obtain r1 m1 where f: "forward ly m src (drop_last_col trg) = (r1, m1)" by force
  have m1: "m1 = m" using snd_forward[of ly m src "drop_last_col trg"] f by simp
  obtain r2 m2 where b: "backward ly m dscores cs = (r2, m2)" by force
  show ?thesis using assms f m1 b
    by (cases r2) (simp_all add: loss_def Let_def)
qed

text \<open>
  Let the forward primitives keep the batch axis and treat the batch rows alike, and let
  the loss primitive give the same value when scores, labels and mask are reordered
  alike. If \<^verbatim>\<open>loss\<close> returns the loss \<open>l\<close> on \<open>src\<close> and \<open>trg\<close>, then on the batches with
  the rows reordered by the same permutation \<open>p\<close> the forward pass returns the scores
  with the rows reordered by \<open>p\<close>, the loss primitive returns the same \<open>l\<close>, and \<^verbatim>\<open>loss\<close>
  returns \<open>l\<close> with whatever gradients the backward pass returns (or raises what the
  backward pass raises).
\<close>

lemma forward_loss_permuted:
  assumes "batch_equivariant ly" and "layers_keep_batch ly"
    and "wf2 src" and "wf2 trg" and "nrows trg = nrows src" and "is_perm p (nrows src)"
    and "fst (loss ly m src trg) = Inr (l, g)"
  shows "\<exists>scores cs ds.
           fst (forward ly m (perm2 p src) (drop_last_col (perm2 p trg))) = Inr (perm3 p scores, cs) \<and>
           temporal_cross_entropy_loss ly (perm3 p scores) (drop_first_col (perm2 p trg))
             (not_equal_to (drop_first_col (perm2 p trg)) (null_idx m)) = Inr (l, ds) \<and>
           fst (loss ly m (perm2 p src) (perm2 p trg))
             = map_sum id (Pair l) (fst (backward ly m ds cs))"
proof -
  let ?ti = "drop_last_col trg" and ?to = "drop_first_col trg"
  let ?mk = "not_equal_to (drop_first_col trg) (null_idx m)"
  from assms(7)[unfolded loss_Inr_iff] obtain scores cs dscores where
    f: "fst (forward ly m src ?ti) = Inr (scores, cs)" and
    x: "temporal_cross_entropy_loss ly scores ?to ?mk = Inr (l, dscores)" by blast
  have pt: "is_perm p (nrows trg)" using assms(5,6) by simp
  note sl = slices_perm[OF pt assms(4)]
  have wti: "wf2 ?ti" "wf2 ?to" "nrows ?ti = nrows src" "nrows ?to = nrows src"
    using slices_wf(1,2)[OF assms(4)] assms(5) by (simp_all add: drop_last_col_def drop_first_col_def)
  have wmk: "wf2 ?mk" "nrows ?mk = nrows src"
    using slices_wf(3)[OF wti(2)] wti(4) by (simp_all add: not_equal_to_def)
  have pto: "is_perm p (nrows ?to)" using assms(6) wti(4) by simp
  from forward_perm[OF assms(1,2,3) wti(1,3) assms(6), of m] f
  obtain cs' where
    f': "fst (forward ly m (perm2 p src) (perm2 p ?ti)) = Inr (perm3 p scores, cs')" and
    ws: "wf3 scores" "dim0 scores = nrows src"
    by (cases "fst (forward ly m (perm2 p src) (perm2 p ?ti))") auto
  have "map_sum id fst (temporal_cross_entropy_loss ly (perm3 p scores) (perm2 p ?to) (perm2 p ?mk))
          = map_sum id fst (temporal_cross_entropy_loss ly scores ?to ?mk)"
    using assms(1,6) ws wti(2,4) wmk by (simp add: batch_equivariant_def)
  with x obtain ds where
    x': "temporal_cross_entropy_loss ly (perm3 p scores) (perm2 p ?to) (perm2 p ?mk) = Inr (l, ds)"
    by (cases "temporal_cross_entropy_loss ly (perm3 p scores) (perm2 p ?to) (perm2 p ?mk)") auto
  have e: "drop_last_col (perm2 p trg) = perm2 p ?ti" "drop_first_col (perm2 p trg) = perm2 p ?to"
    "not_equal_to (perm2 p ?to) (null_idx m) = perm2 p ?mk"
    using sl(1,2) slices_perm(3)[OF pto wti(2)] by simp_all
  from f' x' loss_after_forward[of ly m "perm2 p src" "perm2 p trg" "perm3 p scores" cs' l ds]
  show ?thesis unfolding e by blast
qed

lemma tab3_cong:
  "(\<And>i s k. i < n \<Longrightarrow> s < t \<Longrightarrow> k < h \<Longrightarrow> f i s k = g i s k) \<Longrightarrow> tab3 n t h f = tab3 n t h g"
  by (simp add: tab3_def)

lemma map_nth_comp: "length p = n \<Longrightarrow> map (\<lambda>i. g (p ! i)) [0 ..< n] = map g p"
  by (simp add: list_eq_iff_nth_eq)

lemma perm3_tab3:
  assumes "is_perm p n"
  shows "perm3 p (tab3 n t h f) = tab3 n t h (\<lambda>i. f (p ! i))"
proof -
  let ?G = "\<lambda>i. map (\<lambda>s. map (\<lambda>k. f i s k) [0 ..< h]) [0 ..< t]"
  have "perm_rows p (map ?G [0 ..< n]) = map ?G p"
    using is_perm_lt[OF assms] by (simp add: perm_rows_def)
  also have "\<dots> = map (\<lambda>i. ?G (p ! i)) [0 ..< n]"
    using map_nth_comp[OF is_perm_length[OF assms], of ?G] by simp
  finally show ?thesis by (simp add: perm3_def tab3_def)
qed

lemma at3_perm3:
  assumes "is_perm p n" "wf3 a" "dim0 a = n" "i < n"
  shows "at3 d (perm3 p a) i = at3 d a (p ! i)"
proof -
  have "p ! i < n" using assms(1,4) is_perm_lt is_perm_length by (metis nth_mem)
  thus ?thesis
    using assms is_perm_length[OF assms(1)]
    by (intro ext) (simp add: at3_def perm3_def perm_rows_def nth_or_def wf3_def)
qed

lemma at2_perm2:
  assumes "is_perm p n" "wf2 a" "nrows a = n" "i < n"
  shows "at2 d (perm2 p a) i = at2 d a (p ! i)"
proof -
  have "p ! i < n" using assms(1,4) is_perm_lt is_perm_length by (metis nth_mem)
  thus ?thesis
    using assms is_perm_length[OF assms(1)]
    by (intro ext) (simp add: at2_def perm2_def perm_rows_def nth_or_def wf2_def)
qed

lemma sum_upto_perm:
  assumes "is_perm p n"
  shows "sum_upto n (\<lambda>i. f (p ! i)) = sum_upto n f"
proof -
  have "map (\<lambda>i. f (p ! i)) [0 ..< n] = map f p"
    by (rule map_nth_comp[OF is_perm_length[OF assms]])
  hence "sum_upto n (\<lambda>i. f (p ! i)) = sum_mset (image_mset f (mset p))"
    by (simp add: sum_upto_def sum_mset_sum_list[symmetric])
  also have "\<dots> = sum_mset (image_mset f (mset [0 ..< n]))"
    using assms by (simp add: is_perm_def)
  also have "\<dots> = sum_upto n f"
    by (simp add: sum_upto_def sum_mset_sum_list[symmetric])
  finally show ?thesis .
qed

lemma sum_upto_cong: "(\<And>i. i < n \<Longrightarrow> f i = g i) \<Longrightarrow> sum_upto n f = sum_upto n g"
  unfolding sum_upto_def by (rule arg_cong[where f = sum_list], rule map_cong) auto

lemma same_or_permuted_Inr: "same_or_permuted p (Inr (y', c')) (Inr (y, c)) \<longleftrightarrow> y' = perm3 p y"
  by (simp add: same_or_permuted_def)

lemma toy_layers_keep_batch: "layers_keep_batch toy_layers"
  unfolding layers_keep_batch_def
  using toy_cells_keep_shape
  by (auto simp: toy_layers_def toy_embedding_forward_def toy_attention_forward_def
      toy_affine_forward_def Let_def)

lemma toy_embedding_perm:
  assumes "wf2 ids" "is_perm p (nrows ids)"
  shows "same_or_permuted p (toy_embedding_forward (perm2 p ids) w) (toy_embedding_forward ids w)"
  unfolding toy_embedding_forward_def Let_def same_or_permuted_Inr perm_dims perm3_tab3[OF assms(2)]
  by (rule tab3_cong) (simp add: at2_perm2[OF assms(2,1)])

lemma toy_cell_perm:
  assumes "wf3 x" "wf2 h0" "is_perm p (dim0 x)" "nrows h0 = dim0 x"
  shows "same_or_permuted p (toy_cell_forward (perm3 p x) (perm2 p h0) wx wh b)
           (toy_cell_forward x h0 wx wh b)"
proof -
  have p': "is_perm p (nrows h0)" using assms(3,4) by simp
  show ?thesis
    unfolding toy_cell_forward_def same_or_permuted_Inr perm_dims perm3_tab3[OF p']
    by (rule tab3_cong)
      (simp add: at2_perm2[OF p' assms(2)] at3_perm3[OF assms(3,1)] assms(4))
qed

lemma toy_attention_perm:
  assumes "wf3 a" "wf3 b" "is_perm p (dim0 a)" "dim0 b = dim0 a"
  shows "same_or_permuted p (toy_attention_forward (perm3 p a) (perm3 p b))
           (toy_attention_forward a b)"
proof -
  have p': "is_perm p (dim0 b)" using assms(3,4) by simp
  show ?thesis
    unfolding toy_attention_forward_def same_or_permuted_Inr perm_dims perm3_tab3[OF assms(3)]
    by (rule tab3_cong) (simp add: at3_perm3[OF p' assms(2)] assms(4))
qed

lemma toy_affine_perm:
  assumes "wf3 x" "is_perm p (dim0 x)"
  shows "same_or_permuted p (toy_affine_forward (perm3 p x) w b) (toy_affine_forward x w b)"
  unfolding toy_affine_forward_def same_or_permuted_Inr perm_dims perm3_tab3[OF assms(2)]
  by (rule tab3_cong) (simp add: at3_perm3[OF assms(2,1)])

lemma toy_loss_perm:
  assumes "wf3 s" "wf2 y" "wf2 k" "is_perm p (dim0 s)" "nrows y = dim0 s" "nrows k = dim0 s"
  shows "map_sum id fst (toy_loss (perm3 p s) (perm2 p y) (perm2 p k))
           = map_sum id fst (toy_loss s y k)"
proof -
  let ?f = "\<lambda>i. sum_upto (dim1 s) (\<lambda>t.
            if at2 False k i t then at3 0 s i t (nat (at2 0 y i t)) else 0)"
  have py: "is_perm p (nrows y)" "is_perm p (nrows k)" using assms(4,5,6) by simp_all
  have "sum_upto (dim0 s) (\<lambda>i. sum_upto (dim1 s) (\<lambda>t.
            if at2 False (perm2 p k) i t then at3 0 (perm3 p s) i t (nat (at2 0 (perm2 p y) i t)) else 0))
        = sum_upto (dim0 s) (\<lambda>i. ?f (p ! i))"
    by (rule sum_upto_cong)
      (simp add: at2_perm2[OF py(1) assms(2)] at2_perm2[OF py(2) assms(3)]
        at3_perm3[OF assms(4,1)] assms(5,6) cong: if_cong)
  also have "\<dots> = sum_upto (dim0 s) ?f" by (rule sum_upto_perm[OF assms(4)])
  finally show ?thesis by (simp add: toy_loss_def)
qed

lemma toy_batch_equivariant: "batch_equivariant toy_layers"
  unfolding batch_equivariant_def
  by (simp add: toy_layers_def toy_embedding_perm toy_cell_perm toy_attention_perm
      toy_affine_perm toy_loss_perm)

lemma demo_wf2_src: "wf2 demo_src"
  by (simp add: demo_src_def wf2_def)

lemma demo_perm: "is_perm [1, 0] (nrows demo_src)"
  by (simp add: is_perm_def demo_src_def upt_rec)

lemma demo_rows: "nrows demo_trg = nrows demo_src"
  by (simp add: demo_src_def demo_trg_def)

lemma demo_perm_loss_value:
  "map_sum id fst (fst (loss toy_layers demo_model (perm2 [1, 0] demo_src) (perm2 [1, 0] demo_trg)))
     = Inr 29"
  by code_simp

text \<open>
  The statement for the demo model and the integer stand-ins of the primitives, with the
  two rows of the batch swapped: the loss is 29 before and after.
\<close>

lemma forward_loss_permuted_demo:
  "batch_equivariant toy_layers \<and> layers_keep_batch toy_layers \<and> wf2 demo_src \<and> wf2 demo_trg \<and>
   nrows demo_trg = nrows demo_src \<and> is_perm [1, 0] (nrows demo_src) \<and>
   fst (loss toy_layers demo_model demo_src demo_trg) = Inr (29, demo_grads) \<and>
   (\<exists>scores cs ds.
      fst (forward toy_layers demo_model (perm2 [1, 0] demo_src) (drop_last_col (perm2 [1, 0] demo_trg)))
        = Inr (perm3 [1, 0] scores, cs) \<and>
      temporal_cross_entropy_loss toy_layers (perm3 [1, 0] scores) (drop_first_col (perm2 [1, 0] demo_trg))
        (not_equal_to (drop_first_col (perm2 [1, 0] demo_trg)) (null_idx demo_model)) = Inr (29, ds) \<and>
      fst (loss toy_layers demo_model (perm2 [1, 0] demo_src) (perm2 [1, 0] demo_trg))
        = map_sum id (Pair 29) (fst (backward toy_layers demo_model ds cs))) \<and>
   map_sum id fst (fst (loss toy_layers demo_model (perm2 [1, 0] demo_src) (perm2 [1, 0] demo_trg)))
     = Inr 29"
  using forward_loss_permuted[OF toy_batch_equivariant toy_layers_keep_batch demo_wf2_src
      demo_wf2_trg demo_rows demo_perm demo_loss_Inr]
    toy_batch_equivariant toy_layers_keep_batch demo_wf2_src demo_wf2_trg demo_rows demo_perm
    demo_loss_Inr demo_perm_loss_value
  by blast

end
